(* ===== verification/Prelude.thy ===== *)
theory Prelude
  imports Main "HOL-Library.Char_ord" "HOL-Library.List_Lexorder" "HOL-Library.Stream" "HOL-Library.Multiset"
begin

text \<open>
  What every component of the model shares: Go's error values, the outcome of a Go
  function that may return an error or panic, the sequencing of such functions over an
  explicit state, and the reasoning rules for that sequencing.

  A Go function \<open>func f(..) (T, error)\<close> that reads or writes shared state is a function
  from the state to an outcome and a new state.  \<open>Ok v\<close> is a nil error with result \<open>v\<close>,
  \<open>Err e\<close> is a non-nil error, \<open>Panic\<close> a run-time panic (index out of range, nil
  dereference, failed type assertion); the state reached so far is kept in all three.
\<close>

section \<open>Errors\<close>

text \<open>
  \<open>StatusError\<close> is an error of the Kubernetes API with the reason of its status
  (only NotFound is ever inspected), \<open>PlainError\<close> any other error with its text (for
  \<open>fmt.Errorf\<close> of a text computed at run time, the text it is given),
  \<open>URLError\<close> and \<open>NumError\<close> the errors of \<open>net/url\<close> and \<open>strconv\<close> with the
  offending text.
\<close>

datatype status_reason = StatusReasonNotFound | StatusReasonOther string

datatype go_error =
    StatusError status_reason string
  | PlainError string
  | URLError string
  | NumError string

definition quote_char :: "char \<Rightarrow> string" where
  "quote_char c = (if c = CHR 0x22 \<or> c = CHR 0x5C then [CHR 0x5C, c] else [c])"

text \<open>\<open>strconv.Quote\<close> (the verb \<open>%q\<close>) on printable text.\<close>

definition quote :: "string \<Rightarrow> string" where
  "quote s = CHR 0x22 # concat (map quote_char s) @ [CHR 0x22]"

fun err_text :: "go_error \<Rightarrow> string" where
  "err_text (StatusError _ m) = m"
| "err_text (PlainError m) = m"
| "err_text (URLError u) = ''parse '' @ quote u @ '': invalid URL''"
| "err_text (NumError n) = ''strconv.Atoi: parsing '' @ quote n @ '': invalid number''"

text \<open>\<open>fmt.Sprintf("%s", err)\<close> of an error interface that may be nil.\<close>

definition Sprintf_s :: "go_error option \<Rightarrow> string" where
  "Sprintf_s e = (case e of None \<Rightarrow> ''%!s(<nil>)'' | Some e' \<Rightarrow> err_text e')"

section \<open>Outcomes and sequencing\<close>

datatype 'a outcome = Ok 'a | Err go_error | Panic

type_synonym ('s, 'a) go = "'s \<Rightarrow> 'a outcome \<times> 's"

named_theorems wp_simps "weakest-precondition equations of the sequencing combinators"
named_theorems keeps_intro "introduction rules for preserved state predicates"

definition retG :: "'a \<Rightarrow> ('s, 'a) go" where
  "retG v = (\<lambda>s. (Ok v, s))"

definition failG :: "go_error \<Rightarrow> ('s, 'a) go" where
  "failG e = (\<lambda>s. (Err e, s))"

definition panicG :: "('s, 'a) go" where
  "panicG = (\<lambda>s. (Panic, s))"

definition getG :: "('s \<Rightarrow> 'a) \<Rightarrow> ('s, 'a) go" where
  "getG f = (\<lambda>s. (Ok (f s), s))"

definition modG :: "('s \<Rightarrow> 's) \<Rightarrow> ('s, unit) go" where
  "modG f = (\<lambda>s. (Ok (), f s))"

text \<open>\<open>v, err := m; if err != nil { h(err) } else { k(v) }\<close>\<close>

definition onErr :: "('s, 'a) go \<Rightarrow> (go_error \<Rightarrow> ('s, 'b) go) \<Rightarrow> ('a \<Rightarrow> ('s, 'b) go) \<Rightarrow> ('s, 'b) go" where
  "onErr m h k = (\<lambda>s. case m s of
     (Ok v, s') \<Rightarrow> k v s'
   | (Err e, s') \<Rightarrow> h e s'
   | (Panic, s') \<Rightarrow> (Panic, s'))"

text \<open>\<open>v, err := m; if err != nil { return err }; k(v)\<close>\<close>

definition thenG :: "('s, 'a) go \<Rightarrow> ('a \<Rightarrow> ('s, 'b) go) \<Rightarrow> ('s, 'b) go" where
  "thenG m k = onErr m failG k"

definition seqG :: "('s, 'a) go \<Rightarrow> ('s, 'b) go \<Rightarrow> ('s, 'b) go" where
  "seqG m k = thenG m (\<lambda>_. k)"

text \<open>A value a library or a check hands back: an error or a result.\<close>

definition liftG :: "go_error + 'a \<Rightarrow> ('s, 'a) go" where
  "liftG r = (case r of Inl e \<Rightarrow> failG e | Inr v \<Rightarrow> retG v)"

text \<open>A result that may be a panic.\<close>

definition liftO :: "'a outcome \<Rightarrow> ('s, 'a) go" where
  "liftO r = (\<lambda>s. (r, s))"

section \<open>Reasoning about sequencing\<close>

definition wpG :: "('s, 'a) go \<Rightarrow> ('a \<Rightarrow> 's \<Rightarrow> bool) \<Rightarrow> (go_error \<Rightarrow> 's \<Rightarrow> bool) \<Rightarrow> ('s \<Rightarrow> bool) \<Rightarrow> 's \<Rightarrow> bool" where
  "wpG m Q E X s = (case m s of (Ok v, s') \<Rightarrow> Q v s' | (Err e, s') \<Rightarrow> E e s' | (Panic, s') \<Rightarrow> X s')"

lemma wp_retG [wp_simps]: "wpG (retG v) Q E X s = Q v s"
  by (simp add: wpG_def retG_def)

lemma wp_failG [wp_simps]: "wpG (failG e) Q E X s = E e s"
  by (simp add: wpG_def failG_def)

lemma wp_failG_fun [wp_simps]: "wpG (failG e) Q E X = E e"
  by (rule ext) (rule wp_failG)

lemma wp_retG_fun [wp_simps]: "wpG (retG v) Q E X = Q v"
  by (rule ext) (rule wp_retG)

lemma wp_panicG [wp_simps]: "wpG panicG Q E X s = X s"
  by (simp add: wpG_def panicG_def)

lemma wp_getG [wp_simps]: "wpG (getG f) Q E X s = Q (f s) s"
  by (simp add: wpG_def getG_def)

lemma wp_modG [wp_simps]: "wpG (modG f) Q E X s = Q () (f s)"
  by (simp add: wpG_def modG_def)

lemma wp_onErr [wp_simps]:
  "wpG (onErr m h k) Q E X s = wpG m (\<lambda>v. wpG (k v) Q E X) (\<lambda>e. wpG (h e) Q E X) X s"
  by (simp add: wpG_def onErr_def split: prod.splits outcome.splits)

lemma wp_thenG [wp_simps]:
  "wpG (thenG m k) Q E X s = wpG m (\<lambda>v. wpG (k v) Q E X) E X s"
  by (simp add: thenG_def wp_onErr wp_failG_fun)

lemma wp_seqG [wp_simps]:
  "wpG (seqG m k) Q E X s = wpG m (\<lambda>_. wpG k Q E X) E X s"
  by (simp add: seqG_def wp_thenG)

lemma wp_seq_funs:
  "wpG (thenG m k) Q E X = wpG m (\<lambda>v. wpG (k v) Q E X) E X"
  "wpG (seqG m' k') Q E X = wpG m' (\<lambda>_. wpG k' Q E X) E X"
  by (rule ext, rule wp_thenG) (rule ext, rule wp_seqG)

lemma wp_liftG [wp_simps]:
  "wpG (liftG r) Q E X s = (case r of Inl e \<Rightarrow> E e s | Inr v \<Rightarrow> Q v s)"
  by (simp add: liftG_def wp_failG wp_retG split: sum.splits)

lemma wp_liftO [wp_simps]:
  "wpG (liftO r) Q E X s = (case r of Ok v \<Rightarrow> Q v s | Err e \<Rightarrow> E e s | Panic \<Rightarrow> X s)"
  by (simp add: liftO_def wpG_def split: outcome.splits)

lemma wp_if [wp_simps]:
  "wpG (if b then m else n) Q E X s = (if b then wpG m Q E X s else wpG n Q E X s)"
  by simp

lemma wpG_weaken:
  assumes "wpG m Q E X s"
    and "\<And>v t. Q v t \<Longrightarrow> Q' v t" and "\<And>e t. E e t \<Longrightarrow> E' e t" and "\<And>t. X t \<Longrightarrow> X' t"
  shows "wpG m Q' E' X' s"
  using assms by (auto simp: wpG_def split: prod.splits outcome.splits)

lemma wpG_result:
  "wpG m Q E X s \<longleftrightarrow> (case fst (m s) of Ok v \<Rightarrow> Q v (snd (m s)) | Err e \<Rightarrow> E e (snd (m s)) | Panic \<Rightarrow> X (snd (m s)))"
  by (simp add: wpG_def split: prod.splits outcome.splits)

text \<open>\<open>keeps I m\<close>: whatever \<open>m\<close> returns, it leads from states with \<open>I\<close> to states with \<open>I\<close>.\<close>

definition keeps :: "('s \<Rightarrow> bool) \<Rightarrow> ('s, 'a) go \<Rightarrow> bool" where
  "keeps I m \<longleftrightarrow> (\<forall>s. I s \<longrightarrow> I (snd (m s)))"

lemma keepsD: "keeps I m \<Longrightarrow> I s \<Longrightarrow> I (snd (m s))"
  by (simp add: keeps_def)

lemma keeps_retG [keeps_intro]: "keeps I (retG v)"
  and keeps_failG [keeps_intro]: "keeps I (failG e)"
  and keeps_panicG [keeps_intro]: "keeps I panicG"
  and keeps_getG [keeps_intro]: "keeps I (getG f)"
  by (simp_all add: keeps_def retG_def failG_def panicG_def getG_def)

lemma keeps_modG [keeps_intro]: "(\<And>s. I s \<Longrightarrow> I (f s)) \<Longrightarrow> keeps I (modG f)"
  by (simp add: keeps_def modG_def)

lemma keeps_onErr [keeps_intro]:
  "keeps I m \<Longrightarrow> (\<And>e. keeps I (h e)) \<Longrightarrow> (\<And>v. keeps I (k v)) \<Longrightarrow> keeps I (onErr m h k)"
  by (fastforce simp: keeps_def onErr_def split: prod.splits outcome.splits)

lemma keeps_thenG [keeps_intro]:
  "keeps I m \<Longrightarrow> (\<And>v. keeps I (k v)) \<Longrightarrow> keeps I (thenG m k)"
  by (simp add: thenG_def keeps_onErr keeps_failG)

lemma keeps_seqG [keeps_intro]: "keeps I m \<Longrightarrow> keeps I k \<Longrightarrow> keeps I (seqG m k)"
  by (simp add: seqG_def keeps_thenG)

lemma keeps_liftG [keeps_intro]: "keeps I (liftG r)"
  by (simp add: liftG_def keeps_failG keeps_retG split: sum.splits)

lemma keeps_liftO [keeps_intro]: "keeps I (liftO r)"
  by (simp add: keeps_def liftO_def)

lemma keeps_if [keeps_intro]: "(b \<Longrightarrow> keeps I m) \<Longrightarrow> (\<not> b \<Longrightarrow> keeps I n) \<Longrightarrow> keeps I (if b then m else n)"
  by simp

lemma keeps_option [keeps_intro]:
  "(x = None \<Longrightarrow> keeps I m) \<Longrightarrow> (\<And>v. x = Some v \<Longrightarrow> keeps I (k v)) \<Longrightarrow> keeps I (case x of None \<Rightarrow> m | Some v \<Rightarrow> k v)"
  by (simp split: option.split)

section \<open>Lists\<close>

text \<open>Go's search loops \<open>for _, x := range xs { if p(x) { return &x } }\<close> are \<open>List.find\<close>.\<close>

lemma find_Some_distinct:
  assumes "distinct (map f xs)"
  shows "List.find (\<lambda>x. f x = k) xs = Some y \<longleftrightarrow> y \<in> set xs \<and> f y = k"
  using assms by (induction xs) (auto simp: image_iff)

lemma find_None_key: "List.find (\<lambda>x. f x = k) xs = None \<longleftrightarrow> k \<notin> f ` set xs"
  by (auto simp: find_None_iff image_iff)

lemma sorted_map_sort_key: "sorted (map f (sort_key f xs))"
  by simp

lemma distinct_map_sort_key [simp]: "distinct (map f (sort_key f xs)) = distinct (map f xs)"
proof -
  have "mset (map f (sort_key f xs)) = mset (map f xs)"
    by (metis mset_map mset_sort)
  then show ?thesis by (metis mset_eq_imp_distinct_iff)
qed

end
