(* ===== verification/GoStrings.thy ===== *)
theory GoStrings
  imports Prelude
begin

text \<open>
  The functions of Go's \<open>strings\<close> and \<open>strconv\<close> packages that the sources call, on
  byte strings (\<open>string\<close>, a list of 8-bit characters): prefix and suffix tests,
  \<open>TrimSuffix\<close>, \<open>Split\<close> at a one-byte separator, \<open>Replace\<close> of all occurrences,
  \<open>Index\<close>/\<open>LastIndex\<close> of a byte, \<open>ToLower\<close> on ASCII, \<open>Itoa\<close> and \<open>Atoi\<close> with
  the bounds of a 64-bit \<open>int\<close>.
\<close>

section \<open>Prefixes and suffixes\<close>

definition HasPrefix :: "string \<Rightarrow> string \<Rightarrow> bool" where
  "HasPrefix s p \<longleftrightarrow> length p \<le> length s \<and> take (length p) s = p"

definition HasSuffix :: "string \<Rightarrow> string \<Rightarrow> bool" where
  "HasSuffix s p \<longleftrightarrow> length p \<le> length s \<and> drop (length s - length p) s = p"

definition TrimSuffix :: "string \<Rightarrow> string \<Rightarrow> string" where
  "TrimSuffix s p = (if HasSuffix s p then take (length s - length p) s else s)"

lemma HasPrefix_append [simp]: "HasPrefix (p @ t) p"
  by (simp add: HasPrefix_def)

lemma HasPrefix_iff: "HasPrefix s p \<longleftrightarrow> (\<exists>t. s = p @ t)"
  by (metis HasPrefix_append HasPrefix_def append_take_drop_id)

lemma HasSuffix_append [simp]: "HasSuffix (t @ p) p"
  by (simp add: HasSuffix_def)

lemma HasSuffix_iff: "HasSuffix s p \<longleftrightarrow> (\<exists>t. s = t @ p)"
  by (metis HasSuffix_append HasSuffix_def append_take_drop_id)

lemma TrimSuffix_append [simp]: "TrimSuffix (t @ p) p = t"
  by (simp add: TrimSuffix_def)

lemma TrimSuffix_other: "\<not> HasSuffix s p \<Longrightarrow> TrimSuffix s p = s"
  by (simp add: TrimSuffix_def)

section \<open>Searching for a byte\<close>

fun IndexByte :: "string \<Rightarrow> char \<Rightarrow> nat option" where
  "IndexByte [] c = None"
| "IndexByte (x # xs) c = (if x = c then Some 0 else map_option Suc (IndexByte xs c))"

definition LastIndexByte :: "string \<Rightarrow> char \<Rightarrow> nat option" where
  "LastIndexByte s c = map_option (\<lambda>i. length s - Suc i) (IndexByte (rev s) c)"

lemma IndexByte_None: "IndexByte s c = None \<longleftrightarrow> c \<notin> set s"
  by (induction s) auto

lemma IndexByte_Some: "c \<notin> set p \<Longrightarrow> IndexByte (p @ c # q) c = Some (length p)"
  by (induction p) auto

lemma IndexByte_length: "IndexByte s c = Some i \<Longrightarrow> i < length s \<and> s ! i = c \<and> c \<notin> set (take i s)"
  by (induction s arbitrary: i) (auto split: if_splits)

lemma LastIndexByte_None: "LastIndexByte s c = None \<longleftrightarrow> c \<notin> set s"
  by (simp add: LastIndexByte_def IndexByte_None)

section \<open>Splitting and replacing\<close>

text \<open>\<open>strings.Split(s, sep)\<close> for a one-byte separator.\<close>

fun SplitByte :: "string \<Rightarrow> char \<Rightarrow> string list" where
  "SplitByte [] c = [[]]"
| "SplitByte (x # xs) c =
     (if x = c then [] # SplitByte xs c
      else (case SplitByte xs c of [] \<Rightarrow> [[x]] | p # ps \<Rightarrow> (x # p) # ps))"

lemma SplitByte_not_Nil [simp]: "SplitByte s c \<noteq> []"
  by (cases s) (auto split: list.splits)

lemma SplitByte_none: "c \<notin> set s \<Longrightarrow> SplitByte s c = [s]"
  by (induction s) auto

lemma SplitByte_append: "c \<notin> set p \<Longrightarrow> SplitByte (p @ c # q) c = p # SplitByte q c"
  by (induction p) auto

lemma length_SplitByte: "length (SplitByte s c) = Suc (count_list s c)"
  by (induction s) (auto split: list.splits)

text \<open>\<open>strings.Replace(s, old, new, -1)\<close>: left to right, without overlaps.\<close>

function ReplaceAll :: "string \<Rightarrow> string \<Rightarrow> string \<Rightarrow> string" where
  "ReplaceAll s old new =
     (if old = [] then concat (map (\<lambda>c. new @ [c]) s) @ new
      else if HasPrefix s old then new @ ReplaceAll (drop (length old) s) old new
      else (case s of [] \<Rightarrow> [] | c # cs \<Rightarrow> c # ReplaceAll cs old new))"
  by pat_completeness auto
termination
  by (relation "measure (\<lambda>(s, old, new). length s)") (auto simp: HasPrefix_def neq_Nil_conv)

declare ReplaceAll.simps [simp del]

lemma ReplaceAll_Nil: "old \<noteq> [] \<Longrightarrow> ReplaceAll [] old new = []"
  by (subst ReplaceAll.simps) (simp add: HasPrefix_def)

lemma ReplaceAll_hit: "old \<noteq> [] \<Longrightarrow> ReplaceAll (old @ s) old new = new @ ReplaceAll s old new"
  by (subst ReplaceAll.simps) simp

lemma ReplaceAll_miss:
  "\<not> HasPrefix (c # s) old \<Longrightarrow> ReplaceAll (c # s) old new = c # ReplaceAll s old new"
  by (subst ReplaceAll.simps) (auto simp: HasPrefix_def)

text \<open>Where the first byte of the pattern does not occur, nothing is replaced.\<close>

lemma HasPrefix_Cons_Cons: "HasPrefix (c # s) (a # p) \<longleftrightarrow> c = a \<and> HasPrefix s p"
  by (auto simp: HasPrefix_def)

lemma ReplaceAll_absent_append:
  "a \<notin> set p \<Longrightarrow> ReplaceAll (p @ s) (a # old) new = p @ ReplaceAll s (a # old) new"
  by (induction p) (auto simp: ReplaceAll_miss HasPrefix_Cons_Cons)

lemma ReplaceAll_absent: "a \<notin> set p \<Longrightarrow> ReplaceAll p (a # old) new = p"
  using ReplaceAll_absent_append [of a p "[]" old new] by (simp add: ReplaceAll_Nil)

text \<open>Where the pattern does not occur before a byte it does not contain, nothing is replaced up to there.\<close>

definition occurs :: "string \<Rightarrow> string \<Rightarrow> bool" where
  "occurs old s \<longleftrightarrow> (\<exists>p q. s = p @ old @ q)"

lemma occurs_Cons: "occurs old s \<Longrightarrow> occurs old (x # s)"
  unfolding occurs_def by (metis append_Cons)

lemma ReplaceAll_until:
  assumes "old \<noteq> []" and "c \<notin> set old" and "\<not> occurs old h"
  shows "ReplaceAll (h @ c # s) old new = h @ c # ReplaceAll s old new"
  using assms(3)
proof (induction h)
  case Nil
  have "\<not> HasPrefix (c # s) old" using assms(1,2) by (cases old) (auto simp: HasPrefix_def)
  then show ?case by (simp add: ReplaceAll_miss)
next
  case (Cons x h)
  have "\<not> HasPrefix (x # h @ c # s) old"
  proof
    assume "HasPrefix (x # h @ c # s) old"
    then obtain q where q: "(x # h) @ c # s = old @ q" by (auto simp: HasPrefix_iff)
    show False
    proof (cases "length old \<le> length (x # h)")
      case True
      have "take (length old) ((x # h) @ c # s) = take (length old) (x # h)"
        using True by (simp only: take_append) simp
      with q have "take (length old) (x # h) = old" by (metis append_eq_conv_conj)
      then have "x # h = old @ drop (length old) (x # h)" by (metis append_take_drop_id)
      then show False using Cons.prems unfolding occurs_def by (metis append_Nil)
    next
      case False
      then have lt: "length (x # h) < length old" by simp
      have "c = ((x # h) @ c # s) ! length (x # h)" by (simp only: nth_append_length)
      also have "\<dots> = old ! length (x # h)" unfolding q using lt by (simp only: nth_append if_True)
      finally have "c \<in> set old" using nth_mem [OF lt] by simp
      with assms(2) show False by simp
    qed
  qed
  moreover have "\<not> occurs old h" using Cons.prems occurs_Cons by blast
  ultimately show ?case using Cons.IH by (simp add: ReplaceAll_miss)
qed

lemma not_occurs: "c \<in> set old \<Longrightarrow> c \<notin> set s \<Longrightarrow> \<not> occurs old s"
  by (auto simp: occurs_def)

lemma ReplaceAll_none: "old \<noteq> [] \<Longrightarrow> \<not> occurs old s \<Longrightarrow> ReplaceAll s old new = s"
proof (induction s)
  case (Cons x s)
  have "\<not> HasPrefix (x # s) old"
    using Cons.prems(2) unfolding HasPrefix_iff occurs_def by (metis append_Nil)
  moreover have "\<not> occurs old s" using Cons.prems(2) occurs_Cons by blast
  ultimately show ?case using Cons by (simp add: ReplaceAll_miss)
qed (simp add: ReplaceAll_Nil)

text \<open>Replacing one byte by one byte is a map.\<close>

lemma ReplaceAll_byte: "ReplaceAll s [a] [b] = map (\<lambda>c. if c = a then b else c) s"
proof (induction s)
  case Nil
  show ?case by (simp add: ReplaceAll_Nil)
next
  case (Cons c s)
  show ?case
  proof (cases "c = a")
    case True
    then show ?thesis using ReplaceAll_hit [of "[a]" s "[b]"] Cons by simp
  next
    case False
    then show ?thesis using Cons by (simp add: ReplaceAll_miss HasPrefix_Cons_Cons)
  qed
qed

section \<open>Case\<close>

definition lower_char :: "char \<Rightarrow> char" where
  "lower_char c = (if CHR ''A'' \<le> c \<and> c \<le> CHR ''Z'' then char_of (of_char c + 32 :: nat) else c)"

text \<open>\<open>strings.ToLower\<close> on ASCII; other bytes are kept.\<close>

definition ToLower :: "string \<Rightarrow> string" where
  "ToLower s = map lower_char s"

section \<open>Decimal numbers\<close>

definition digit_char :: "nat \<Rightarrow> char" where
  "digit_char d = char_of (48 + d)"

definition is_digit :: "char \<Rightarrow> bool" where
  "is_digit c \<longleftrightarrow> CHR ''0'' \<le> c \<and> c \<le> CHR ''9''"

definition digit_val :: "char \<Rightarrow> nat" where
  "digit_val c = of_char c - 48"

fun utoa :: "nat \<Rightarrow> string" where
  "utoa n = (if n < 10 then [digit_char n] else utoa (n div 10) @ [digit_char (n mod 10)])"

declare utoa.simps [simp del]

text \<open>\<open>strconv.Itoa\<close>\<close>

definition Itoa :: "int \<Rightarrow> string" where
  "Itoa i = (if i < 0 then CHR ''-'' # utoa (nat (- i)) else utoa (nat i))"

definition digits_val :: "string \<Rightarrow> nat" where
  "digits_val s = foldl (\<lambda>n c. 10 * n + digit_val c) 0 s"

definition int64_min :: int where "int64_min = - (2 ^ 63)"
definition int64_max :: int where "int64_max = 2 ^ 63 - 1"

text \<open>
  \<open>strconv.Atoi\<close> on a 64-bit platform: an optional sign, at least one digit and
  nothing else, and a value an \<open>int\<close> can hold; otherwise an error.
\<close>

definition Atoi :: "string \<Rightarrow> go_error + int" where
  "Atoi s =
     (let neg = (case s of [] \<Rightarrow> False | c # _ \<Rightarrow> c = CHR ''-'');
          ds = (case s of [] \<Rightarrow> [] | c # cs \<Rightarrow> if c = CHR ''-'' \<or> c = CHR ''+'' then cs else s)
      in if ds = [] \<or> \<not> list_all is_digit ds then Inl (NumError s)
         else let v = (if neg then - int (digits_val ds) else int (digits_val ds))
              in if int64_min \<le> v \<and> v \<le> int64_max then Inr v else Inl (NumError s))"

lemma of_char_digit_char: "d < 10 \<Longrightarrow> (of_char (digit_char d) :: nat) = 48 + d"
  by (simp add: digit_char_def)

lemma is_digit_code: "is_digit c \<longleftrightarrow> 48 \<le> (of_char c :: nat) \<and> (of_char c :: nat) \<le> 57"
  by (simp add: is_digit_def less_eq_char_def)

lemma is_digit_digit_char: "d < 10 \<Longrightarrow> is_digit (digit_char d)"
  by (simp add: is_digit_code of_char_digit_char)

lemma digit_val_digit_char: "d < 10 \<Longrightarrow> digit_val (digit_char d) = d"
  by (simp add: digit_val_def of_char_digit_char)

lemma utoa_not_Nil [simp]: "utoa n \<noteq> []"
  by (subst utoa.simps) simp

lemma utoa_digits: "list_all is_digit (utoa n)"
proof (induction n rule: utoa.induct)
  case (1 n)
  then show ?case
    by (subst utoa.simps) (simp add: is_digit_digit_char)
qed

lemma digits_val_snoc: "digits_val (s @ [c]) = 10 * digits_val s + digit_val c"
  by (simp add: digits_val_def)

lemma digits_val_utoa: "digits_val (utoa n) = n"
proof (induction n rule: utoa.induct)
  case (1 n)
  show ?case
  proof (cases "n < 10")
    case True
    then show ?thesis
      by (subst utoa.simps) (simp add: digits_val_def digit_val_digit_char)
  next
    case False
    with 1 show ?thesis
      by (subst utoa.simps) (simp add: digits_val_snoc digit_val_digit_char)
  qed
qed

lemma hd_utoa_digit: "is_digit (hd (utoa n))"
  using utoa_digits [of n] by (cases "utoa n") auto

lemma utoa_head_not_sign: "utoa n = c # cs \<Longrightarrow> c \<noteq> CHR ''-'' \<and> c \<noteq> CHR ''+''"
  using hd_utoa_digit [of n] by (auto simp: is_digit_code)

lemma Itoa_not_Nil [simp]: "Itoa i \<noteq> []"
  by (simp add: Itoa_def)

lemma Atoi_Itoa:
  assumes "int64_min \<le> i" and "i \<le> int64_max"
  shows "Atoi (Itoa i) = Inr i"
proof (cases "i < 0")
  case True
  with assms show ?thesis
    by (simp add: Itoa_def Atoi_def Let_def utoa_digits digits_val_utoa)
next
  case False
  obtain c cs where u: "utoa (nat i) = c # cs" by (cases "utoa (nat i)") auto
  from False assms u utoa_head_not_sign [OF u] utoa_digits [of "nat i"] digits_val_utoa [of "nat i"]
  show ?thesis by (simp add: Itoa_def Atoi_def Let_def)
qed

lemma Atoi_Inr_bounds: "Atoi s = Inr i \<Longrightarrow> int64_min \<le> i \<and> i \<le> int64_max"
  by (auto simp: Atoi_def Let_def split: if_splits)

end
