(* ===== verification/KubeObjects.thy ===== *)
theory KubeObjects
  imports GoStrings "HOL-Library.Word"
begin

text \<open>
  The parts of the Kubernetes object model the sources build and inspect: object
  metadata with owner references, group/version/kind names, deployments, services,
  secrets and unstructured objects; and the helper functions of apimachinery, client-go
  and controller-runtime the reconciler calls on them (key splitting, controller
  references, kind-to-resource guessing).
\<close>

type_synonym int32 = "32 word"
type_synonym labels = "string \<rightharpoonup> string"

section \<open>Metadata\<close>

record OwnerReference =
  or_APIVersion :: string
  or_Kind :: string
  or_Name :: string
  or_UID :: string
  or_Controller :: "bool option"
  or_BlockOwnerDeletion :: "bool option"

record ObjectMeta =
  om_Name :: string
  om_GenerateName :: string
  om_Namespace :: string
  om_UID :: string
  om_ResourceVersion :: string
  om_DeletionTimestamp :: "nat option"
  om_Labels :: labels
  om_Annotations :: labels
  om_OwnerReferences :: "OwnerReference list"
  om_Finalizers :: "string list"

definition empty_meta :: ObjectMeta where
  "empty_meta = \<lparr>om_Name = [], om_GenerateName = [], om_Namespace = [], om_UID = [], om_ResourceVersion = [],
     om_DeletionTimestamp = None, om_Labels = Map.empty, om_Annotations = Map.empty,
     om_OwnerReferences = [], om_Finalizers = []\<rparr>"

text \<open>\<open>cache.SplitMetaNamespaceKey\<close>\<close>

definition SplitMetaNamespaceKey :: "string \<Rightarrow> go_error + string \<times> string" where
  "SplitMetaNamespaceKey key =
     (case SplitByte key CHR ''/'' of
        [name] \<Rightarrow> Inr ([], name)
      | [ns, name] \<Rightarrow> Inr (ns, name)
      | _ \<Rightarrow> Inl (PlainError (''unexpected key format: '' @ quote key)))"

lemma SplitMetaNamespaceKey_join:
  assumes "CHR ''/'' \<notin> set ns" and "CHR ''/'' \<notin> set name"
  shows "SplitMetaNamespaceKey (ns @ ''/'' @ name) = Inr (ns, name)"
  using assms by (simp add: SplitMetaNamespaceKey_def SplitByte_append SplitByte_none)

lemma SplitMetaNamespaceKey_Inl:
  "(\<exists>e. SplitMetaNamespaceKey key = Inl e) \<longleftrightarrow> 2 \<le> count_list key CHR ''/''"
  using length_SplitByte [of key "CHR ''/''"]
  by (auto simp: SplitMetaNamespaceKey_def split: list.splits)

section \<open>Group, version, kind\<close>

record GroupVersion =
  gv_Group :: string
  gv_Version :: string

record GroupVersionKind =
  gvk_Group :: string
  gvk_Version :: string
  gvk_Kind :: string

record GroupVersionResource =
  gvr_Group :: string
  gvr_Version :: string
  gvr_Resource :: string

definition GroupVersion_String :: "GroupVersion \<Rightarrow> string" where
  "GroupVersion_String gv =
     (if gv_Group gv = [] \<and> gv_Version gv = [] then []
      else if gv_Group gv = [] \<and> gv_Version gv = ''v1'' then gv_Version gv
      else if 0 < length (gv_Group gv) then gv_Group gv @ ''/'' @ gv_Version gv
      else gv_Version gv)"

definition GroupVersionKind_String :: "GroupVersionKind \<Rightarrow> string" where
  "GroupVersionKind_String k = gvk_Group k @ ''/'' @ gvk_Version k @ '', Kind='' @ gvk_Kind k"

definition GroupVersionResource_String :: "GroupVersionResource \<Rightarrow> string" where
  "GroupVersionResource_String gvr = gvr_Group gvr @ ''/'' @ gvr_Version gvr @ '', Resource='' @ gvr_Resource gvr"

definition ParseGroupVersion :: "string \<Rightarrow> go_error + GroupVersion" where
  "ParseGroupVersion s =
     (if s = [] \<or> s = ''/'' then Inr \<lparr>gv_Group = [], gv_Version = []\<rparr>
      else case IndexByte s CHR ''/'' of
        None \<Rightarrow> Inr \<lparr>gv_Group = [], gv_Version = s\<rparr>
      | Some i \<Rightarrow>
          if count_list s CHR ''/'' = 1 then Inr \<lparr>gv_Group = take i s, gv_Version = drop (Suc i) s\<rparr>
          else Inl (PlainError (''unexpected GroupVersion string: '' @ s)))"

definition FromAPIVersionAndKind :: "string \<Rightarrow> string \<Rightarrow> GroupVersionKind" where
  "FromAPIVersionAndKind apiVersion kind =
     (case ParseGroupVersion apiVersion of
        Inr gv \<Rightarrow> \<lparr>gvk_Group = gv_Group gv, gvk_Version = gv_Version gv, gvk_Kind = kind\<rparr>
      | Inl _ \<Rightarrow> \<lparr>gvk_Group = [], gvk_Version = [], gvk_Kind = kind\<rparr>)"

definition WithResource :: "GroupVersionKind \<Rightarrow> string \<Rightarrow> GroupVersionResource" where
  "WithResource k res = \<lparr>gvr_Group = gvk_Group k, gvr_Version = gvk_Version k, gvr_Resource = res\<rparr>"

text \<open>\<open>meta.UnsafeGuessKindToResource\<close>: the plural and the singular resource.\<close>

definition UnsafeGuessKindToResource ::
    "GroupVersionKind \<Rightarrow> GroupVersionResource \<times> GroupVersionResource" where
  "UnsafeGuessKindToResource k =
     (if length (gvk_Kind k) = 0
      then (\<lparr>gvr_Group = [], gvr_Version = [], gvr_Resource = []\<rparr>, \<lparr>gvr_Group = [], gvr_Version = [], gvr_Resource = []\<rparr>)
      else let singularName = ToLower (gvk_Kind k);
               singular = WithResource k singularName
           in if HasSuffix singularName ''endpoints'' then (singular, singular)
              else if last singularName = CHR ''s'' then (WithResource k (singularName @ ''es''), singular)
              else if last singularName = CHR ''y'' then (WithResource k (TrimSuffix singularName ''y'' @ ''ies''), singular)
              else (WithResource k (singularName @ ''s''), singular))"

section \<open>Controller references\<close>

definition GetControllerOf :: "ObjectMeta \<Rightarrow> OwnerReference option" where
  "GetControllerOf m = find (\<lambda>ref. or_Controller ref = Some True) (om_OwnerReferences m)"

definition IsControlledBy :: "ObjectMeta \<Rightarrow> ObjectMeta \<Rightarrow> bool" where
  "IsControlledBy obj owner =
     (case GetControllerOf obj of None \<Rightarrow> False | Some ref \<Rightarrow> or_UID ref = om_UID owner)"

definition NewControllerRef :: "ObjectMeta \<Rightarrow> GroupVersionKind \<Rightarrow> OwnerReference" where
  "NewControllerRef owner k =
     \<lparr>or_APIVersion = GroupVersion_String \<lparr>gv_Group = gvk_Group k, gv_Version = gvk_Version k\<rparr>,
      or_Kind = gvk_Kind k, or_Name = om_Name owner, or_UID = om_UID owner,
      or_Controller = Some True, or_BlockOwnerDeletion = Some True\<rparr>"

definition referSameObject :: "OwnerReference \<Rightarrow> OwnerReference \<Rightarrow> bool" where
  "referSameObject a b =
     (case ParseGroupVersion (or_APIVersion a) of
        Inl _ \<Rightarrow> False
      | Inr aGV \<Rightarrow>
          (case ParseGroupVersion (or_APIVersion b) of
             Inl _ \<Rightarrow> False
           | Inr bGV \<Rightarrow> aGV = bGV \<and> or_Kind a = or_Kind b \<and> or_Name a = or_Name b))"

text \<open>
  A scheme gives for a Go type the kinds it is registered with
  (\<open>runtime.Scheme.ObjectKinds\<close>).
\<close>

type_synonym Scheme = "string \<rightharpoonup> GroupVersionKind list"

definition GVKForObject :: "string \<Rightarrow> Scheme \<Rightarrow> go_error + GroupVersionKind" where
  "GVKForObject typ scheme =
     (case scheme typ of
        None \<Rightarrow> Inl (PlainError (''no kind is registered for the type '' @ typ))
      | Some [] \<Rightarrow> Inl (PlainError (''no group-version-kinds associated with type '' @ typ))
      | Some [k] \<Rightarrow> Inr k
      | Some _ \<Rightarrow> Inl (PlainError (''multiple group-version-kinds associated with type '' @ typ @ '', refusing to guess at one'')))"

text \<open>
  The loop of \<open>controllerutil.SetControllerReference\<close> over the existing references at
  index \<open>i\<close>: \<open>fi\<close> is the last index of a reference to the same owner, an error a
  reference to another controller.
\<close>

fun scr_loop :: "ObjectMeta \<Rightarrow> OwnerReference \<Rightarrow> OwnerReference list \<Rightarrow> nat \<Rightarrow> nat option \<Rightarrow> go_error + nat option" where
  "scr_loop obj ref [] i fi = Inr fi"
| "scr_loop obj ref (r # rs) i fi =
     (if referSameObject ref r then scr_loop obj ref rs (Suc i) (Some i)
      else if or_Controller r = Some True
      then Inl (PlainError (''Object '' @ om_Namespace obj @ ''/'' @ om_Name obj @ '' is already owned by another ''
                            @ or_Kind r @ '' controller '' @ or_Name r))
      else scr_loop obj ref rs (Suc i) fi)"

definition SetControllerReference ::
    "string \<Rightarrow> ObjectMeta \<Rightarrow> Scheme \<Rightarrow> ObjectMeta \<Rightarrow> go_error + ObjectMeta" where
  "SetControllerReference ownerType owner scheme obj =
     (case GVKForObject ownerType scheme of
        Inl e \<Rightarrow> Inl e
      | Inr k \<Rightarrow>
          (let ref = NewControllerRef owner k; refs = om_OwnerReferences obj
           in case scr_loop obj ref refs 0 None of
                Inl e \<Rightarrow> Inl e
              | Inr None \<Rightarrow> Inr (obj\<lparr>om_OwnerReferences := refs @ [ref]\<rparr>)
              | Inr (Some fi) \<Rightarrow> Inr (obj\<lparr>om_OwnerReferences := refs[fi := ref]\<rparr>)))"

text \<open>An object without owner gets the source as its controller.\<close>

lemma SetControllerReference_fresh:
  assumes "scheme typ = Some [k]" and "om_OwnerReferences obj = []"
  shows "SetControllerReference typ owner scheme obj = Inr (obj\<lparr>om_OwnerReferences := [NewControllerRef owner k]\<rparr>)"
  using assms by (simp add: SetControllerReference_def GVKForObject_def Let_def)

lemma IsControlledBy_NewControllerRef:
  "om_OwnerReferences obj = [NewControllerRef owner k] \<Longrightarrow> IsControlledBy obj owner' \<longleftrightarrow> om_UID owner = om_UID owner'"
  by (simp add: IsControlledBy_def GetControllerOf_def NewControllerRef_def)

section \<open>Secrets, references, deployments, services\<close>

record SecretKeySelector =
  sks_Name :: string
  sks_Key :: string
  sks_Optional :: "bool option"

record Secret =
  secret_meta :: ObjectMeta
  secret_Data :: "string \<rightharpoonup> string"

record ObjectReference =
  ref_Kind :: string
  ref_Namespace :: string
  ref_Name :: string
  ref_UID :: string
  ref_APIVersion :: string
  ref_ResourceVersion :: string
  ref_FieldPath :: string

definition ObjectReference_GVK :: "ObjectReference \<Rightarrow> GroupVersionKind" where
  "ObjectReference_GVK r = FromAPIVersionAndKind (ref_APIVersion r) (ref_Kind r)"

record EnvVar =
  env_Name :: string
  env_Value :: string
  env_ValueFrom :: "SecretKeySelector option option"

record Container =
  c_Name :: string
  c_Image :: string
  c_Env :: "EnvVar list"
  c_Args :: "string list"

record PodTemplateSpec =
  pt_meta :: ObjectMeta
  pt_ServiceAccountName :: string
  pt_Containers :: "Container list"

record Deployment =
  dep_meta :: ObjectMeta
  dep_MatchLabels :: labels
  dep_Replicas :: "int32 option"
  dep_Template :: PodTemplateSpec

record ServicePort =
  sp_Protocol :: string
  sp_Port :: int32
  sp_TargetPort :: int32
  sp_NodePort :: int32

record LoadBalancerIngress =
  lb_IP :: string
  lb_Hostname :: string

record Service =
  svc_meta :: ObjectMeta
  svc_Ports :: "ServicePort list"
  svc_Selector :: labels
  svc_Type :: string
  svc_Ingress :: "LoadBalancerIngress list"

text \<open>The zero value \<open>corev1.Service{}\<close>\<close>

definition empty_service :: Service where
  "empty_service = \<lparr>svc_meta = empty_meta, svc_Ports = [], svc_Selector = Map.empty, svc_Type = [], svc_Ingress = []\<rparr>"

text \<open>
  What the reconciler reads of an unstructured sink object: its names, its kind, and the
  outcome of decoding its JSON as an addressable (\<open>duck.FromUnstructured\<close>): an error of
  the decoder, no address, an address whose URL may be missing, or a panic (the URL
  decoder of knative dereferences nil on an empty URL string).
\<close>

record Unstructured =
  u_Namespace :: string
  u_Name :: string
  u_GVK :: GroupVersionKind
  u_Addressable :: "string option option outcome"

text \<open>Every 64-bit value is within the bounds of \<open>int64\<close>.\<close>

lemma int_bounds: "int64_min \<le> sint (i :: 64 word) \<and> sint i \<le> int64_max"
  using sint_range_size [of i] by (auto simp: int64_min_def int64_max_def word_size)

end
