(* ===== verification/Conditions.thy ===== *)
theory Conditions
  imports Prelude
begin

text \<open>
  The condition manager the status of a source is kept with
  (\<open>knative.dev/pkg/apis/duck/v1alpha1/condition_set.go\<close>): conditions as a list sorted
  by type, the operations \<open>SetCondition\<close>, \<open>MarkTrue\<close>, \<open>MarkUnknown\<close>, \<open>MarkFalse\<close>
  and \<open>InitializeConditions\<close>, and \<open>IsHappy\<close>.

  The manager reaches the conditions of a status through an accessor
  (\<open>ConditionsAccessor\<close>), here a pair of functions \<open>getC\<close>, \<open>setC\<close> on the status type;
  the locale \<open>conditions_accessor\<close> states what it relies on.  \<open>time.Now()\<close> reads the
  next element of a stream of clock readings that is threaded through.  A message is
  passed as formatted.
\<close>

section \<open>Data\<close>

type_synonym ConditionType = string
type_synonym clock = "nat stream"

record Condition =
  ctype :: ConditionType
  cstatus :: string
  severity :: string
  lastTransitionTime :: nat
  reason :: string
  message :: string

definition ConditionTrue :: string where "ConditionTrue = ''True''"
definition ConditionFalse :: string where "ConditionFalse = ''False''"
definition ConditionUnknown :: string where "ConditionUnknown = ''Unknown''"

definition ConditionReady :: ConditionType where "ConditionReady = ''Ready''"

definition ConditionSeverityError :: string where "ConditionSeverityError = []"
definition ConditionSeverityInfo :: string where "ConditionSeverityInfo = ''Info''"

text \<open>The methods of \<open>*Condition\<close>, whose receiver may be nil.\<close>

definition IsTrue :: "Condition option \<Rightarrow> bool" where
  "IsTrue c = (case c of None \<Rightarrow> False | Some c \<Rightarrow> cstatus c = ConditionTrue)"

definition IsFalse :: "Condition option \<Rightarrow> bool" where
  "IsFalse c = (case c of None \<Rightarrow> False | Some c \<Rightarrow> cstatus c = ConditionFalse)"

definition IsUnknown :: "Condition option \<Rightarrow> bool" where
  "IsUnknown c = (case c of None \<Rightarrow> True | Some c \<Rightarrow> cstatus c = ConditionUnknown)"

record ConditionSet =
  happy :: ConditionType
  dependents :: "ConditionType list"

fun ncs_loop :: "ConditionType \<Rightarrow> ConditionType list \<Rightarrow> ConditionType list \<Rightarrow> ConditionType list" where
  "ncs_loop h [] deps = deps"
| "ncs_loop h (d # ds) deps = (if d = h \<or> d \<in> set deps then ncs_loop h ds deps else ncs_loop h ds (deps @ [d]))"

definition newConditionSet :: "ConditionType \<Rightarrow> ConditionType list \<Rightarrow> ConditionSet" where
  "newConditionSet h ds = \<lparr>happy = h, dependents = ncs_loop h ds []\<rparr>"

definition NewLivingConditionSet :: "ConditionType list \<Rightarrow> ConditionSet" where
  "NewLivingConditionSet ds = newConditionSet ConditionReady ds"

section \<open>The manager\<close>

definition GetCondition :: "('s \<Rightarrow> Condition list) \<Rightarrow> ConditionType \<Rightarrow> 's \<Rightarrow> Condition option" where
  "GetCondition getC t s = find (\<lambda>c. ctype c = t) (getC s)"

definition IsHappy :: "('s \<Rightarrow> Condition list) \<Rightarrow> ConditionSet \<Rightarrow> 's \<Rightarrow> bool" where
  "IsHappy getC r s \<longleftrightarrow> IsTrue (GetCondition getC (happy r) s)"

text \<open>
  The loop of \<open>SetCondition\<close>: collects the conditions of other types, gives the new
  condition the old transition time, and stops (\<open>None\<close>) when nothing else changes.
\<close>

fun setc_loop :: "Condition list \<Rightarrow> Condition \<Rightarrow> Condition list \<Rightarrow> (Condition list \<times> Condition) option" where
  "setc_loop [] new acc = Some (acc, new)"
| "setc_loop (c # cs) new acc =
     (if ctype c \<noteq> ctype new then setc_loop cs new (acc @ [c])
      else let new' = new\<lparr>lastTransitionTime := lastTransitionTime c\<rparr>
           in if new' = c then None else setc_loop cs new' acc)"

definition SetCondition ::
    "('s \<Rightarrow> Condition list) \<Rightarrow> (Condition list \<Rightarrow> 's \<Rightarrow> 's) \<Rightarrow> Condition \<Rightarrow> 's \<times> clock \<Rightarrow> 's \<times> clock" where
  "SetCondition getC setC new = (\<lambda>(s, clk).
     case setc_loop (getC s) new [] of
       None \<Rightarrow> (s, clk)
     | Some (conditions, new') \<Rightarrow>
         (setC (sort_key ctype (conditions @ [new'\<lparr>lastTransitionTime := shd clk\<rparr>])) s, stl clk))"

definition isTerminal :: "ConditionSet \<Rightarrow> ConditionType \<Rightarrow> bool" where
  "isTerminal r t \<longleftrightarrow> t \<in> set (dependents r) \<or> t = happy r"

definition severity_of :: "ConditionSet \<Rightarrow> ConditionType \<Rightarrow> string" where
  "severity_of r t = (if isTerminal r t then ConditionSeverityError else ConditionSeverityInfo)"

text \<open>The condition literal the mark operations store, before its time is set.\<close>

definition mkCondition :: "ConditionSet \<Rightarrow> ConditionType \<Rightarrow> string \<Rightarrow> string \<Rightarrow> string \<Rightarrow> Condition" where
  "mkCondition r t st rsn msg =
     \<lparr>ctype = t, cstatus = st, severity = severity_of r t, lastTransitionTime = 0, reason = rsn, message = msg\<rparr>"

definition MarkTrue ::
    "('s \<Rightarrow> Condition list) \<Rightarrow> (Condition list \<Rightarrow> 's \<Rightarrow> 's) \<Rightarrow> ConditionSet \<Rightarrow> ConditionType \<Rightarrow> 's \<times> clock \<Rightarrow> 's \<times> clock" where
  "MarkTrue getC setC r t st =
     (let st1 = SetCondition getC setC (mkCondition r t ConditionTrue [] []) st
      in if list_all (\<lambda>d. IsTrue (GetCondition getC d (fst st1))) (dependents r)
         then SetCondition getC setC (mkCondition r (happy r) ConditionTrue [] []) st1
         else st1)"

definition MarkFalse ::
    "('s \<Rightarrow> Condition list) \<Rightarrow> (Condition list \<Rightarrow> 's \<Rightarrow> 's) \<Rightarrow> ConditionSet \<Rightarrow> ConditionType \<Rightarrow> string \<Rightarrow> string
      \<Rightarrow> 's \<times> clock \<Rightarrow> 's \<times> clock" where
  "MarkFalse getC setC r t rsn msg st =
     fold (\<lambda>t'. SetCondition getC setC (mkCondition r t' ConditionFalse rsn msg))
       (t # map (\<lambda>_. happy r) (filter (\<lambda>d. d = t) (dependents r))) st"

text \<open>
  The loop of \<open>MarkUnknown\<close> over the dependents: \<open>None\<close> when a failed one is met,
  otherwise whether \<open>t\<close> is among them.
\<close>

fun mu_loop :: "('s \<Rightarrow> Condition list) \<Rightarrow> ConditionType list \<Rightarrow> ConditionType \<Rightarrow> 's \<Rightarrow> bool \<Rightarrow> bool option" where
  "mu_loop getC [] t s isDependent = Some isDependent"
| "mu_loop getC (d # ds) t s isDependent =
     (if IsFalse (GetCondition getC d s) then None
      else mu_loop getC ds t s (isDependent \<or> d = t))"

definition MarkUnknown ::
    "('s \<Rightarrow> Condition list) \<Rightarrow> (Condition list \<Rightarrow> 's \<Rightarrow> 's) \<Rightarrow> ConditionSet \<Rightarrow> ConditionType \<Rightarrow> string \<Rightarrow> string
      \<Rightarrow> 's \<times> clock \<Rightarrow> 's \<times> clock" where
  "MarkUnknown getC setC r t rsn msg st =
     (let st1 = SetCondition getC setC (mkCondition r t ConditionUnknown rsn msg) st
      in case mu_loop getC (dependents r) t (fst st1) False of
           None \<Rightarrow>
             (if IsFalse (GetCondition getC (happy r) (fst st1)) then st1
              else MarkFalse getC setC r (happy r) rsn msg st1)
         | Some isDependent \<Rightarrow>
             (if isDependent then SetCondition getC setC (mkCondition r (happy r) ConditionUnknown rsn msg) st1
              else st1))"

definition InitializeCondition ::
    "('s \<Rightarrow> Condition list) \<Rightarrow> (Condition list \<Rightarrow> 's \<Rightarrow> 's) \<Rightarrow> ConditionSet \<Rightarrow> ConditionType \<Rightarrow> 's \<times> clock \<Rightarrow> 's \<times> clock" where
  "InitializeCondition getC setC r t st =
     (if GetCondition getC t (fst st) = None
      then SetCondition getC setC (mkCondition r t ConditionUnknown [] []) st
      else st)"

definition InitializeConditions ::
    "('s \<Rightarrow> Condition list) \<Rightarrow> (Condition list \<Rightarrow> 's \<Rightarrow> 's) \<Rightarrow> ConditionSet \<Rightarrow> 's \<times> clock \<Rightarrow> 's \<times> clock" where
  "InitializeConditions getC setC r st =
     InitializeCondition getC setC r (happy r) (fold (InitializeCondition getC setC r) (dependents r) st)"

section \<open>The abstract condition map\<close>

text \<open>
  What a consumer of a status sees: for each type the condition without its transition
  time.  The specification of every operation is a function on such maps; the lemmas of
  the locale below show that the operations on sorted lists implement it.
\<close>

type_synonym cond_map = "ConditionType \<Rightarrow> Condition option"

definition strip :: "Condition \<Rightarrow> Condition" where
  "strip c = c\<lparr>lastTransitionTime := 0\<rparr>"

definition abs_conds :: "('s \<Rightarrow> Condition list) \<Rightarrow> 's \<Rightarrow> cond_map" where
  "abs_conds getC s = (\<lambda>t. map_option strip (GetCondition getC t s))"

definition spec_MarkTrue :: "ConditionSet \<Rightarrow> ConditionType \<Rightarrow> cond_map \<Rightarrow> cond_map" where
  "spec_MarkTrue r t m =
     (let m1 = m(t \<mapsto> mkCondition r t ConditionTrue [] [])
      in if (\<forall>d \<in> set (dependents r). IsTrue (m1 d))
         then m1(happy r \<mapsto> mkCondition r (happy r) ConditionTrue [] []) else m1)"

definition spec_MarkFalse :: "ConditionSet \<Rightarrow> ConditionType \<Rightarrow> string \<Rightarrow> string \<Rightarrow> cond_map \<Rightarrow> cond_map" where
  "spec_MarkFalse r t rsn msg m =
     (let m1 = m(t \<mapsto> mkCondition r t ConditionFalse rsn msg)
      in if t \<in> set (dependents r) then m1(happy r \<mapsto> mkCondition r (happy r) ConditionFalse rsn msg) else m1)"

definition spec_MarkUnknown :: "ConditionSet \<Rightarrow> ConditionType \<Rightarrow> string \<Rightarrow> string \<Rightarrow> cond_map \<Rightarrow> cond_map" where
  "spec_MarkUnknown r t rsn msg m =
     (let m1 = m(t \<mapsto> mkCondition r t ConditionUnknown rsn msg)
      in if (\<exists>d \<in> set (dependents r). IsFalse (m1 d))
         then (if IsFalse (m1 (happy r)) then m1 else spec_MarkFalse r (happy r) rsn msg m1)
         else if t \<in> set (dependents r) then m1(happy r \<mapsto> mkCondition r (happy r) ConditionUnknown rsn msg)
         else m1)"

definition spec_Init :: "ConditionSet \<Rightarrow> cond_map \<Rightarrow> cond_map" where
  "spec_Init r m = (\<lambda>t. if m t = None \<and> isTerminal r t then Some (mkCondition r t ConditionUnknown [] []) else m t)"

text \<open>The happy condition is true exactly when all dependents are.\<close>

definition happy_iff :: "ConditionSet \<Rightarrow> cond_map \<Rightarrow> bool" where
  "happy_iff r m \<longleftrightarrow> (IsTrue (m (happy r)) \<longleftrightarrow> (\<forall>d \<in> set (dependents r). IsTrue (m d)))"

lemmas status_names = ConditionTrue_def ConditionFalse_def ConditionUnknown_def

lemma strip_mkCondition [simp]: "strip (mkCondition r t st a b) = mkCondition r t st a b"
  by (simp add: strip_def mkCondition_def)

lemma strip_fields [simp]:
  "ctype (strip c) = ctype c" "cstatus (strip c) = cstatus c" "severity (strip c) = severity c"
  "reason (strip c) = reason c" "message (strip c) = message c"
  by (simp_all add: strip_def)

lemma mkCondition_fields [simp]:
  "ctype (mkCondition r t st a b) = t" "cstatus (mkCondition r t st a b) = st"
  "reason (mkCondition r t st a b) = a" "message (mkCondition r t st a b) = b"
  by (simp_all add: mkCondition_def)

lemma IsTrue_simps [simp]: "IsTrue None = False" "IsTrue (Some c) = (cstatus c = ConditionTrue)"
  by (simp_all add: IsTrue_def)

lemma IsFalse_simps [simp]: "IsFalse None = False" "IsFalse (Some c) = (cstatus c = ConditionFalse)"
  by (simp_all add: IsFalse_def)

lemma IsTrue_abs: "IsTrue (abs_conds getC s t) = IsTrue (GetCondition getC t s)"
  by (simp add: abs_conds_def IsTrue_def split: option.splits)

lemma IsFalse_abs: "IsFalse (abs_conds getC s t) = IsFalse (GetCondition getC t s)"
  by (simp add: abs_conds_def IsFalse_def split: option.splits)

lemma abs_None: "abs_conds getC s t = None \<longleftrightarrow> GetCondition getC t s = None"
  by (simp add: abs_conds_def)

lemma status_distinct [simp]:
  "ConditionTrue \<noteq> ConditionFalse" "ConditionFalse \<noteq> ConditionTrue"
  "ConditionTrue \<noteq> ConditionUnknown" "ConditionUnknown \<noteq> ConditionTrue"
  "ConditionFalse \<noteq> ConditionUnknown" "ConditionUnknown \<noteq> ConditionFalse"
  by (simp_all add: status_names)

lemma happy_iff_notI:
  "t \<in> set (dependents r) \<Longrightarrow> \<not> IsTrue (m t) \<Longrightarrow> \<not> IsTrue (m (happy r)) \<Longrightarrow> happy_iff r m"
  by (auto simp: happy_iff_def)

lemma not_happyI: "happy_iff r m \<Longrightarrow> d \<in> set (dependents r) \<Longrightarrow> \<not> IsTrue (m d) \<Longrightarrow> \<not> IsTrue (m (happy r))"
  by (auto simp: happy_iff_def)

lemma happy_iff_spec_MarkTrue:
  assumes "t \<in> set (dependents r)" and h: "happy r \<notin> set (dependents r)" and inv: "happy_iff r m"
  shows "happy_iff r (spec_MarkTrue r t m)"
proof (cases "\<forall>d \<in> set (dependents r). d = t \<or> IsTrue (m d)")
  case True
  with h show ?thesis by (auto simp: happy_iff_def spec_MarkTrue_def Let_def)
next
  case False
  then obtain d where d: "d \<in> set (dependents r)" "d \<noteq> t" "\<not> IsTrue (m d)" by blast
  with not_happyI [OF inv] have "\<not> IsTrue (m (happy r))" by blast
  with d h assms(1) show ?thesis
    by (intro happy_iff_notI [of d]) (auto simp: spec_MarkTrue_def Let_def)
qed

lemma happy_iff_spec_MarkFalse:
  assumes "t \<in> set (dependents r)" and "happy r \<notin> set (dependents r)"
  shows "happy_iff r (spec_MarkFalse r t a b m)"
proof (rule happy_iff_notI [OF assms(1)])
  have "t \<noteq> happy r" using assms by blast
  then show "\<not> IsTrue (spec_MarkFalse r t a b m t)" by (simp add: spec_MarkFalse_def Let_def)
  show "\<not> IsTrue (spec_MarkFalse r t a b m (happy r))" using assms by (simp add: spec_MarkFalse_def Let_def)
qed

lemma happy_iff_spec_MarkUnknown:
  assumes "t \<in> set (dependents r)" and "happy r \<notin> set (dependents r)"
  shows "happy_iff r (spec_MarkUnknown r t a b m)"
proof (rule happy_iff_notI [OF assms(1)])
  have t: "t \<noteq> happy r" using assms by blast
  then show "\<not> IsTrue (spec_MarkUnknown r t a b m t)"
    using assms by (simp add: spec_MarkUnknown_def spec_MarkFalse_def Let_def)
  show "\<not> IsTrue (spec_MarkUnknown r t a b m (happy r))"
    using t assms by (simp add: spec_MarkUnknown_def spec_MarkFalse_def Let_def IsTrue_def IsFalse_def split: option.splits)
qed

lemma IsTrue_spec_Init [simp]: "IsTrue (spec_Init r m t) = IsTrue (m t)"
  by (simp add: spec_Init_def)

lemma happy_iff_spec_Init: "happy_iff r m \<Longrightarrow> happy_iff r (spec_Init r m)"
  by (simp add: happy_iff_def)

section \<open>The list operations implement the specification\<close>

definition wf_conds :: "Condition list \<Rightarrow> bool" where
  "wf_conds cs \<longleftrightarrow> sorted (map ctype cs) \<and> distinct (map ctype cs)"

lemma time_update_eq: "new\<lparr>lastTransitionTime := lastTransitionTime c\<rparr> = c \<longleftrightarrow> strip new = strip c"
  by (cases new; cases c) (simp add: strip_def)

lemma setc_loop_absent:
  "ctype new \<notin> ctype ` set cs \<Longrightarrow> setc_loop cs new acc = Some (acc @ cs, new)"
  by (induction cs arbitrary: acc) auto

lemma filter_absent: "t \<notin> ctype ` set cs \<Longrightarrow> filter (\<lambda>c. ctype c \<noteq> t) cs = cs"
  by (auto simp: filter_id_conv)

lemma setc_loop_distinct:
  "distinct (map ctype cs) \<Longrightarrow>
   setc_loop cs new acc =
     (case find (\<lambda>c. ctype c = ctype new) cs of
        None \<Rightarrow> Some (acc @ cs, new)
      | Some c \<Rightarrow> if strip new = strip c then None
          else Some (acc @ filter (\<lambda>c. ctype c \<noteq> ctype new) cs, new\<lparr>lastTransitionTime := lastTransitionTime c\<rparr>))"
  by (induction cs arbitrary: acc)
    (auto simp: setc_loop_absent filter_absent time_update_eq Let_def split: option.splits)

lemma find_sort_key:
  "distinct (map ctype cs) \<Longrightarrow> find (\<lambda>c. ctype c = t) (sort_key ctype cs) = find (\<lambda>c. ctype c = t) cs"
proof -
  assume d: "distinct (map ctype cs)"
  have "\<And>x. (find (\<lambda>c. ctype c = t) (sort_key ctype cs) = Some x) = (find (\<lambda>c. ctype c = t) cs = Some x)"
    using d by (simp add: find_Some_distinct)
  then show ?thesis by (metis not_Some_eq)
qed

lemma find_filter_snoc:
  "ctype new = k \<Longrightarrow>
   find (\<lambda>c. ctype c = t) (filter (\<lambda>c. ctype c \<noteq> k) cs @ [new]) =
     (if t = k then Some new else find (\<lambda>c. ctype c = t) cs)"
  by (induction cs) auto

text \<open>What a condition manager needs of the status object that holds its conditions.\<close>

locale conditions_accessor =
  fixes getC :: "'s \<Rightarrow> Condition list"
    and setC :: "Condition list \<Rightarrow> 's \<Rightarrow> 's"
  assumes get_set: "getC (setC cs s) = cs"
    and set_set: "setC ds (setC cs s) = setC ds s"
    and set_get: "setC (getC s) s = s"
begin

lemma SetCondition_cases:
  assumes "wf_conds (getC s)"
  shows "(\<exists>c. find (\<lambda>c. ctype c = ctype new) (getC s) = Some c \<and> strip new = strip c \<and>
            SetCondition getC setC new (s, clk) = (s, clk))
       \<or> (\<exists>tm. SetCondition getC setC new (s, clk) =
            (setC (sort_key ctype (filter (\<lambda>c. ctype c \<noteq> ctype new) (getC s) @ [new\<lparr>lastTransitionTime := tm\<rparr>])) s, stl clk))"
proof (cases "find (\<lambda>c. ctype c = ctype new) (getC s)")
  case None
  then have "ctype new \<notin> ctype ` set (getC s)" by (simp add: find_None_key)
  then show ?thesis by (auto simp: SetCondition_def setc_loop_absent filter_absent)
next
  case (Some c)
  with assms show ?thesis
    by (auto simp: SetCondition_def wf_conds_def setc_loop_distinct)
qed

text \<open>Setting a condition that is already there, its time apart, does nothing.\<close>

lemma SetCondition_noop:
  assumes "wf_conds (getC s)" and "abs_conds getC s (ctype new) = Some (strip new)"
  shows "SetCondition getC setC new (s, clk) = (s, clk)"
  using assms
  by (auto simp: SetCondition_def wf_conds_def setc_loop_distinct abs_conds_def GetCondition_def)

lemma MarkTrue_noop:
  assumes "wf_conds (getC s)" and "abs_conds getC s t = Some (mkCondition r t ConditionTrue [] [])"
    and "abs_conds getC s (happy r) = Some (mkCondition r (happy r) ConditionTrue [] [])"
  shows "MarkTrue getC setC r t (s, clk) = (s, clk)"
  using assms by (simp add: MarkTrue_def SetCondition_noop Let_def)

lemma InitializeConditions_noop:
  assumes "\<And>t. t \<in> set (dependents r) \<or> t = happy r \<Longrightarrow> abs_conds getC s t \<noteq> None"
  shows "InitializeConditions getC setC r (s, clk) = (s, clk)"
proof -
  have "fold (InitializeCondition getC setC r) ts (s, clk) = (s, clk)"
    if "\<And>t. t \<in> set ts \<Longrightarrow> abs_conds getC s t \<noteq> None" for ts
    using that
  proof (induction ts)
    case (Cons a ts)
    from Cons.prems [of a] have "GetCondition getC a s \<noteq> None" by (simp add: abs_None)
    then show ?case using Cons by (auto simp: InitializeCondition_def)
  qed simp
  from this [of "dependents r"] show ?thesis
    using assms assms [of "happy r"] by (simp add: InitializeConditions_def InitializeCondition_def abs_None) force
qed

lemma wf_SetCondition:
  assumes "wf_conds (getC s)"
  shows "wf_conds (getC (fst (SetCondition getC setC new (s, clk))))"
  using SetCondition_cases [OF assms, of new clk] assms
  by (auto simp: get_set wf_conds_def distinct_map inj_on_def)

lemma abs_SetCondition:
  assumes "wf_conds (getC s)"
  shows "abs_conds getC (fst (SetCondition getC setC new (s, clk))) = (abs_conds getC s)(ctype new \<mapsto> strip new)"
    (is "?l = ?r")
proof
  fix t
  from SetCondition_cases [OF assms, of new clk] show "?l t = ?r t"
  proof (elim disjE exE conjE)
    fix c
    assume "find (\<lambda>c. ctype c = ctype new) (getC s) = Some c" and "strip new = strip c"
      and "SetCondition getC setC new (s, clk) = (s, clk)"
    then show ?thesis by (simp add: abs_conds_def GetCondition_def)
  next
    fix tm
    let ?n = "new\<lparr>lastTransitionTime := tm\<rparr>"
    let ?cs = "filter (\<lambda>c. ctype c \<noteq> ctype new) (getC s) @ [?n]"
    assume "SetCondition getC setC new (s, clk) = (setC (sort_key ctype ?cs) s, stl clk)"
    moreover have "distinct (map ctype ?cs)"
      using assms by (auto simp: wf_conds_def distinct_map inj_on_def)
    ultimately show ?thesis
      by (simp add: abs_conds_def GetCondition_def get_set find_sort_key find_filter_snoc strip_def)
  qed
qed

lemma frame_SetCondition: "setC ds (fst (SetCondition getC setC new (s, clk))) = setC ds s"
  by (auto simp: SetCondition_def set_set split: option.splits)

text \<open>Whatever the conditions, an operation touches the status only through the accessor.\<close>

definition framed :: "('s \<times> clock \<Rightarrow> 's \<times> clock) \<Rightarrow> bool" where
  "framed f \<longleftrightarrow> (\<forall>ds s clk. setC ds (fst (f (s, clk))) = setC ds s)"

lemma framedI: "(\<And>ds st. setC ds (fst (f st)) = setC ds (fst st)) \<Longrightarrow> framed f"
  by (simp add: framed_def del: split_paired_All)

lemma framedD: "framed f \<Longrightarrow> setC ds (fst (f st)) = setC ds (fst st)"
  by (cases st) (simp add: framed_def)

lemma framed_SetCondition: "framed (SetCondition getC setC new)"
  by (simp add: framed_def frame_SetCondition)

lemma framed_fold: "(\<And>x. framed (f x)) \<Longrightarrow> framed (fold f xs)"
  by (induction xs) (auto intro!: framedI simp: framedD)

lemma framed_MarkTrue: "framed (MarkTrue getC setC r t)"
  by (rule framedI) (simp add: MarkTrue_def Let_def framedD [OF framed_SetCondition])

lemma framed_MarkFalse: "framed (MarkFalse getC setC r t a b)"
proof -
  have "framed (fold (\<lambda>t'. SetCondition getC setC (mkCondition r t' ConditionFalse a b)) ts)" for ts
    by (rule framed_fold) (rule framed_SetCondition)
  from framedD [OF this] show ?thesis by (intro framedI) (simp only: MarkFalse_def)
qed

lemma framed_MarkUnknown: "framed (MarkUnknown getC setC r t a b)"
  by (rule framedI)
    (simp add: MarkUnknown_def Let_def framedD [OF framed_SetCondition] framedD [OF framed_MarkFalse] split: option.split)

lemma framed_InitializeCondition: "framed (InitializeCondition getC setC r t)"
  by (rule framedI) (simp add: InitializeCondition_def framedD [OF framed_SetCondition])

lemma framed_InitializeConditions: "framed (InitializeConditions getC setC r)"
  by (rule framedI)
    (simp add: InitializeConditions_def framedD [OF framed_InitializeCondition]
      framedD [OF framed_fold, OF framed_InitializeCondition])

text \<open>
  A manager operation is \<open>good\<close> for a map transformer when it keeps the conditions
  sorted and distinct, implements the transformer and touches the status only through
  the accessor.
\<close>

definition good :: "('s \<times> clock \<Rightarrow> 's \<times> clock) \<Rightarrow> (cond_map \<Rightarrow> cond_map) \<Rightarrow> bool" where
  "good f g \<longleftrightarrow> (\<forall>st. wf_conds (getC (fst st)) \<longrightarrow>
     wf_conds (getC (fst (f st))) \<and> abs_conds getC (fst (f st)) = g (abs_conds getC (fst st))
     \<and> (\<forall>ds. setC ds (fst (f st)) = setC ds (fst st)))"

lemma goodD:
  assumes "good f g" and "wf_conds (getC (fst st))"
  shows "wf_conds (getC (fst (f st)))" and "abs_conds getC (fst (f st)) = g (abs_conds getC (fst st))"
    and "setC ds (fst (f st)) = setC ds (fst st)"
  using assms by (simp_all add: good_def del: split_paired_All)

lemma good_eq: "good f g \<Longrightarrow> (\<And>st. f' st = f st) \<Longrightarrow> (\<And>m. g' m = g m) \<Longrightarrow> good f' g'"
  by (simp add: good_def del: split_paired_All)

lemma good_SetCondition: "good (SetCondition getC setC new) (\<lambda>m. m(ctype new \<mapsto> strip new))"
  by (simp add: good_def wf_SetCondition abs_SetCondition frame_SetCondition)

lemma good_id: "good (\<lambda>st. st) (\<lambda>m. m)"
  by (simp add: good_def)

lemma good_comp: "good f g \<Longrightarrow> good f' g' \<Longrightarrow> good (\<lambda>st. f' (f st)) (\<lambda>m. g' (g m))"
  by (simp add: good_def del: split_paired_All)

lemma good_if:
  assumes "good f g" and "good f' g'" and "\<And>st. b st \<longleftrightarrow> b' (abs_conds getC (fst st))"
  shows "good (\<lambda>st. if b st then f st else f' st) (\<lambda>m. if b' m then g m else g' m)"
  using assms by (simp add: good_def)

lemma good_MarkTrue: "good (MarkTrue getC setC r t) (spec_MarkTrue r t)"
proof -
  have "good (\<lambda>st. if list_all (\<lambda>d. IsTrue (GetCondition getC d (fst st))) (dependents r)
           then SetCondition getC setC (mkCondition r (happy r) ConditionTrue [] []) st else st)
         (\<lambda>m. if \<forall>d\<in>set (dependents r). IsTrue (m d)
           then m(happy r \<mapsto> mkCondition r (happy r) ConditionTrue [] []) else m)"
    using good_SetCondition [of "mkCondition r (happy r) ConditionTrue [] []"]
    by (intro good_if good_id) (simp_all add: list_all_iff IsTrue_abs)
  from good_comp [OF good_SetCondition this, of "mkCondition r t ConditionTrue [] []"]
  show ?thesis by (rule good_eq) (simp_all add: MarkTrue_def spec_MarkTrue_def Let_def)
qed

lemma good_fold_same:
  "good f g \<Longrightarrow> (\<And>m. g (g m) = g m) \<Longrightarrow>
   good (fold (\<lambda>_. f) xs) (\<lambda>m. if xs = [] then m else g m)"
  by (induction xs) (simp_all add: good_def del: split_paired_All)

lemma good_MarkFalse: "good (MarkFalse getC setC r t a b) (spec_MarkFalse r t a b)"
proof -
  let ?h = "mkCondition r (happy r) ConditionFalse a b"
  have "good (fold (\<lambda>_. SetCondition getC setC ?h) (filter (\<lambda>d. d = t) (dependents r)))
         (\<lambda>m. if filter (\<lambda>d. d = t) (dependents r) = [] then m else m(happy r \<mapsto> ?h))"
    using good_fold_same [where xs = "filter (\<lambda>d. d = t) (dependents r)", OF good_SetCondition [of ?h]]
    by (rule good_eq) simp_all
  moreover have "filter (\<lambda>d. d = t) (dependents r) = [] \<longleftrightarrow> t \<notin> set (dependents r)"
    by (auto simp: filter_empty_conv)
  ultimately have "good (fold (\<lambda>_. SetCondition getC setC ?h) (filter (\<lambda>d. d = t) (dependents r)))
         (\<lambda>m. if t \<in> set (dependents r) then m(happy r \<mapsto> ?h) else m)"
    by (elim good_eq) simp_all
  from good_comp [OF good_SetCondition this, of "mkCondition r t ConditionFalse a b"]
  show ?thesis by (rule good_eq) (simp_all add: MarkFalse_def spec_MarkFalse_def Let_def fold_map comp_def)
qed

lemma mu_loop_eq:
  "mu_loop getC ds t s b =
     (if \<exists>d\<in>set ds. IsFalse (GetCondition getC d s) then None else Some (b \<or> t \<in> set ds))"
  by (induction ds arbitrary: b) auto

lemma MarkUnknown_if:
  "MarkUnknown getC setC r t a b st =
     (let st1 = SetCondition getC setC (mkCondition r t ConditionUnknown a b) st
      in if \<exists>d\<in>set (dependents r). IsFalse (GetCondition getC d (fst st1))
         then (if IsFalse (GetCondition getC (happy r) (fst st1)) then st1
               else MarkFalse getC setC r (happy r) a b st1)
         else (if t \<in> set (dependents r)
               then SetCondition getC setC (mkCondition r (happy r) ConditionUnknown a b) st1 else st1))"
  by (simp add: MarkUnknown_def Let_def mu_loop_eq)

lemma good_MarkUnknown: "good (MarkUnknown getC setC r t a b) (spec_MarkUnknown r t a b)"
proof -
  have inner: "good (\<lambda>st. if IsFalse (GetCondition getC (happy r) (fst st)) then st
                   else MarkFalse getC setC r (happy r) a b st)
              (\<lambda>m. if IsFalse (m (happy r)) then m else spec_MarkFalse r (happy r) a b m)"
    by (intro good_if good_id good_MarkFalse) (simp add: IsFalse_abs)
  have last: "good (\<lambda>st. if t \<in> set (dependents r)
                   then SetCondition getC setC (mkCondition r (happy r) ConditionUnknown a b) st else st)
              (\<lambda>m. if t \<in> set (dependents r) then m(happy r \<mapsto> mkCondition r (happy r) ConditionUnknown a b) else m)"
    using good_SetCondition [of "mkCondition r (happy r) ConditionUnknown a b"] by (intro good_if good_id) simp_all
  have "good (\<lambda>st. if \<exists>d\<in>set (dependents r). IsFalse (GetCondition getC d (fst st))
                   then (if IsFalse (GetCondition getC (happy r) (fst st)) then st
                         else MarkFalse getC setC r (happy r) a b st)
                   else (if t \<in> set (dependents r)
                         then SetCondition getC setC (mkCondition r (happy r) ConditionUnknown a b) st else st))
              (\<lambda>m. if \<exists>d\<in>set (dependents r). IsFalse (m d)
                   then (if IsFalse (m (happy r)) then m else spec_MarkFalse r (happy r) a b m)
                   else (if t \<in> set (dependents r)
                         then m(happy r \<mapsto> mkCondition r (happy r) ConditionUnknown a b) else m))"
    by (intro good_if [OF inner last]) (simp add: IsFalse_abs)
  from good_comp [OF good_SetCondition this, of "mkCondition r t ConditionUnknown a b"]
  show ?thesis by (rule good_eq) (simp_all add: MarkUnknown_if spec_MarkUnknown_def Let_def)
qed

lemma good_InitializeCondition:
  "good (InitializeCondition getC setC r t)
     (\<lambda>m. if m t = None then m(t \<mapsto> mkCondition r t ConditionUnknown [] []) else m)"
proof -
  have "good (\<lambda>st. if GetCondition getC t (fst st) = None
                then SetCondition getC setC (mkCondition r t ConditionUnknown [] []) st else st)
          (\<lambda>m. if m t = None then m(t \<mapsto> mkCondition r t ConditionUnknown [] []) else m)"
    using good_SetCondition [of "mkCondition r t ConditionUnknown [] []"]
    by (intro good_if good_id) (simp_all add: abs_None)
  then show ?thesis by (rule good_eq) (simp_all add: InitializeCondition_def)
qed

lemma good_fold_Init:
  "good (fold (InitializeCondition getC setC r) ts)
     (\<lambda>m t. if m t = None \<and> t \<in> set ts then Some (mkCondition r t ConditionUnknown [] []) else m t)"
proof (induction ts)
  case Nil
  show ?case by (simp add: good_def)
next
  case (Cons u ts)
  from good_comp [OF good_InitializeCondition [of r u] Cons.IH]
  show ?case by (rule good_eq) (auto simp: fun_eq_iff)
qed

lemma good_InitializeConditions: "good (InitializeConditions getC setC r) (spec_Init r)"
proof -
  have eq: "InitializeConditions getC setC r = fold (InitializeCondition getC setC r) (dependents r @ [happy r])"
    by (simp add: InitializeConditions_def fun_eq_iff)
  have spec: "spec_Init r = (\<lambda>m t. if m t = None \<and> t \<in> set (dependents r @ [happy r])
       then Some (mkCondition r t ConditionUnknown [] []) else m t)"
    by (auto simp: spec_Init_def isTerminal_def fun_eq_iff)
  show ?thesis unfolding eq spec by (rule good_fold_Init)
qed

lemmas good_ops = good_InitializeConditions good_MarkTrue good_MarkFalse good_MarkUnknown

end

end
