(* ===== verification/SourceTypes.thy ===== *)
theory SourceTypes
  imports KubeObjects Conditions
begin

text \<open>
  The GitLabSource resource (\<open>pkg/apis/sources/v1alpha1\<close>): its spec, its status with
  the condition operations, its validation and defaults, and its registration in a
  scheme.  The operations on a status thread the clock the condition manager reads.
\<close>

section \<open>The resource\<close>

record SecretValueFromSource =
  SecretKeyRef :: "SecretKeySelector option"

record GitLabSourceSpec =
  ServiceAccountName :: string
  ProjectURL :: string
  EventTypes :: "string list"
  AccessToken :: SecretValueFromSource
  SecretToken :: SecretValueFromSource
  Sink :: "ObjectReference option"
  URI :: "string option"
  Secure :: bool

record GitLabSourceStatus =
  ObservedGeneration :: int
  Conditions :: "Condition list"
  WebhookIDKey :: string
  SinkURI :: string

record GitLabSource =
  gs_APIVersion :: string
  gs_Kind :: string
  gs_meta :: ObjectMeta
  Spec :: GitLabSourceSpec
  Status :: GitLabSourceStatus

definition GitLabSourceEventPrefix :: string where
  "GitLabSourceEventPrefix = ''dev.knative.source.gitlab''"

definition GitLabSourceConditionReady :: ConditionType where
  "GitLabSourceConditionReady = ConditionReady"

definition GitLabSourceConditionSecretsProvided :: ConditionType where
  "GitLabSourceConditionSecretsProvided = ''SecretsProvided''"

definition GitLabSourceConditionSinkProvided :: ConditionType where
  "GitLabSourceConditionSinkProvided = ''SinkProvided''"

definition gitLabSourceCondSet :: ConditionSet where
  "gitLabSourceCondSet = NewLivingConditionSet
     [GitLabSourceConditionSecretsProvided, GitLabSourceConditionSinkProvided]"

definition SchemeGroupVersion :: GroupVersion where
  "SchemeGroupVersion = \<lparr>gv_Group = ''sources.eventing.knative.dev'', gv_Version = ''v1alpha1''\<rparr>"

definition WithKind :: "GroupVersion \<Rightarrow> string \<Rightarrow> GroupVersionKind" where
  "WithKind gv k = \<lparr>gvk_Group = gv_Group gv, gvk_Version = gv_Version gv, gvk_Kind = k\<rparr>"

text \<open>\<open>SchemeBuilder.Register(&GitLabSource{}, &GitLabSourceList{})\<close> and \<open>AddToScheme\<close>\<close>

definition add_known :: "string \<Rightarrow> Scheme \<Rightarrow> Scheme" where
  "add_known typ scheme =
     (let k = WithKind SchemeGroupVersion typ;
          old = (case scheme typ of None \<Rightarrow> [] | Some ks \<Rightarrow> ks)
      in scheme(typ \<mapsto> (if k \<in> set old then old else old @ [k])))"

definition AddToScheme :: "Scheme \<Rightarrow> Scheme" where
  "AddToScheme scheme = add_known ''GitLabSourceList'' (add_known ''GitLabSource'' scheme)"

text \<open>\<open>Resource(resource)\<close> as it is printed in errors\<close>

definition GroupResource_String :: "string \<Rightarrow> string" where
  "GroupResource_String res =
     (if gv_Group SchemeGroupVersion = [] then res else res @ ''.'' @ gv_Group SchemeGroupVersion)"

section \<open>Operations on the status\<close>

definition setConditions :: "Condition list \<Rightarrow> GitLabSourceStatus \<Rightarrow> GitLabSourceStatus" where
  "setConditions cs s = s\<lparr>Conditions := cs\<rparr>"

definition Status_GetCondition :: "ConditionType \<Rightarrow> GitLabSourceStatus \<Rightarrow> Condition option" where
  "Status_GetCondition t s = GetCondition Conditions t s"

definition IsReady :: "GitLabSourceStatus \<Rightarrow> bool" where
  "IsReady s = IsHappy Conditions gitLabSourceCondSet s"

definition Status_InitializeConditions :: "GitLabSourceStatus \<times> clock \<Rightarrow> GitLabSourceStatus \<times> clock" where
  "Status_InitializeConditions st = InitializeConditions Conditions setConditions gitLabSourceCondSet st"

definition MarkSecrets :: "GitLabSourceStatus \<times> clock \<Rightarrow> GitLabSourceStatus \<times> clock" where
  "MarkSecrets st = MarkTrue Conditions setConditions gitLabSourceCondSet GitLabSourceConditionSecretsProvided st"

definition MarkNoSecrets :: "string \<Rightarrow> string \<Rightarrow> GitLabSourceStatus \<times> clock \<Rightarrow> GitLabSourceStatus \<times> clock" where
  "MarkNoSecrets rsn msg st =
     MarkFalse Conditions setConditions gitLabSourceCondSet GitLabSourceConditionSecretsProvided rsn msg st"

definition MarkSink :: "string \<Rightarrow> GitLabSourceStatus \<times> clock \<Rightarrow> GitLabSourceStatus \<times> clock" where
  "MarkSink uri = (\<lambda>(s, clk).
     let s1 = s\<lparr>SinkURI := uri\<rparr>
     in if 0 < length uri
        then MarkTrue Conditions setConditions gitLabSourceCondSet GitLabSourceConditionSinkProvided (s1, clk)
        else MarkUnknown Conditions setConditions gitLabSourceCondSet GitLabSourceConditionSinkProvided
               ''SinkEmpty'' ''Sink has resolved to empty.'' (s1, clk))"

definition MarkNoSink :: "string \<Rightarrow> string \<Rightarrow> GitLabSourceStatus \<times> clock \<Rightarrow> GitLabSourceStatus \<times> clock" where
  "MarkNoSink rsn msg st =
     MarkFalse Conditions setConditions gitLabSourceCondSet GitLabSourceConditionSinkProvided rsn msg st"

section \<open>Validation and defaults\<close>

text \<open>A field error, or none; the sources accept every spec.\<close>

definition Spec_Validate :: "GitLabSourceSpec \<Rightarrow> string option" where
  "Spec_Validate s = None"

definition Validate :: "GitLabSource \<Rightarrow> string option" where
  "Validate gs = Spec_Validate (Spec gs)"

definition SetDefaults :: "GitLabSource \<Rightarrow> GitLabSource" where
  "SetDefaults gs = gs"

section \<open>The status as a condition store\<close>

lemma condset_simps [simp]:
  "happy gitLabSourceCondSet = GitLabSourceConditionReady"
  "dependents gitLabSourceCondSet = [GitLabSourceConditionSecretsProvided, GitLabSourceConditionSinkProvided]"
  by (simp_all add: gitLabSourceCondSet_def NewLivingConditionSet_def newConditionSet_def
      GitLabSourceConditionReady_def GitLabSourceConditionSecretsProvided_def
      GitLabSourceConditionSinkProvided_def ConditionReady_def)

lemma condition_types_distinct [simp]:
  "GitLabSourceConditionSecretsProvided \<noteq> GitLabSourceConditionSinkProvided"
  "GitLabSourceConditionSinkProvided \<noteq> GitLabSourceConditionSecretsProvided"
  "GitLabSourceConditionReady \<noteq> GitLabSourceConditionSecretsProvided"
  "GitLabSourceConditionSecretsProvided \<noteq> GitLabSourceConditionReady"
  "GitLabSourceConditionReady \<noteq> GitLabSourceConditionSinkProvided"
  "GitLabSourceConditionSinkProvided \<noteq> GitLabSourceConditionReady"
  by (simp_all add: GitLabSourceConditionReady_def GitLabSourceConditionSecretsProvided_def
      GitLabSourceConditionSinkProvided_def ConditionReady_def)

interpretation gls: conditions_accessor Conditions setConditions
  by unfold_locales (simp_all add: setConditions_def)

abbreviation conds_of :: "GitLabSourceStatus \<Rightarrow> cond_map" where
  "conds_of s \<equiv> abs_conds Conditions s"

abbreviation wf_status :: "GitLabSourceStatus \<Rightarrow> bool" where
  "wf_status s \<equiv> wf_conds (Conditions s)"

text \<open>The specification of the status operations on the condition map.\<close>

datatype status_op =
    OpInit
  | OpSecrets
  | OpNoSecrets string string
  | OpSink string
  | OpNoSink string string

fun run_op :: "status_op \<Rightarrow> GitLabSourceStatus \<times> clock \<Rightarrow> GitLabSourceStatus \<times> clock" where
  "run_op OpInit st = Status_InitializeConditions st"
| "run_op OpSecrets st = MarkSecrets st"
| "run_op (OpNoSecrets r m) st = MarkNoSecrets r m st"
| "run_op (OpSink u) st = MarkSink u st"
| "run_op (OpNoSink r m) st = MarkNoSink r m st"

fun spec_op :: "status_op \<Rightarrow> cond_map \<Rightarrow> cond_map" where
  "spec_op OpInit m = spec_Init gitLabSourceCondSet m"
| "spec_op OpSecrets m = spec_MarkTrue gitLabSourceCondSet GitLabSourceConditionSecretsProvided m"
| "spec_op (OpNoSecrets r t) m = spec_MarkFalse gitLabSourceCondSet GitLabSourceConditionSecretsProvided r t m"
| "spec_op (OpSink u) m =
     (if u \<noteq> [] then spec_MarkTrue gitLabSourceCondSet GitLabSourceConditionSinkProvided m
      else spec_MarkUnknown gitLabSourceCondSet GitLabSourceConditionSinkProvided ''SinkEmpty'' ''Sink has resolved to empty.'' m)"
| "spec_op (OpNoSink r t) m = spec_MarkFalse gitLabSourceCondSet GitLabSourceConditionSinkProvided r t m"

text \<open>The sink URI an operation leaves.\<close>

fun op_uri :: "status_op \<Rightarrow> string \<Rightarrow> string" where
  "op_uri (OpSink u) old = u"
| "op_uri _ old = old"

lemma setConditions_sel [simp]:
  "WebhookIDKey (setConditions cs s) = WebhookIDKey s" "SinkURI (setConditions cs s) = SinkURI s"
  "ObservedGeneration (setConditions cs s) = ObservedGeneration s" "Conditions (setConditions cs s) = cs"
  by (simp_all add: setConditions_def)

lemma GetCondition_cong: "Conditions s = Conditions s' \<Longrightarrow> conds_of s = conds_of s'"
  by (simp add: abs_conds_def GetCondition_def)

text \<open>
  One lemma for all operations: they keep the conditions well-formed, implement the
  specification, change nothing else but the sink URI.
\<close>

lemma frame_from_good:
  assumes "gls.good f g" and "wf_status (fst st)"
  shows "fst (f st) = setConditions (Conditions (fst (f st))) (fst st)"
  using gls.goodD(3) [OF assms, of "Conditions (fst (f st))"] gls.set_get [of "fst (f st)"] by simp

lemma run_op_good:
  assumes "wf_status (fst st)"
  shows "wf_status (fst (run_op op st)) \<and> conds_of (fst (run_op op st)) = spec_op op (conds_of (fst st))
    \<and> fst (run_op op st) = setConditions (Conditions (fst (run_op op st))) ((fst st)\<lparr>SinkURI := op_uri op (SinkURI (fst st))\<rparr>)"
proof -
  obtain s clk where st: "st = (s, clk)" by (cases st)
  have upd: "wf_status (s\<lparr>SinkURI := u\<rparr>)" "conds_of (s\<lparr>SinkURI := u\<rparr>) = conds_of s" for u
    using assms st by (simp_all add: abs_conds_def GetCondition_def)
  show ?thesis
  proof (cases op)
    case OpInit
    then show ?thesis
      using gls.goodD [OF gls.good_InitializeConditions assms] frame_from_good [OF gls.good_InitializeConditions assms]
      by (simp add: Status_InitializeConditions_def)
  next
    case OpSecrets
    then show ?thesis using gls.goodD [OF gls.good_MarkTrue assms] frame_from_good [OF gls.good_MarkTrue assms]
      by (simp add: MarkSecrets_def)
  next
    case OpNoSecrets
    then show ?thesis using gls.goodD [OF gls.good_MarkFalse assms] frame_from_good [OF gls.good_MarkFalse assms]
      by (simp add: MarkNoSecrets_def)
  next
    case (OpSink u)
    let ?st = "(s\<lparr>SinkURI := u\<rparr>, clk)"
    have w: "wf_status (fst ?st)" using upd by simp
    show ?thesis
      using OpSink st upd gls.goodD [OF gls.good_MarkTrue w] gls.goodD [OF gls.good_MarkUnknown w]
        frame_from_good [OF gls.good_MarkTrue w] frame_from_good [OF gls.good_MarkUnknown w]
      by (cases u) (simp_all add: MarkSink_def Let_def)
  next
    case OpNoSink
    then show ?thesis using gls.goodD [OF gls.good_MarkFalse assms] frame_from_good [OF gls.good_MarkFalse assms]
      by (simp add: MarkNoSink_def)
  qed
qed

lemma run_op_other:
  assumes "wf_status (fst st)"
  shows "WebhookIDKey (fst (run_op op st)) = WebhookIDKey (fst st)"
    and "SinkURI (fst (run_op op st)) = op_uri op (SinkURI (fst st))"
    and "ObservedGeneration (fst (run_op op st)) = ObservedGeneration (fst st)"
proof -
  have eq: "fst (run_op op st) = setConditions (Conditions (fst (run_op op st))) ((fst st)\<lparr>SinkURI := op_uri op (SinkURI (fst st))\<rparr>)"
    by (rule run_op_good [OF assms, THEN conjunct2, THEN conjunct2])
  show "WebhookIDKey (fst (run_op op st)) = WebhookIDKey (fst st)"
    by (rule trans [OF arg_cong [OF eq, of WebhookIDKey]]) simp
  show "SinkURI (fst (run_op op st)) = op_uri op (SinkURI (fst st))"
    by (rule trans [OF arg_cong [OF eq, of SinkURI]]) simp
  show "ObservedGeneration (fst (run_op op st)) = ObservedGeneration (fst st)"
    by (rule trans [OF arg_cong [OF eq, of ObservedGeneration]]) simp
qed

text \<open>The stored hook ID and generation, whatever the conditions.\<close>

definition keeps_id :: "(GitLabSourceStatus \<times> clock \<Rightarrow> GitLabSourceStatus \<times> clock) \<Rightarrow> bool" where
  "keeps_id f \<longleftrightarrow> (\<forall>s clk. WebhookIDKey (fst (f (s, clk))) = WebhookIDKey s
                         \<and> ObservedGeneration (fst (f (s, clk))) = ObservedGeneration s)"

lemma keeps_idD: "keeps_id f \<Longrightarrow> WebhookIDKey (fst (f st)) = WebhookIDKey (fst st)"
  by (cases st) (simp add: keeps_id_def)

lemma framed_keeps_id: "gls.framed f \<Longrightarrow> keeps_id f"
proof (unfold keeps_id_def, intro allI)
  fix s clk
  assume "gls.framed f"
  from gls.framedD [OF this, of "[]" "(s, clk)"]
  have eq: "setConditions [] (fst (f (s, clk))) = setConditions [] s" by simp
  show "WebhookIDKey (fst (f (s, clk))) = WebhookIDKey s \<and> ObservedGeneration (fst (f (s, clk))) = ObservedGeneration s"
    using arg_cong [OF eq, of WebhookIDKey] arg_cong [OF eq, of ObservedGeneration] by simp
qed

lemma keeps_id_MarkTrue: "keeps_id (MarkTrue Conditions setConditions gitLabSourceCondSet t)"
  and keeps_id_MarkUnknown: "keeps_id (MarkUnknown Conditions setConditions gitLabSourceCondSet t a b)"
  by (intro framed_keeps_id gls.framed_MarkTrue gls.framed_MarkUnknown)+

lemma keeps_id_ops [keeps_intro]:
  "keeps_id Status_InitializeConditions" "keeps_id MarkSecrets" "keeps_id (MarkNoSecrets a b)"
  "keeps_id (MarkNoSink a b)" "keeps_id (MarkSink u)"
proof -
  show "keeps_id Status_InitializeConditions"
    using framed_keeps_id [OF gls.framed_InitializeConditions]
    by (simp add: keeps_id_def Status_InitializeConditions_def)
  show "keeps_id MarkSecrets"
    using keeps_id_MarkTrue by (simp add: keeps_id_def MarkSecrets_def)
  show "keeps_id (MarkNoSecrets a b)"
    using framed_keeps_id [OF gls.framed_MarkFalse] by (simp add: keeps_id_def MarkNoSecrets_def)
  show "keeps_id (MarkNoSink a b)"
    using framed_keeps_id [OF gls.framed_MarkFalse] by (simp add: keeps_id_def MarkNoSink_def)
  show "keeps_id (MarkSink u)"
    using keeps_id_MarkTrue keeps_id_MarkUnknown by (simp add: keeps_id_def MarkSink_def Let_def)
qed

lemma IsReady_abs: "IsReady s = IsTrue (conds_of s GitLabSourceConditionReady)"
  by (simp add: IsReady_def IsHappy_def IsTrue_abs)

lemma happy_iff_spec_op: "happy_iff gitLabSourceCondSet m \<Longrightarrow> happy_iff gitLabSourceCondSet (spec_op op m)"
  by (cases op)
    (simp_all add: happy_iff_spec_MarkTrue happy_iff_spec_MarkFalse happy_iff_spec_MarkUnknown happy_iff_spec_Init)

section \<open>Statuses that can be trusted\<close>

text \<open>
  Conditions sorted and unique, Ready true exactly when both dependents are, and a sink
  URI wherever the sink is reported as provided.
\<close>

definition good_status :: "GitLabSourceStatus \<Rightarrow> bool" where
  "good_status st \<longleftrightarrow> wf_status st \<and> happy_iff gitLabSourceCondSet (conds_of st)
     \<and> (IsTrue (conds_of st GitLabSourceConditionSinkProvided) \<longrightarrow> SinkURI st \<noteq> [])"

definition good_op :: "(GitLabSourceStatus \<times> clock \<Rightarrow> GitLabSourceStatus \<times> clock) \<Rightarrow> bool" where
  "good_op f \<longleftrightarrow> (\<forall>s clk. good_status s \<longrightarrow> good_status (fst (f (s, clk))))"

lemma sink_spec_op:
  "IsTrue (spec_op op m GitLabSourceConditionSinkProvided) \<longleftrightarrow>
     (case op of OpSink u \<Rightarrow> u \<noteq> [] | OpNoSink _ _ \<Rightarrow> False | _ \<Rightarrow> IsTrue (m GitLabSourceConditionSinkProvided))"
  by (cases op) (simp_all add: spec_MarkTrue_def spec_MarkFalse_def spec_MarkUnknown_def Let_def)

lemma secrets_spec_op:
  "IsTrue (spec_op op m GitLabSourceConditionSecretsProvided) \<longleftrightarrow>
     (case op of OpSecrets \<Rightarrow> True | OpNoSecrets _ _ \<Rightarrow> False | _ \<Rightarrow> IsTrue (m GitLabSourceConditionSecretsProvided))"
  by (cases op) (simp_all add: spec_MarkTrue_def spec_MarkFalse_def spec_MarkUnknown_def Let_def)

lemma good_run_op: "good_op (run_op op)"
proof (unfold good_op_def, intro allI impI)
  fix s :: GitLabSourceStatus and clk :: clock
  assume s: "good_status s"
  then have wf: "wf_status (fst (s, clk))" by (simp add: good_status_def)
  from run_op_good [OF wf, of op] have "wf_status (fst (run_op op (s, clk)))"
    and eq: "conds_of (fst (run_op op (s, clk))) = spec_op op (conds_of s)" by simp_all
  moreover have "happy_iff gitLabSourceCondSet (spec_op op (conds_of s))"
    using s by (intro happy_iff_spec_op) (simp add: good_status_def)
  moreover have "SinkURI (fst (run_op op (s, clk))) = op_uri op (SinkURI s)"
    using run_op_other(2) [OF wf, of op] by simp
  moreover have "IsTrue (spec_op op (conds_of s) GitLabSourceConditionSinkProvided) \<longrightarrow> op_uri op (SinkURI s) \<noteq> []"
    using s unfolding sink_spec_op by (cases op) (simp_all add: good_status_def)
  ultimately show "good_status (fst (run_op op (s, clk)))"
    by (simp only: good_status_def)
qed

lemma good_ops [keeps_intro]:
  "good_op Status_InitializeConditions" "good_op MarkSecrets" "good_op (MarkNoSecrets a b)"
  "good_op (MarkNoSink a b)" "good_op (MarkSink u)"
  using good_run_op [of OpInit] good_run_op [of OpSecrets] good_run_op [of "OpNoSecrets a b"]
    good_run_op [of "OpNoSink a b"] good_run_op [of "OpSink u"]
  by (simp_all add: good_op_def)

lemma good_status_id [simp]: "good_status (st\<lparr>WebhookIDKey := i\<rparr>) = good_status st"
  by (simp add: good_status_def abs_conds_def GetCondition_def)

lemma IsReady_good:
  "good_status st \<Longrightarrow> IsReady st \<longleftrightarrow>
     IsTrue (conds_of st GitLabSourceConditionSecretsProvided) \<and> IsTrue (conds_of st GitLabSourceConditionSinkProvided)"
  by (simp add: good_status_def IsReady_abs happy_iff_def)

text \<open>A status that reports all as provided; the operations leave it as it is.\<close>

definition settled :: "GitLabSourceStatus \<Rightarrow> bool" where
  "settled st \<longleftrightarrow> wf_status st \<and> SinkURI st \<noteq> [] \<and>
     list_all (\<lambda>t. conds_of st t = Some (mkCondition gitLabSourceCondSet t ConditionTrue [] []))
       [GitLabSourceConditionReady, GitLabSourceConditionSecretsProvided, GitLabSourceConditionSinkProvided]"

lemma settled_run_op:
  assumes "settled st"
  shows "run_op OpInit (st, clk) = (st, clk)" "run_op OpSecrets (st, clk) = (st, clk)"
    "run_op (OpSink (SinkURI st)) (st, clk) = (st, clk)"
proof -
  have wf: "wf_status st" and uri: "SinkURI st \<noteq> []"
    and c: "conds_of st GitLabSourceConditionReady = Some (mkCondition gitLabSourceCondSet GitLabSourceConditionReady ConditionTrue [] [])"
      "conds_of st GitLabSourceConditionSecretsProvided = Some (mkCondition gitLabSourceCondSet GitLabSourceConditionSecretsProvided ConditionTrue [] [])"
      "conds_of st GitLabSourceConditionSinkProvided = Some (mkCondition gitLabSourceCondSet GitLabSourceConditionSinkProvided ConditionTrue [] [])"
    using assms by (simp_all add: settled_def)
  show "run_op OpInit (st, clk) = (st, clk)"
    unfolding run_op.simps Status_InitializeConditions_def
    by (rule gls.InitializeConditions_noop) (use c in auto)
  show "run_op OpSecrets (st, clk) = (st, clk)"
    unfolding run_op.simps MarkSecrets_def by (rule gls.MarkTrue_noop [OF wf]) (simp_all add: c)
  show "run_op (OpSink (SinkURI st)) (st, clk) = (st, clk)"
    using uri gls.MarkTrue_noop [OF wf, of GitLabSourceConditionSinkProvided gitLabSourceCondSet clk]
    by (simp add: MarkSink_def Let_def c)
qed

end
