(* ===== verification/Resources.thy ===== *)
theory Resources
  imports SourceTypes
begin

text \<open>
  The objects the controller creates for a source
  (\<open>pkg/reconciler/resources/service.go\<close>): the deployment of the receive adapter and
  the public load-balancer service in front of it.
\<close>

definition source_labels :: "GitLabSource \<Rightarrow> labels" where
  "source_labels source =
     [''eventing-source'' \<mapsto> ''gitlab-source-controller'',
      ''eventing-source-name'' \<mapsto> om_Name (gs_meta source)]"

definition MakeReceiveAdapter :: "GitLabSource \<Rightarrow> string \<Rightarrow> Deployment" where
  "MakeReceiveAdapter source receiveAdapterImage =
     (let replicas = 1;
          lbls = source_labels source;
          sinkURI = SinkURI (Status source);
          env = [\<lparr>env_Name = ''GITLAB_SECRET_TOKEN'', env_Value = [],
                  env_ValueFrom = Some (SecretKeyRef (SecretToken (Spec source)))\<rparr>,
                 \<lparr>env_Name = ''SINK'', env_Value = sinkURI, env_ValueFrom = None\<rparr>];
          containerArgs = [''--sink='' @ sinkURI]
      in \<lparr>dep_meta = empty_meta\<lparr>om_GenerateName := om_Name (gs_meta source) @ ''-deployment'',
                                om_Namespace := om_Namespace (gs_meta source),
                                om_Labels := lbls\<rparr>,
          dep_MatchLabels = lbls,
          dep_Replicas = Some replicas,
          dep_Template =
            \<lparr>pt_meta = empty_meta\<lparr>om_Annotations := [''sidecar.istio.io/inject'' \<mapsto> ''true''], om_Labels := lbls\<rparr>,
             pt_ServiceAccountName = ServiceAccountName (Spec source),
             pt_Containers = [\<lparr>c_Name = ''receive-adapter'', c_Image = receiveAdapterImage,
                              c_Env = env, c_Args = containerArgs\<rparr>]\<rparr>\<rparr>)"

definition MakePublicService :: "GitLabSource \<Rightarrow> Service" where
  "MakePublicService source =
     (let lbls = source_labels source
      in \<lparr>svc_meta = empty_meta\<lparr>om_GenerateName := om_Name (gs_meta source) @ ''-service'',
                                om_Namespace := om_Namespace (gs_meta source),
                                om_Labels := lbls\<rparr>,
          svc_Ports = [\<lparr>sp_Protocol = ''TCP'', sp_Port = 8080, sp_TargetPort = 8080, sp_NodePort = 0\<rparr>],
          svc_Selector = lbls,
          svc_Type = ''LoadBalancer'',
          svc_Ingress = []\<rparr>)"

text \<open>A label selector selects an object whose labels contain all its pairs.\<close>

definition selects :: "labels \<Rightarrow> ObjectMeta \<Rightarrow> bool" where
  "selects sel m \<longleftrightarrow> sel \<subseteq>\<^sub>m om_Labels m"

lemma MakeReceiveAdapter_no_owner [simp]: "om_OwnerReferences (dep_meta (MakeReceiveAdapter source img)) = []"
  by (simp add: MakeReceiveAdapter_def Let_def empty_meta_def)

lemma MakePublicService_no_owner [simp]: "om_OwnerReferences (svc_meta (MakePublicService source)) = []"
  by (simp add: MakePublicService_def Let_def empty_meta_def)

end
