(* ===== verification/GoURL.thy ===== *)
theory GoURL
  imports GoStrings
begin

text \<open>
  \<open>net/url\<close> as the sources use it: \<open>Parse\<close> with its component validation, on byte
  strings (the behaviour of Go 1.13, the release the sources need for the \<open>%w\<close> verb).
  The fields read by the sources are \<open>Path\<close> (project name, base URL) and, through
  \<open>String\<close>, the whole value of a CloudEvents source.
\<close>

section \<open>Escaping\<close>

datatype encoding = encodePath | encodePathSegment | encodeHost | encodeZone | encodeUserPassword | encodeFragment

definition is_alpha :: "char \<Rightarrow> bool" where
  "is_alpha c \<longleftrightarrow> (CHR ''A'' \<le> c \<and> c \<le> CHR ''Z'') \<or> (CHR ''a'' \<le> c \<and> c \<le> CHR ''z'')"

definition is_alnum :: "char \<Rightarrow> bool" where
  "is_alnum c \<longleftrightarrow> is_alpha c \<or> is_digit c"

definition ishex :: "char \<Rightarrow> bool" where
  "ishex c \<longleftrightarrow> is_digit c \<or> CHR ''a'' \<le> c \<and> c \<le> CHR ''f'' \<or> CHR ''A'' \<le> c \<and> c \<le> CHR ''F''"

definition unhex :: "char \<Rightarrow> nat" where
  "unhex c =
     (if is_digit c then of_char c - 48
      else if CHR ''a'' \<le> c \<and> c \<le> CHR ''f'' then of_char c - 97 + 10
      else if CHR ''A'' \<le> c \<and> c \<le> CHR ''F'' then of_char c - 65 + 10
      else 0)"

definition shouldEscape :: "char \<Rightarrow> encoding \<Rightarrow> bool" where
  "shouldEscape c mode =
     (if is_alnum c then False
      else if (mode = encodeHost \<or> mode = encodeZone) \<and>
              c \<in> set [CHR ''!'', CHR ''$'', CHR ''&'', CHR 0x27, CHR ''('', CHR '')'', CHR ''*'', CHR ''+'',
                       CHR '','', CHR '';'', CHR ''='', CHR '':'', CHR ''['', CHR '']'', CHR ''<'', CHR ''>'', CHR 0x22]
           then False
      else if c \<in> set [CHR ''-'', CHR ''_'', CHR ''.'', CHR ''~''] then False
      else if c \<in> set [CHR ''$'', CHR ''&'', CHR ''+'', CHR '','', CHR ''/'', CHR '':'', CHR '';'', CHR ''='', CHR ''?'', CHR ''@'']
              \<and> mode \<in> set [encodePath, encodePathSegment, encodeUserPassword, encodeFragment]
           then (case mode of
                   encodePath \<Rightarrow> c = CHR ''?''
                 | encodePathSegment \<Rightarrow> c \<in> set [CHR ''/'', CHR '';'', CHR '','', CHR ''?'']
                 | encodeUserPassword \<Rightarrow> c \<in> set [CHR ''@'', CHR ''/'', CHR ''?'', CHR '':'']
                 | _ \<Rightarrow> False)
      else if mode = encodeFragment \<and> c \<in> set [CHR ''!'', CHR ''('', CHR '')'', CHR ''*''] then False
      else True)"

definition hex_digit :: "nat \<Rightarrow> char" where
  "hex_digit d = (if d < 10 then char_of (48 + d) else char_of (55 + d))"

text \<open>\<open>escape(s, mode)\<close> for the modes above (none of them writes a space as a plus sign).\<close>

definition escape :: "encoding \<Rightarrow> string \<Rightarrow> string" where
  "escape mode s = concat (map (\<lambda>c. if shouldEscape c mode
      then [CHR ''%'', hex_digit (of_char c div 16), hex_digit (of_char c mod 16)] else [c]) s)"

text \<open>\<open>unescape(s, mode)\<close>; \<open>None\<close> is an escape or invalid-host error.\<close>

fun unescape :: "encoding \<Rightarrow> string \<Rightarrow> string option" where
  "unescape mode [] = Some []"
| "unescape mode (c # cs) =
     (if c = CHR ''%'' then
        (case cs of
           a # b # rest \<Rightarrow>
             if \<not> (ishex a \<and> ishex b) then None
             else if mode = encodeHost \<and> unhex a < 8 \<and> \<not> (a = CHR ''2'' \<and> b = CHR ''5'') then None
             else if mode = encodeZone \<and> \<not> (a = CHR ''2'' \<and> b = CHR ''5'') \<and>
                     char_of (unhex a * 16 + unhex b) \<noteq> CHR '' '' \<and>
                     shouldEscape (char_of (unhex a * 16 + unhex b)) encodeHost then None
             else map_option (\<lambda>t. char_of (unhex a * 16 + unhex b) # t) (unescape mode rest)
         | _ \<Rightarrow> None)
      else if (mode = encodeHost \<or> mode = encodeZone) \<and> (of_char c :: nat) < 128 \<and> shouldEscape c mode then None
      else map_option ((#) c) (unescape mode cs))"

section \<open>The parser\<close>

record url =
  url_Scheme :: string
  url_Opaque :: string
  url_User :: "(string \<times> string option) option"
  url_Host :: string
  url_Path :: string
  url_RawPath :: string
  url_ForceQuery :: bool
  url_RawQuery :: string
  url_Fragment :: string

definition empty_url :: url where
  "empty_url = \<lparr>url_Scheme = [], url_Opaque = [], url_User = None, url_Host = [], url_Path = [],
     url_RawPath = [], url_ForceQuery = False, url_RawQuery = [], url_Fragment = []\<rparr>"

text \<open>\<open>split(s, c, true)\<close> and \<open>split(s, c, false)\<close>\<close>

definition cutAt :: "string \<Rightarrow> char \<Rightarrow> string \<times> string" where
  "cutAt s c = (case IndexByte s c of None \<Rightarrow> (s, []) | Some i \<Rightarrow> (take i s, drop (Suc i) s))"

definition splitBefore :: "string \<Rightarrow> char \<Rightarrow> string \<times> string" where
  "splitBefore s c = (case IndexByte s c of None \<Rightarrow> (s, []) | Some i \<Rightarrow> (take i s, drop i s))"

definition is_ctl :: "char \<Rightarrow> bool" where
  "is_ctl c \<longleftrightarrow> (of_char c :: nat) < 32 \<or> c = CHR 0x7F"

text \<open>\<open>getscheme\<close>: the loop at index \<open>i\<close> of \<open>raw\<close>, with \<open>rest\<close> still to be read.\<close>

fun getscheme_loop :: "string \<Rightarrow> nat \<Rightarrow> string \<Rightarrow> (string \<times> string) option" where
  "getscheme_loop raw i [] = Some ([], raw)"
| "getscheme_loop raw i (c # cs) =
     (if is_alpha c then getscheme_loop raw (Suc i) cs
      else if is_digit c \<or> c \<in> set [CHR ''+'', CHR ''-'', CHR ''.''] then
        (if i = 0 then Some ([], raw) else getscheme_loop raw (Suc i) cs)
      else if c = CHR '':'' then
        (if i = 0 then None else Some (take i raw, cs))
      else Some ([], raw))"

definition validOptionalPort :: "string \<Rightarrow> bool" where
  "validOptionalPort p = (case p of [] \<Rightarrow> True | c # cs \<Rightarrow> c = CHR '':'' \<and> list_all is_digit cs)"

definition validUserinfo :: "string \<Rightarrow> bool" where
  "validUserinfo s = list_all (\<lambda>c. is_alnum c \<or>
     c \<in> set [CHR ''-'', CHR ''.'', CHR ''_'', CHR '':'', CHR ''~'', CHR ''!'', CHR ''$'', CHR ''&'', CHR 0x27,
              CHR ''('', CHR '')'', CHR ''*'', CHR ''+'', CHR '','', CHR '';'', CHR ''='', CHR ''%'', CHR ''@'']) s"

text \<open>The index of the first \<open>%25\<close> (a zone separator) in a bracketed host.\<close>

fun zone_index :: "string \<Rightarrow> nat option" where
  "zone_index s = (case s of [] \<Rightarrow> None
     | _ # t \<Rightarrow> if HasPrefix s ''%25'' then Some 0 else map_option Suc (zone_index t))"

declare zone_index.simps [simp del]

definition parseHost :: "string \<Rightarrow> string option" where
  "parseHost host =
     (if HasPrefix host ''['' then
        (case LastIndexByte host CHR '']'' of
           None \<Rightarrow> None
         | Some i \<Rightarrow>
             if \<not> validOptionalPort (drop (Suc i) host) then None
             else (case zone_index (take i host) of
                     Some z \<Rightarrow>
                       (case (unescape encodeHost (take z host),
                              unescape encodeZone (drop z (take i host)),
                              unescape encodeHost (drop i host)) of
                          (Some h1, Some h2, Some h3) \<Rightarrow> Some (h1 @ h2 @ h3)
                        | _ \<Rightarrow> None)
                   | None \<Rightarrow> unescape encodeHost host))
      else (case LastIndexByte host CHR '':'' of
              Some i \<Rightarrow> if validOptionalPort (drop i host) then unescape encodeHost host else None
            | None \<Rightarrow> unescape encodeHost host))"

definition parseUser :: "string \<Rightarrow> (string \<times> string option) option" where
  "parseUser userinfo =
     (if \<not> validUserinfo userinfo then None
      else case IndexByte userinfo CHR '':'' of
        None \<Rightarrow> map_option (\<lambda>u. (u, None)) (unescape encodeUserPassword userinfo)
      | Some i \<Rightarrow>
          (case (unescape encodeUserPassword (take i userinfo), unescape encodeUserPassword (drop (Suc i) userinfo)) of
             (Some u, Some p) \<Rightarrow> Some (u, Some p)
           | _ \<Rightarrow> None))"

definition parseAuthority :: "string \<Rightarrow> ((string \<times> string option) option \<times> string) option" where
  "parseAuthority authority =
     (case LastIndexByte authority CHR ''@'' of
        None \<Rightarrow> map_option (\<lambda>h. (None, h)) (parseHost authority)
      | Some i \<Rightarrow>
          (case parseHost (drop (Suc i) authority) of
             None \<Rightarrow> None
           | Some h \<Rightarrow> map_option (\<lambda>u. (Some u, h)) (parseUser (take i authority))))"

definition setPath :: "url \<Rightarrow> string \<Rightarrow> url option" where
  "setPath u p = map_option
     (\<lambda>path. u\<lparr>url_Path := path, url_RawPath := (if p = escape encodePath path then [] else p)\<rparr>)
     (unescape encodePath p)"

definition has_colon_first_segment :: "string \<Rightarrow> bool" where
  "has_colon_first_segment rest =
     (case IndexByte rest CHR '':'' of
        None \<Rightarrow> False
      | Some colon \<Rightarrow> (case IndexByte rest CHR ''/'' of None \<Rightarrow> True | Some slash \<Rightarrow> colon < slash))"

text \<open>\<open>parse(rawurl, false)\<close>, on a string whose fragment has been cut off.\<close>

definition parse_hier :: "url \<Rightarrow> string \<Rightarrow> url option" where
  "parse_hier u rest =
     (if (url_Scheme u \<noteq> [] \<or> \<not> HasPrefix rest ''///'') \<and> HasPrefix rest ''//'' then
        (let (authority, rest') = splitBefore (drop 2 rest) CHR ''/''
         in case parseAuthority authority of
              None \<Rightarrow> None
            | Some (usr, host) \<Rightarrow> setPath (u\<lparr>url_User := usr, url_Host := host\<rparr>) rest')
      else setPath u rest)"

definition parse :: "string \<Rightarrow> url option" where
  "parse raw =
     (if list_ex is_ctl raw then None
      else if raw = ''*'' then Some (empty_url\<lparr>url_Path := ''*''\<rparr>)
      else case getscheme_loop raw 0 raw of
        None \<Rightarrow> None
      | Some (scheme0, rest0) \<Rightarrow>
          (let scheme = ToLower scheme0;
               force = HasSuffix rest0 ''?'' \<and> count_list rest0 CHR ''?'' = 1;
               (rest, query) = (if force then (butlast rest0, []) else cutAt rest0 CHR ''?'');
               u = empty_url\<lparr>url_Scheme := scheme, url_ForceQuery := force, url_RawQuery := query\<rparr>
           in if \<not> HasPrefix rest ''/'' \<and> scheme \<noteq> [] then Some (u\<lparr>url_Opaque := rest\<rparr>)
              else if \<not> HasPrefix rest ''/'' \<and> has_colon_first_segment rest then None
              else parse_hier u rest))"

definition url_Parse :: "string \<Rightarrow> go_error + url" where
  "url_Parse raw =
     (let (u, frag) = cutAt raw CHR ''#''
      in case parse u of
           None \<Rightarrow> Inl (URLError u)
         | Some v \<Rightarrow>
             if frag = [] then Inr v
             else (case unescape encodeFragment frag of
                     None \<Rightarrow> Inl (URLError raw)
                   | Some f \<Rightarrow> Inr (v\<lparr>url_Fragment := f\<rparr>)))"

section \<open>Web URLs without escapes\<close>

text \<open>
  The shape of URL users write for a project: http or https, a host with an optional
  port, a path of letters, digits and the unreserved marks.  On these, the parser puts
  everything after the authority into \<open>Path\<close>, unchanged.
\<close>

definition plain_char :: "char \<Rightarrow> bool" where
  "plain_char c \<longleftrightarrow> is_alnum c \<or> c \<in> set [CHR ''-'', CHR ''_'', CHR ''.'', CHR ''~'']"

definition plain_path :: "string \<Rightarrow> bool" where
  "plain_path p \<longleftrightarrow> list_all (\<lambda>c. plain_char c \<or> c = CHR ''/'') p"

definition plain_authority :: "string \<Rightarrow> bool" where
  "plain_authority a =
     (case IndexByte a CHR '':'' of
        None \<Rightarrow> list_all plain_char a
      | Some i \<Rightarrow> list_all plain_char (take i a) \<and> list_all is_digit (drop (Suc i) a))"

lemma is_alpha_code: "is_alpha c \<longleftrightarrow> (97 \<le> (of_char c :: nat) \<and> (of_char c :: nat) \<le> 122) \<or> (65 \<le> (of_char c :: nat) \<and> (of_char c :: nat) \<le> 90)"
  by (auto simp: is_alpha_def less_eq_char_def)

lemma of_char_ne: "(of_char c :: nat) \<noteq> of_char d \<Longrightarrow> c \<noteq> d"
  by auto

lemma plain_char_not:
  assumes "plain_char c"
  shows "c \<noteq> CHR ''%''" and "c \<noteq> CHR ''#''" and "c \<noteq> CHR ''?''" and "c \<noteq> CHR ''@''"
    and "c \<noteq> CHR ''/''" and "c \<noteq> CHR ''['' " and "c \<noteq> CHR '':''" and "\<not> is_ctl c"
  using assms by (auto simp: plain_char_def is_alnum_def is_alpha_code is_digit_code is_ctl_def)

lemma digit_not:
  assumes "is_digit c"
  shows "c \<noteq> CHR ''%''" and "c \<noteq> CHR ''#''" and "c \<noteq> CHR ''?''" and "c \<noteq> CHR ''@''"
    and "c \<noteq> CHR ''/''" and "c \<noteq> CHR ''['' " and "c \<noteq> CHR '':''" and "\<not> is_ctl c"
  using assms by (auto simp: is_digit_code is_ctl_def)

lemma mark_shouldEscape:
  "c \<in> set [CHR ''-'', CHR ''_'', CHR ''.'', CHR ''~''] \<Longrightarrow> \<not> shouldEscape c m"
  by (simp add: shouldEscape_def)

lemma plain_char_shouldEscape: "plain_char c \<Longrightarrow> \<not> shouldEscape c m"
  using mark_shouldEscape [of c m] by (cases "is_alnum c") (simp_all add: plain_char_def shouldEscape_def)

lemma digit_shouldEscape: "is_digit c \<Longrightarrow> \<not> shouldEscape c m"
  by (simp add: shouldEscape_def is_alnum_def)

lemma unescape_plain:
  "list_all (\<lambda>c. c \<noteq> CHR ''%'' \<and> \<not> ((m = encodeHost \<or> m = encodeZone) \<and> shouldEscape c m)) s \<Longrightarrow> unescape m s = Some s"
  by (induction s) auto

lemma escape_plain: "list_all (\<lambda>c. \<not> shouldEscape c m) s \<Longrightarrow> escape m s = s"
  by (induction s) (simp_all add: escape_def)

lemma slash_shouldEscape: "\<not> shouldEscape CHR ''/'' encodePath"
  by (simp add: shouldEscape_def is_alnum_def is_alpha_code is_digit_code)

lemma setPath_plain:
  assumes "plain_path p"
  shows "setPath u p = Some (u\<lparr>url_Path := p, url_RawPath := []\<rparr>)"
proof -
  have "unescape encodePath p = Some p"
    using assms by (intro unescape_plain) (auto simp: plain_path_def list_all_iff dest: plain_char_not(1))
  moreover have "escape encodePath p = p"
    using assms
    by (intro escape_plain) (auto simp: plain_path_def list_all_iff plain_char_shouldEscape slash_shouldEscape)
  ultimately show ?thesis by (simp add: setPath_def)
qed

text \<open>The characters of an authority of this shape.\<close>

definition authority_char :: "char \<Rightarrow> bool" where
  "authority_char c \<longleftrightarrow> plain_char c \<or> c = CHR '':''"

lemma digit_plain_char: "is_digit c \<Longrightarrow> plain_char c"
  by (simp add: plain_char_def is_alnum_def)

lemma plain_authority_split:
  assumes "plain_authority a"
  obtains h ps where "a = h @ ps" and "list_all plain_char h"
    and "ps = [] \<or> (\<exists>ds. ps = CHR '':'' # ds \<and> list_all is_digit ds)"
proof (cases "IndexByte a CHR '':''")
  case None
  with assms have "list_all plain_char a" by (simp add: plain_authority_def)
  then show ?thesis using that [of a "[]"] by simp
next
  case (Some i)
  with assms have h: "list_all plain_char (take i a)" and d: "list_all is_digit (drop (Suc i) a)"
    by (simp_all add: plain_authority_def)
  from IndexByte_length [OF Some] have "a = take i a @ CHR '':'' # drop (Suc i) a"
    by (metis id_take_nth_drop)
  then show ?thesis using that [of "take i a" "CHR '':'' # drop (Suc i) a"] h d by blast
qed

lemma plain_authority_chars: "plain_authority a \<Longrightarrow> list_all authority_char a"
  by (elim plain_authority_split)
     (auto simp: list_all_iff authority_char_def digit_plain_char)

lemma authority_char_not:
  assumes "authority_char c"
  shows "c \<noteq> CHR ''%''" and "c \<noteq> CHR ''#''" and "c \<noteq> CHR ''?''" and "c \<noteq> CHR ''@''"
    and "c \<noteq> CHR ''/''" and "c \<noteq> CHR ''['' " and "\<not> is_ctl c" and "\<not> shouldEscape c encodeHost"
  using assms
  by (auto simp: authority_char_def plain_char_def shouldEscape_def is_alnum_def is_alpha_code
      is_digit_code is_ctl_def)

lemma LastIndexByte_digits:
  assumes "list_all is_digit ds"
  shows "LastIndexByte (h @ CHR '':'' # ds) CHR '':'' = Some (length h)"
proof -
  have "CHR '':'' \<notin> set (rev ds)" using assms digit_not(7) by (auto simp: list_all_iff)
  then have "IndexByte (rev ds @ CHR '':'' # rev h) CHR '':'' = Some (length (rev ds))"
    by (rule IndexByte_Some)
  then show ?thesis by (simp add: LastIndexByte_def)
qed

lemma parseHost_plain:
  assumes "plain_authority a"
  shows "parseHost a = Some a"
proof -
  have un: "unescape encodeHost a = Some a"
    using plain_authority_chars [OF assms]
    by (intro unescape_plain) (auto simp: list_all_iff dest: authority_char_not(1,8))
  have br: "\<not> HasPrefix a ''[''"
    using plain_authority_chars [OF assms] authority_char_not(6)
    by (cases a) (auto simp: HasPrefix_def)
  from assms obtain h ps where a: "a = h @ ps" and h: "list_all plain_char h"
    and ps: "ps = [] \<or> (\<exists>ds. ps = CHR '':'' # ds \<and> list_all is_digit ds)"
    by (rule plain_authority_split)
  from ps show ?thesis
  proof
    assume "ps = []"
    with a h have "LastIndexByte a CHR '':'' = None"
      using plain_char_not(7) by (auto simp: LastIndexByte_None list_all_iff)
    with br un show ?thesis by (simp add: parseHost_def)
  next
    assume "\<exists>ds. ps = CHR '':'' # ds \<and> list_all is_digit ds"
    then obtain ds where ds: "ps = CHR '':'' # ds" "list_all is_digit ds" by blast
    with a LastIndexByte_digits [of ds h] have "LastIndexByte a CHR '':'' = Some (length h)" by simp
    moreover have "validOptionalPort (drop (length h) a)" using a ds by (simp add: validOptionalPort_def)
    ultimately show ?thesis using br un by (simp add: parseHost_def)
  qed
qed

lemma parseAuthority_plain:
  assumes "plain_authority a"
  shows "parseAuthority a = Some (None, a)"
proof -
  have "LastIndexByte a CHR ''@'' = None"
    using plain_authority_chars [OF assms] authority_char_not(4) by (auto simp: LastIndexByte_None list_all_iff)
  then show ?thesis by (simp add: parseAuthority_def parseHost_plain [OF assms])
qed

lemma splitBefore_hit: "c \<notin> set p \<Longrightarrow> splitBefore (p @ c # q) c = (p, c # q)"
  by (simp add: splitBefore_def IndexByte_Some)

lemma cutAt_none: "c \<notin> set p \<Longrightarrow> cutAt p c = (p, [])"
  by (simp add: cutAt_def IndexByte_None [THEN iffD2])

definition web_scheme :: "string \<Rightarrow> bool" where
  "web_scheme s \<longleftrightarrow> s = ''http'' \<or> s = ''https''"

lemma getscheme_web:
  "web_scheme sch \<Longrightarrow> getscheme_loop (sch @ CHR '':'' # r) 0 (sch @ CHR '':'' # r) = Some (sch, r)"
  by (auto simp: web_scheme_def is_alpha_code is_digit_code)

lemma ToLower_web: "web_scheme sch \<Longrightarrow> ToLower sch = sch"
  by (auto simp: web_scheme_def ToLower_def lower_char_def less_eq_char_def)

definition plain_url :: "string \<Rightarrow> string \<Rightarrow> string \<Rightarrow> url" where
  "plain_url sch a p = empty_url\<lparr>url_Scheme := sch, url_Host := a, url_Path := p\<rparr>"

lemma plain_path_char:
  "plain_path p \<Longrightarrow> c \<in> set p \<Longrightarrow> c \<noteq> CHR ''#'' \<and> c \<noteq> CHR ''?'' \<and> \<not> is_ctl c"
proof -
  assume "plain_path p" and "c \<in> set p"
  then consider "plain_char c" | "c = CHR ''/''" by (auto simp: plain_path_def list_all_iff)
  then show ?thesis
    by cases (use plain_char_not [of c] in blast, simp add: is_ctl_def)
qed

lemma web_scheme_char:
  "web_scheme sch \<Longrightarrow> c \<in> set sch \<Longrightarrow> c \<noteq> CHR ''#'' \<and> c \<noteq> CHR ''?'' \<and> \<not> is_ctl c"
  by (auto simp: web_scheme_def is_ctl_def)

text \<open>No byte of such a URL is a fragment mark, a query mark or a control character.\<close>

lemma web_url_char:
  assumes "web_scheme sch" and "plain_authority a" and "plain_path p" and "hd (p @ ''/'') = CHR ''/''"
    and "c \<in> set (sch @ ''://'' @ a @ p)"
  shows "c \<noteq> CHR ''#'' \<and> c \<noteq> CHR ''?'' \<and> \<not> is_ctl c"
proof -
  from assms(5) consider "c \<in> set sch" | "c \<in> set ''://''" | "c \<in> set a" | "c \<in> set p" by auto
  then show ?thesis
  proof cases
    case 2
    then show ?thesis by (auto simp: is_ctl_def)
  next
    case 3
    then show ?thesis using plain_authority_chars [OF assms(2)] authority_char_not
      by (auto simp: list_all_iff)
  qed (use assms web_scheme_char plain_path_char in blast)+
qed

text \<open>The path of a web URL is either empty or starts with a slash.\<close>

definition rooted :: "string \<Rightarrow> bool" where
  "rooted p \<longleftrightarrow> (p = [] \<or> hd p = CHR ''/'')"

lemma splitBefore_rooted:
  "CHR ''/'' \<notin> set a \<Longrightarrow> rooted p \<Longrightarrow> splitBefore (a @ p) CHR ''/'' = (a, p)"
  using splitBefore_hit [of "CHR ''/''" a "tl p"]
  by (cases p) (auto simp: rooted_def splitBefore_def IndexByte_None [THEN iffD2])

lemma parse_hier_plain:
  assumes "plain_authority a" and "plain_path p" and "rooted p" and "url_Scheme u \<noteq> []"
  shows "parse_hier u (''//'' @ a @ p) = Some (u\<lparr>url_User := None, url_Host := a, url_Path := p, url_RawPath := []\<rparr>)"
proof -
  have "CHR ''/'' \<notin> set a"
    using plain_authority_chars [OF assms(1)] authority_char_not(5) by (auto simp: list_all_iff)
  then have "splitBefore (a @ p) CHR ''/'' = (a, p)" using assms(3) by (rule splitBefore_rooted)
  then show ?thesis
    using assms by (simp add: parse_hier_def parseAuthority_plain setPath_plain HasPrefix_def)
qed

lemma url_Parse_plain:
  assumes "web_scheme sch" and "plain_authority a" and "plain_path p" and "rooted p"
  shows "url_Parse (sch @ ''://'' @ a @ p) = Inr (plain_url sch a p)"
proof -
  let ?u = "sch @ ''://'' @ a @ p"
  let ?r = "''//'' @ a @ p"
  have chars: "\<And>c. c \<in> set ?u \<Longrightarrow> c \<noteq> CHR ''#'' \<and> c \<noteq> CHR ''?'' \<and> \<not> is_ctl c"
    using web_url_char [OF assms(1-3)] assms(4) by (cases p) (auto simp: rooted_def)
  have frag: "cutAt ?u CHR ''#'' = (?u, [])" using chars by (intro cutAt_none) blast
  have ctl: "\<not> list_ex is_ctl ?u" using chars by (auto simp: list_ex_iff)
  have star: "?u \<noteq> ''*''" using assms(1) by (auto simp: web_scheme_def)
  have sch: "getscheme_loop ?u 0 ?u = Some (sch, ?r)" using getscheme_web [OF assms(1), of ?r] by simp
  have q: "CHR ''?'' \<notin> set ?r" using chars by auto
  then have force: "count_list a CHR ''?'' = 0" "count_list p CHR ''?'' = 0"
    by (auto simp: count_list_0_iff)
  from q have cut: "cutAt ?r CHR ''?'' = (?r, [])" by (rule cutAt_none)
  have "sch \<noteq> []" using assms(1) by (auto simp: web_scheme_def)
  then have hier: "parse_hier (empty_url\<lparr>url_Scheme := sch, url_ForceQuery := False, url_RawQuery := []\<rparr>) ?r
      = Some (plain_url sch a p)"
    using parse_hier_plain [OF assms(2-4), of "empty_url\<lparr>url_Scheme := sch, url_ForceQuery := False, url_RawQuery := []\<rparr>"]
    by (simp add: plain_url_def empty_url_def)
  have "parse ?u = Some (plain_url sch a p)"
    unfolding parse_def using ctl star sch force cut hier ToLower_web [OF assms(1)]
    by (simp add: Let_def HasPrefix_def)
  with frag show ?thesis by (simp add: url_Parse_def)
qed

lemma plain_url_Path [simp]: "url_Path (plain_url sch a p) = p"
  by (simp add: plain_url_def)

end
