(* ===== verification/World.thy ===== *)
theory World
  imports Resources GoURL
begin

text \<open>
  What the controller acts on.  Everything outside the process (the Kubernetes API
  server, the dynamic client, the GitLab server) is an \<open>env\<close>: for each kind of request
  a function from the history of all requests so far, the present one last, to the
  response.  Nothing else is assumed of these services, so a theorem for all \<open>env\<close>
  covers every sequence of answers, failures and concurrent changes they can show.

  The state of a worker is the deep copy of the source it works on, the informer's cache
  (which the lister hands out pointers into), the requests issued, the events recorded
  and the clock.
\<close>

section \<open>The GitLab client\<close>

record projectHookOptions =
  accessToken :: string
  secretToken :: string
  project :: string
  webhookID :: string
  hook_url :: string
  PushEvents :: bool
  IssuesEvents :: bool
  ConfidentialIssuesEvents :: bool
  MergeRequestsEvents :: bool
  TagPushEvents :: bool
  NoteEvents :: bool
  JobEvents :: bool
  PipelineEvents :: bool
  WikiPageEvents :: bool
  EnableSSLVerification :: bool

definition empty_hook_options :: projectHookOptions where
  "empty_hook_options = \<lparr>accessToken = [], secretToken = [], project = [], webhookID = [], hook_url = [],
     PushEvents = False, IssuesEvents = False, ConfidentialIssuesEvents = False, MergeRequestsEvents = False,
     TagPushEvents = False, NoteEvents = False, JobEvents = False, PipelineEvents = False,
     WikiPageEvents = False, EnableSSLVerification = False\<rparr>"

record gitlab_client =
  gc_token :: string
  gc_base :: url

record AddProjectHookOptions =
  ah_URL :: string
  ah_PushEvents :: bool
  ah_IssuesEvents :: bool
  ah_ConfidentialIssuesEvents :: bool
  ah_MergeRequestsEvents :: bool
  ah_TagPushEvents :: bool
  ah_NoteEvents :: bool
  ah_JobEvents :: bool
  ah_PipelineEvents :: bool
  ah_WikiPageEvents :: bool
  ah_Token :: string
  ah_EnableSSLVerification :: bool

text \<open>A hook as GitLab reports it; its ID is a Go \<open>int\<close>.\<close>

record ProjectHook =
  hook_ID :: "64 word"

section \<open>Requests and responses\<close>

datatype request =
    SecretGet string string
  | DynamicGet GroupVersionResource string string
  | DeploymentList string string
  | DeploymentCreate string Deployment
  | ServiceCreate string Service
  | ServiceList string
  | ListHooks gitlab_client string
  | AddHook gitlab_client string AddProjectHookOptions
  | DeleteHook gitlab_client string int
  | UpdateStatus string GitLabSource
  | Update string GitLabSource

type_synonym history = "request list"

record env =
  env_SecretGet :: "history \<Rightarrow> go_error + Secret"
  env_DynamicGet :: "history \<Rightarrow> go_error + Unstructured"
  env_DeploymentList :: "history \<Rightarrow> go_error + Deployment list"
  env_DeploymentCreate :: "history \<Rightarrow> go_error + unit"
  env_ServiceCreate :: "history \<Rightarrow> go_error + unit"
  env_ServiceList :: "history \<Rightarrow> go_error + Service list"
  env_ListHooks :: "history \<Rightarrow> go_error + ProjectHook list"
  env_AddHook :: "history \<Rightarrow> go_error + ProjectHook"
  env_DeleteHook :: "history \<Rightarrow> go_error + unit"
  env_UpdateStatus :: "history \<Rightarrow> go_error + unit"
  env_Update :: "history \<Rightarrow> go_error + unit"

record event =
  ev_type :: string
  ev_reason :: string
  ev_format :: string
  ev_args :: "string list"

record rstate =
  st_src :: GitLabSource
  st_cache :: "string \<rightharpoonup> GitLabSource"
  st_trace :: history
  st_events :: "event list"
  st_clock :: clock

type_synonym 'a act = "(rstate, 'a) go"

definition issue :: "request \<Rightarrow> (history \<Rightarrow> go_error + 'a) \<Rightarrow> 'a act" where
  "issue r resp = (\<lambda>s. let h = st_trace s @ [r] in liftG (resp h) (s\<lparr>st_trace := h\<rparr>))"

text \<open>\<open>recorder.Event\<close> and \<open>recorder.Eventf\<close> (arguments as texts, the format as written).\<close>

definition Eventf :: "string \<Rightarrow> string \<Rightarrow> string \<Rightarrow> string list \<Rightarrow> unit act" where
  "Eventf typ rsn fmt args = modG (\<lambda>s. s\<lparr>st_events := st_events s @
     [\<lparr>ev_type = typ, ev_reason = rsn, ev_format = fmt, ev_args = args\<rparr>]\<rparr>)"

text \<open>A condition operation on the status of the working copy.\<close>

definition onStatus :: "(GitLabSourceStatus \<times> clock \<Rightarrow> GitLabSourceStatus \<times> clock) \<Rightarrow> unit act" where
  "onStatus f = modG (\<lambda>s. let (st', clk') = f (Status (st_src s), st_clock s)
     in s\<lparr>st_src := (st_src s)\<lparr>Status := st'\<rparr>, st_clock := clk'\<rparr>)"

lemma wp_issue [wp_simps]:
  "wpG (issue r resp) Q E X s =
     (case resp (st_trace s @ [r]) of
        Inl e \<Rightarrow> E e (s\<lparr>st_trace := st_trace s @ [r]\<rparr>)
      | Inr v \<Rightarrow> Q v (s\<lparr>st_trace := st_trace s @ [r]\<rparr>))"
  by (simp add: issue_def Let_def wpG_def liftG_def failG_def retG_def split: sum.splits)

lemma wp_Eventf [wp_simps]:
  "wpG (Eventf typ rsn fmt args) Q E X s =
     Q () (s\<lparr>st_events := st_events s @ [\<lparr>ev_type = typ, ev_reason = rsn, ev_format = fmt, ev_args = args\<rparr>]\<rparr>)"
  by (simp add: Eventf_def wp_simps)

lemma wp_onStatus [wp_simps]:
  "wpG (onStatus f) Q E X s =
     Q () (s\<lparr>st_src := (st_src s)\<lparr>Status := fst (f (Status (st_src s), st_clock s))\<rparr>,
             st_clock := snd (f (Status (st_src s), st_clock s))\<rparr>)"
  by (simp add: onStatus_def wp_simps split_def Let_def)

lemma keeps_issue [keeps_intro]:
  "(\<And>s. I s \<Longrightarrow> I (s\<lparr>st_trace := st_trace s @ [r]\<rparr>)) \<Longrightarrow> keeps I (issue r resp)"
  by (simp add: keeps_def issue_def Let_def liftG_def failG_def retG_def split: sum.splits)

lemma keeps_Eventf [keeps_intro]:
  "(\<And>s. I s \<Longrightarrow> I (s\<lparr>st_events := st_events s @ [\<lparr>ev_type = typ, ev_reason = rsn, ev_format = fmt, ev_args = args\<rparr>]\<rparr>))
    \<Longrightarrow> keeps I (Eventf typ rsn fmt args)"
  unfolding Eventf_def by (intro keeps_intro)

lemma keeps_onStatus [keeps_intro]:
  "(\<And>s st clk. I s \<Longrightarrow> I (s\<lparr>st_src := (st_src s)\<lparr>Status := st\<rparr>, st_clock := clk\<rparr>)) \<Longrightarrow> keeps I (onStatus f)"
  unfolding onStatus_def by (intro keeps_intro) (simp split: prod.splits)

section \<open>Predicates on histories\<close>

text \<open>Requests that change something outside the process.\<close>

fun mutating :: "request \<Rightarrow> bool" where
  "mutating (SecretGet _ _) = False"
| "mutating (DynamicGet _ _ _) = False"
| "mutating (DeploymentList _ _) = False"
| "mutating (ServiceList _) = False"
| "mutating (ListHooks _ _) = False"
| "mutating _ = True"

fun is_AddHook :: "request \<Rightarrow> bool" where
  "is_AddHook (AddHook _ _ _) = True"
| "is_AddHook _ = False"

fun is_DeleteHook :: "request \<Rightarrow> bool" where
  "is_DeleteHook (DeleteHook _ _ _) = True"
| "is_DeleteHook _ = False"

fun is_hook_request :: "request \<Rightarrow> bool" where
  "is_hook_request (ListHooks _ _) = True"
| "is_hook_request (AddHook _ _ _) = True"
| "is_hook_request (DeleteHook _ _ _) = True"
| "is_hook_request _ = False"

fun is_UpdateStatus :: "request \<Rightarrow> bool" where
  "is_UpdateStatus (UpdateStatus _ _) = True"
| "is_UpdateStatus _ = False"

fun is_Update :: "request \<Rightarrow> bool" where
  "is_Update (Update _ _) = True"
| "is_Update _ = False"

definition count :: "('a \<Rightarrow> bool) \<Rightarrow> 'a list \<Rightarrow> nat" where
  "count p xs = length (filter p xs)"

lemma count_Nil [simp]: "count p [] = 0"
  and count_Cons [simp]: "count p (x # xs) = (if p x then Suc (count p xs) else count p xs)"
  and count_append [simp]: "count p (xs @ ys) = count p xs + count p ys"
  by (simp_all add: count_def)

end
