(* ===== verification/WebhookClient.thy ===== *)
theory WebhookClient
  imports World
begin

text \<open>
  \<open>pkg/reconciler/webhook_client.go\<close>: the interface \<open>webhookClient\<close> the reconciler uses
  to register and remove hooks, and \<open>gitLabWebhookClient\<close>, its implementation over
  go-gitlab.  The locale \<open>webhook_client\<close> states what the reconciler relies on; the
  implementation interprets it.
\<close>

section \<open>The go-gitlab client\<close>

definition apiVersionPath :: string where "apiVersionPath = ''api/v4/''"
definition defaultBaseURL :: string where "defaultBaseURL = ''https://gitlab.com/''"

text \<open>
  \<open>Client.SetBaseURL\<close>: the new base URL, or an error, in which case the client keeps the
  one it has.
\<close>

definition SetBaseURL :: "string \<Rightarrow> gitlab_client \<Rightarrow> go_error + gitlab_client" where
  "SetBaseURL urlStr c =
     (let s = (if HasSuffix urlStr ''/'' then urlStr else urlStr @ ''/'')
      in case url_Parse s of
           Inl e \<Rightarrow> Inl e
         | Inr u \<Rightarrow> Inr (c\<lparr>gc_base := (if HasSuffix (url_Path u) apiVersionPath then u
                                       else u\<lparr>url_Path := url_Path u @ apiVersionPath\<rparr>)\<rparr>))"

definition NewClient :: "string \<Rightarrow> gitlab_client" where
  "NewClient token =
     (let c = \<lparr>gc_token = token, gc_base = empty_url\<rparr>
      in case SetBaseURL defaultBaseURL c of Inl _ \<Rightarrow> c | Inr c' \<Rightarrow> c')"

text \<open>\<open>glClient := gitlab.NewClient(nil, token); glClient.SetBaseURL(baseURL)\<close>, the error discarded.\<close>

definition make_client :: "string \<Rightarrow> string \<Rightarrow> gitlab_client" where
  "make_client token baseURL =
     (let c = NewClient token in case SetBaseURL baseURL c of Inl _ \<Rightarrow> c | Inr c' \<Rightarrow> c')"

section \<open>The implementation\<close>

definition hook_options :: "projectHookOptions \<Rightarrow> AddProjectHookOptions" where
  "hook_options o' =
     \<lparr>ah_URL = hook_url o', ah_PushEvents = PushEvents o', ah_IssuesEvents = IssuesEvents o',
      ah_ConfidentialIssuesEvents = ConfidentialIssuesEvents o', ah_MergeRequestsEvents = MergeRequestsEvents o',
      ah_TagPushEvents = TagPushEvents o', ah_NoteEvents = NoteEvents o', ah_JobEvents = JobEvents o',
      ah_PipelineEvents = PipelineEvents o', ah_WikiPageEvents = WikiPageEvents o',
      ah_Token = secretToken o', ah_EnableSSLVerification = EnableSSLVerification o'\<rparr>"

text \<open>The second half of \<open>Create\<close>: add a hook and return its ID.\<close>

definition addHook :: "env \<Rightarrow> gitlab_client \<Rightarrow> projectHookOptions \<Rightarrow> string act" where
  "addHook env c o' =
     onErr (issue (AddHook c (project o') (hook_options o')) (env_AddHook env))
       (\<lambda>e. failG (PlainError (''Failed to add webhook to the project:'' @ project o' @ '' due to '' @ err_text e)))
       (\<lambda>hook. retG (Itoa (sint (hook_ID hook))))"

definition Create :: "env \<Rightarrow> projectHookOptions \<Rightarrow> string \<Rightarrow> string act" where
  "Create env o' baseURL =
     (let c = make_client (accessToken o') baseURL
      in if webhookID o' \<noteq> [] then
           (case Atoi (webhookID o') of
              Inl e \<Rightarrow> failG (PlainError (''failed to convert hook id to int: '' @ err_text e))
            | Inr hookID \<Rightarrow>
                onErr (issue (ListHooks c (project o')) (env_ListHooks env))
                  (\<lambda>e. failG (PlainError (''Failed to list project hooks for project:'' @ project o' @ '' due to'' @ err_text e)))
                  (\<lambda>projhooks. if list_ex (\<lambda>hook. sint (hook_ID hook) = hookID) projhooks
                     then retG (webhookID o')
                     else addHook env c o'))
         else addHook env c o')"

text \<open>The loop of \<open>Delete\<close> over the listed hooks.\<close>

fun deleteLoop :: "env \<Rightarrow> gitlab_client \<Rightarrow> projectHookOptions \<Rightarrow> int \<Rightarrow> ProjectHook list \<Rightarrow> unit act" where
  "deleteLoop env c o' hookID [] = retG ()"
| "deleteLoop env c o' hookID (hook # hooks) =
     (if sint (hook_ID hook) = hookID
      then onErr (issue (DeleteHook c (project o') hookID) (env_DeleteHook env))
             (\<lambda>e. failG (PlainError (''Failed to delete project hook: '' @ err_text e)))
             (\<lambda>_. deleteLoop env c o' hookID hooks)
      else deleteLoop env c o' hookID hooks)"

definition DeleteWebhook :: "env \<Rightarrow> projectHookOptions \<Rightarrow> string \<Rightarrow> unit act" where
  "DeleteWebhook env o' baseURL =
     (if webhookID o' \<noteq> [] then
        (case Atoi (webhookID o') of
           Inl e \<Rightarrow> failG (PlainError (''failed to convert hook id to int: '' @ err_text e))
         | Inr hookID \<Rightarrow>
             (let c = make_client (accessToken o') baseURL
              in onErr (issue (ListHooks c (project o')) (env_ListHooks env))
                   (\<lambda>e. failG (PlainError (''Failed to list project hooks for project: '' @ project o')))
                   (\<lambda>projhooks. deleteLoop env c o' hookID projhooks)))
      else retG ())"

section \<open>The interface\<close>

record webhookClient =
  wc_Create :: "projectHookOptions \<Rightarrow> string \<Rightarrow> string act"
  wc_Delete :: "projectHookOptions \<Rightarrow> string \<Rightarrow> unit act"

definition gitLabWebhookClient :: "env \<Rightarrow> webhookClient" where
  "gitLabWebhookClient env = \<lparr>wc_Create = Create env, wc_Delete = DeleteWebhook env\<rparr>"

text \<open>Two states that differ at most in hook requests issued in between.\<close>

definition hook_step :: "(request \<Rightarrow> bool) \<Rightarrow> rstate \<Rightarrow> rstate \<Rightarrow> bool" where
  "hook_step p s t \<longleftrightarrow> (\<exists>rs. list_all p rs \<and> t = s\<lparr>st_trace := st_trace s @ rs\<rparr>)"

text \<open>The requests creating and deleting the hook of given options may issue.\<close>

definition create_request :: "projectHookOptions \<Rightarrow> string \<Rightarrow> request \<Rightarrow> bool" where
  "create_request o' base r \<longleftrightarrow>
     (let c = make_client (accessToken o') base
      in r = ListHooks c (project o') \<or> r = AddHook c (project o') (hook_options o'))"

definition delete_request :: "projectHookOptions \<Rightarrow> string \<Rightarrow> request \<Rightarrow> bool" where
  "delete_request o' base r \<longleftrightarrow>
     (let c = make_client (accessToken o') base
      in r = ListHooks c (project o')
         \<or> (\<exists>i. webhookID o' \<noteq> [] \<and> Atoi (webhookID o') = Inr i \<and> r = DeleteHook c (project o') i))"

text \<open>
  The contract: creating yields a non-empty ID, asks only for the list of hooks and for
  adding the hook of the options, at most once; deleting asks only for the list and for
  the removal of the hook whose ID is stored; neither touches anything but the GitLab
  server of the base URL, and with the access token of the options.
\<close>

locale webhook_client =
  fixes cl :: webhookClient
  assumes create_frame: "hook_step (create_request o' base) s (snd (wc_Create cl o' base s))"
    and create_once: "count is_AddHook (st_trace (snd (wc_Create cl o' base s))) \<le> Suc (count is_AddHook (st_trace s))"
    and create_id: "fst (wc_Create cl o' base s) = Ok i \<Longrightarrow> i \<noteq> []"
    and create_total: "fst (wc_Create cl o' base s) \<noteq> Panic"
    and delete_frame: "hook_step (delete_request o' base) s (snd (wc_Delete cl o' base s))"
    and delete_total: "fst (wc_Delete cl o' base s) \<noteq> Panic"
begin

lemma delete_wp: "wpG (wc_Delete cl o' base) (\<lambda>_ t. hook_step (delete_request o' base) s t)
    (\<lambda>e t. hook_step (delete_request o' base) s t) (\<lambda>t. False) s"
  using delete_frame [of o' base s] delete_total [of o' base s]
  by (auto simp: wpG_result split: outcome.split)

lemma create_contract:
  "wpG (wc_Create cl o' base)
     (\<lambda>i t. i \<noteq> [] \<and> hook_step (create_request o' base) s t \<and> count is_AddHook (st_trace t) \<le> Suc (count is_AddHook (st_trace s)))
     (\<lambda>e t. hook_step (create_request o' base) s t \<and> count is_AddHook (st_trace t) \<le> Suc (count is_AddHook (st_trace s)))
     (\<lambda>t. False) s"
  using create_frame [of o' base s] create_id [of o' base s] create_total [of o' base s] create_once [of o' base s]
  by (auto simp: wpG_result split: outcome.split)

lemma keeps_Create:
  assumes "\<And>s rs. I s \<Longrightarrow> list_all (create_request o' base) rs \<Longrightarrow> I (s\<lparr>st_trace := st_trace s @ rs\<rparr>)"
  shows "keeps I (wc_Create cl o' base)"
proof (unfold keeps_def, intro allI impI)
  fix s assume I: "I s"
  from create_frame [of o' base s] obtain rs where "list_all (create_request o' base) rs"
    and "snd (wc_Create cl o' base s) = s\<lparr>st_trace := st_trace s @ rs\<rparr>"
    by (auto simp: hook_step_def)
  with assms [OF I] show "I (snd (wc_Create cl o' base s))" by simp
qed

lemma keeps_Delete:
  assumes "\<And>s rs. I s \<Longrightarrow> list_all (delete_request o' base) rs \<Longrightarrow> I (s\<lparr>st_trace := st_trace s @ rs\<rparr>)"
  shows "keeps I (wc_Delete cl o' base)"
proof (unfold keeps_def, intro allI impI)
  fix s assume I: "I s"
  from delete_frame [of o' base s] obtain rs where "list_all (delete_request o' base) rs"
    and "snd (wc_Delete cl o' base s) = s\<lparr>st_trace := st_trace s @ rs\<rparr>"
    by (auto simp: hook_step_def)
  with assms [OF I] show "I (snd (wc_Delete cl o' base s))" by simp
qed


end

lemma hook_step_refl: "hook_step p s s"
  unfolding hook_step_def by (rule exI [of _ "[]"]) simp

lemma hook_step_mono: "hook_step p s t \<Longrightarrow> (\<And>r. p r \<Longrightarrow> q r) \<Longrightarrow> hook_step q s t"
  unfolding hook_step_def by (metis list.pred_mono_strong)

lemma hook_step_snoc: "hook_step p s t \<Longrightarrow> p r \<Longrightarrow> hook_step p s (t\<lparr>st_trace := st_trace t @ [r]\<rparr>)"
  unfolding hook_step_def by (auto intro: exI [of _ "rs @ [r]" for rs])

lemma hook_step_sel:
  "hook_step p s t \<Longrightarrow> st_src t = st_src s \<and> st_cache t = st_cache s \<and> st_events t = st_events s \<and> st_clock t = st_clock s"
  by (auto simp: hook_step_def)

lemma wp_addHook [wp_simps]:
  "wpG (addHook env c o') Q E X s =
     (let t = s\<lparr>st_trace := st_trace s @ [AddHook c (project o') (hook_options o')]\<rparr>
      in case env_AddHook env (st_trace t) of
           Inl e \<Rightarrow> E (PlainError (''Failed to add webhook to the project:'' @ project o' @ '' due to '' @ err_text e)) t
         | Inr hook \<Rightarrow> Q (Itoa (sint (hook_ID hook))) t)"
  by (simp add: addHook_def wp_simps Let_def split: sum.splits)


section \<open>The implementation meets the contract\<close>

lemma hook_step_add:
  "p (AddHook c pr os) \<Longrightarrow> hook_step p s (s\<lparr>st_trace := st_trace s @ [AddHook c pr os]\<rparr>)"
  by (rule hook_step_snoc [OF hook_step_refl])

lemma hook_step_trans: "hook_step p s t \<Longrightarrow> hook_step p t u \<Longrightarrow> hook_step p s u"
  unfolding hook_step_def by (auto intro: exI [of _ "rs @ rs'" for rs rs'])

lemma hook_step_list:
  "p r \<Longrightarrow> hook_step p (s\<lparr>st_trace := st_trace s @ [r]\<rparr>) t \<Longrightarrow> hook_step p s t"
  by (rule hook_step_trans [OF hook_step_snoc [OF hook_step_refl]])

lemma request_kinds [simp]:
  "create_request o' base (ListHooks (make_client (accessToken o') base) (project o'))"
  "create_request o' base (AddHook (make_client (accessToken o') base) (project o') (hook_options o'))"
  "\<not> create_request o' base (DeleteHook c pr i)"
  "delete_request o' base (ListHooks (make_client (accessToken o') base) (project o'))"
  "\<not> delete_request o' base (AddHook c pr os)"
  by (simp_all add: create_request_def delete_request_def Let_def)

text \<open>
  What \<open>Create\<close> does from a state: nothing if the stored ID is no number; otherwise it
  lists the hooks when there is a stored ID, and adds one hook unless the stored one is
  listed.
\<close>

lemma wp_Create:
  "wpG (Create env o' base) Q E X s =
     (let c = make_client (accessToken o') base
      in if webhookID o' = [] then wpG (addHook env c o') Q E X s
         else case Atoi (webhookID o') of
           Inl e \<Rightarrow> E (PlainError (''failed to convert hook id to int: '' @ err_text e)) s
         | Inr i \<Rightarrow>
             (let t = s\<lparr>st_trace := st_trace s @ [ListHooks c (project o')]\<rparr>
              in case env_ListHooks env (st_trace t) of
                   Inl e \<Rightarrow> E (PlainError (''Failed to list project hooks for project:'' @ project o' @ '' due to'' @ err_text e)) t
                 | Inr hooks \<Rightarrow> if list_ex (\<lambda>hook. sint (hook_ID hook) = i) hooks then Q (webhookID o') t
                               else wpG (addHook env c o') Q E X t))"
  by (simp add: Create_def Let_def wp_simps del: wp_addHook split: sum.splits)

lemma addHook_contract:
  "wpG (addHook env (make_client (accessToken o') base) o')
     (\<lambda>i t. i \<noteq> [] \<and> hook_step (create_request o' base) s t \<and> count is_AddHook (st_trace t) = Suc (count is_AddHook (st_trace s)))
     (\<lambda>e t. hook_step (create_request o' base) s t \<and> count is_AddHook (st_trace t) = Suc (count is_AddHook (st_trace s)))
     (\<lambda>t. False) s"
  by (simp add: wp_addHook Let_def Itoa_not_Nil hook_step_add split: sum.split)

lemma Create_contract:
  "wpG (Create env o' base)
     (\<lambda>i t. i \<noteq> [] \<and> hook_step (create_request o' base) s t \<and> count is_AddHook (st_trace t) \<le> Suc (count is_AddHook (st_trace s)))
     (\<lambda>e t. hook_step (create_request o' base) s t \<and> count is_AddHook (st_trace t) \<le> Suc (count is_AddHook (st_trace s)))
     (\<lambda>t. False) s"
proof -
  let ?c = "make_client (accessToken o') base"
  let ?t = "s\<lparr>st_trace := st_trace s @ [ListHooks ?c (project o')]\<rparr>"
  have add: "wpG (addHook env ?c o')
     (\<lambda>i u. i \<noteq> [] \<and> hook_step (create_request o' base) t u \<and> count is_AddHook (st_trace u) \<le> Suc (count is_AddHook (st_trace t)))
     (\<lambda>e u. hook_step (create_request o' base) t u \<and> count is_AddHook (st_trace u) \<le> Suc (count is_AddHook (st_trace t)))
     (\<lambda>t. False) t" for t
    by (rule wpG_weaken [OF addHook_contract]) auto
  have st: "hook_step (create_request o' base) s ?t" by (rule hook_step_snoc [OF hook_step_refl]) simp
  have lst: "wpG (addHook env ?c o')
     (\<lambda>i u. i \<noteq> [] \<and> hook_step (create_request o' base) s u \<and> count is_AddHook (st_trace u) \<le> Suc (count is_AddHook (st_trace s)))
     (\<lambda>e u. hook_step (create_request o' base) s u \<and> count is_AddHook (st_trace u) \<le> Suc (count is_AddHook (st_trace s)))
     (\<lambda>t. False) ?t"
    by (rule wpG_weaken [OF add [of ?t]]) (auto intro: hook_step_trans [OF st])
  show ?thesis
    using add [of s] lst st
    by (simp add: wp_Create Let_def hook_step_refl del: wp_addHook split: sum.split)
qed

text \<open>
  The loop of \<open>Delete\<close> issues delete requests for the stored ID of the project only.
\<close>

lemma deleteLoop_contract:
  "wpG (deleteLoop env c o' i hooks)
     (\<lambda>_ t. \<exists>n. t = s\<lparr>st_trace := st_trace s @ replicate n (DeleteHook c (project o') i)\<rparr>
        \<and> n = count (\<lambda>h. sint (hook_ID h) = i) hooks)
     (\<lambda>e t. \<exists>n. t = s\<lparr>st_trace := st_trace s @ replicate n (DeleteHook c (project o') i)\<rparr> \<and> 0 < n
        \<and> n \<le> count (\<lambda>h. sint (hook_ID h) = i) hooks)
     (\<lambda>t. False) s"
proof (induction hooks arbitrary: s)
  case Nil
  then show ?case by (simp add: wp_simps)
next
  case (Cons h hooks)
  let ?r = "DeleteHook c (project o') i"
  let ?t = "s\<lparr>st_trace := st_trace s @ [?r]\<rparr>"
  have "wpG (deleteLoop env c o' i hooks)
     (\<lambda>_ t. \<exists>n. t = s\<lparr>st_trace := st_trace s @ replicate n ?r\<rparr> \<and> n = Suc (count (\<lambda>h. sint (hook_ID h) = i) hooks))
     (\<lambda>e t. \<exists>n. t = s\<lparr>st_trace := st_trace s @ replicate n ?r\<rparr> \<and> 0 < n \<and> n \<le> Suc (count (\<lambda>h. sint (hook_ID h) = i) hooks))
     (\<lambda>t. False) ?t"
    by (rule wpG_weaken [OF Cons.IH [of ?t]])
      (auto intro: exI [of _ "Suc n" for n])
  moreover have "\<exists>n. ?t = s\<lparr>st_trace := st_trace s @ replicate n ?r\<rparr> \<and> 0 < n \<and> n \<le> Suc (count (\<lambda>h. sint (hook_ID h) = i) hooks)"
    by (rule exI [of _ 1]) simp
  ultimately show ?case
    using Cons.IH [of s] by (simp add: wp_simps split: sum.split)
qed

lemma hook_step_replicate: "p r \<Longrightarrow> hook_step p s (s\<lparr>st_trace := st_trace s @ replicate n r\<rparr>)"
  unfolding hook_step_def by (rule exI [of _ "replicate n r"]) (simp add: list_all_iff)

lemma deleteLoop_frame:
  "webhookID o' \<noteq> [] \<Longrightarrow> Atoi (webhookID o') = Inr i \<Longrightarrow>
   wpG (deleteLoop env (make_client (accessToken o') base) o' i hooks) (\<lambda>_ t. hook_step (delete_request o' base) s t)
     (\<lambda>e t. hook_step (delete_request o' base) s t) (\<lambda>t. False) s"
  by (rule wpG_weaken [OF deleteLoop_contract])
    (auto simp: delete_request_def Let_def intro!: hook_step_replicate)

lemma wp_DeleteWebhook:
  "wpG (DeleteWebhook env o' base) Q E X s =
     (if webhookID o' = [] then Q () s
      else case Atoi (webhookID o') of
        Inl e \<Rightarrow> E (PlainError (''failed to convert hook id to int: '' @ err_text e)) s
      | Inr i \<Rightarrow>
          (let c = make_client (accessToken o') base;
               t = s\<lparr>st_trace := st_trace s @ [ListHooks c (project o')]\<rparr>
           in case env_ListHooks env (st_trace t) of
                Inl e \<Rightarrow> E (PlainError (''Failed to list project hooks for project: '' @ project o')) t
              | Inr hooks \<Rightarrow> wpG (deleteLoop env c o' i hooks) Q E X t))"
  by (simp add: DeleteWebhook_def Let_def wp_simps split: sum.splits)

lemma DeleteWebhook_contract:
  "wpG (DeleteWebhook env o' base) (\<lambda>_ t. hook_step (delete_request o' base) s t)
     (\<lambda>e t. hook_step (delete_request o' base) s t) (\<lambda>t. False) s"
proof -
  let ?c = "make_client (accessToken o') base"
  let ?t = "s\<lparr>st_trace := st_trace s @ [ListHooks ?c (project o')]\<rparr>"
  have st: "hook_step (delete_request o' base) s ?t" by (rule hook_step_snoc [OF hook_step_refl]) simp
  have "wpG (deleteLoop env ?c o' i hooks) (\<lambda>_ t. hook_step (delete_request o' base) s t)
     (\<lambda>e t. hook_step (delete_request o' base) s t) (\<lambda>t. False) ?t"
    if "webhookID o' \<noteq> []" "Atoi (webhookID o') = Inr i" for i hooks
    by (rule wpG_weaken [OF deleteLoop_frame [OF that, where s = ?t]]) (auto intro: hook_step_trans [OF st])
  then show ?thesis
    using st by (simp add: wp_DeleteWebhook Let_def hook_step_refl split: sum.split)
qed

interpretation gitlab: webhook_client "gitLabWebhookClient env" for env
proof (unfold_locales, goal_cases)
  case (1 o' base s)
  show ?case using Create_contract [of env o' base s]
    by (simp add: gitLabWebhookClient_def wpG_result split: outcome.splits)
next
  case (2 o' base s)
  show ?case using Create_contract [of env o' base s]
    by (simp add: gitLabWebhookClient_def wpG_result split: outcome.splits)
next
  case (3 o' base s i)
  then show ?case using Create_contract [of env o' base s]
    by (simp add: gitLabWebhookClient_def wpG_result)
next
  case (4 o' base s)
  show ?case using Create_contract [of env o' base s]
    by (auto simp: gitLabWebhookClient_def wpG_result)
next
  case (5 o' base s)
  show ?case using DeleteWebhook_contract [of env o' base s]
    by (simp add: gitLabWebhookClient_def wpG_result split: outcome.splits)
next
  case (6 o' base s)
  show ?case using DeleteWebhook_contract [of env o' base s]
    by (auto simp: gitLabWebhookClient_def wpG_result)
qed

end
