(* ===== verification/StringSet.thy ===== *)
theory StringSet
  imports Prelude "HOL-Library.FSet"
begin

text \<open>
  \<open>sets.String\<close> of apimachinery (\<open>k8s.io/apimachinery/pkg/util/sets/string.go\<close>), a
  \<open>map[string]struct{}\<close>: a finite set of strings.  The reconciler builds one from the
  finalizers of an object, inserts or deletes its own and writes the sorted list back.
  The interface the reconciler relies on is the locale \<open>string_set\<close>; the model of the
  package interprets it.
\<close>

type_synonym String = "string fset"

definition Insert :: "String \<Rightarrow> string list \<Rightarrow> String" where
  "Insert s items = foldl (\<lambda>s item. finsert item s) s items"

definition NewString :: "string list \<Rightarrow> String" where
  "NewString items = Insert {||} items"

definition Delete :: "String \<Rightarrow> string list \<Rightarrow> String" where
  "Delete s items = foldl (\<lambda>s item. s |-| {|item|}) s items"

definition Has :: "String \<Rightarrow> string \<Rightarrow> bool" where
  "Has s item \<longleftrightarrow> item |\<in>| s"

text \<open>The keys, in the order \<open>sort.Sort\<close> gives them.\<close>

definition List :: "String \<Rightarrow> string list" where
  "List s = sorted_list_of_fset s"

text \<open>The operations the program does not call; the order in which a map is walked is left open.\<close>

definition StringKeySet :: "(string \<times> 'v) list \<Rightarrow> String" where
  "StringKeySet theMap = foldl (\<lambda>ret keyValue. Insert ret [keyValue]) {||} (map fst theMap)"

fun HasAll :: "String \<Rightarrow> string list \<Rightarrow> bool" where
  "HasAll s [] = True"
| "HasAll s (item # items) = (if \<not> Has s item then False else HasAll s items)"

fun HasAny :: "String \<Rightarrow> string list \<Rightarrow> bool" where
  "HasAny s [] = False"
| "HasAny s (item # items) = (if Has s item then True else HasAny s items)"

text \<open>The loops over a map, for one order of its keys.\<close>

definition walk :: "string list \<Rightarrow> String \<Rightarrow> bool" where
  "walk order s \<longleftrightarrow> distinct order \<and> set order = fset s"

definition Difference :: "string list \<Rightarrow> String \<Rightarrow> String" where
  "Difference order s2 = foldl (\<lambda>result key. if \<not> Has s2 key then Insert result [key] else result) (NewString []) order"

definition Union :: "string list \<Rightarrow> string list \<Rightarrow> String" where
  "Union order1 order2 =
     foldl (\<lambda>result key. Insert result [key]) (foldl (\<lambda>result key. Insert result [key]) (NewString []) order1) order2"

definition Len :: "String \<Rightarrow> nat" where
  "Len s = fcard s"

definition Intersection :: "String \<Rightarrow> String \<Rightarrow> string list \<Rightarrow> string list \<Rightarrow> String" where
  "Intersection s1 s2 order1 order2 =
     (let (order, other) = (if Len s1 < Len s2 then (order1, s2) else (order2, s1))
      in foldl (\<lambda>result key. if Has other key then Insert result [key] else result) (NewString []) order)"

definition IsSuperset :: "String \<Rightarrow> string list \<Rightarrow> bool" where
  "IsSuperset s1 order2 = HasAll s1 order2"

definition Equal :: "String \<Rightarrow> String \<Rightarrow> string list \<Rightarrow> bool" where
  "Equal s1 s2 order2 \<longleftrightarrow> Len s1 = Len s2 \<and> IsSuperset s1 order2"

definition UnsortedList :: "string list \<Rightarrow> string list" where
  "UnsortedList order = foldl (\<lambda>res key. res @ [key]) [] order"

definition PopAny :: "String \<Rightarrow> string list \<Rightarrow> String \<times> string \<times> bool" where
  "PopAny s order = (case order of key # _ \<Rightarrow> (Delete s [key], key, True) | [] \<Rightarrow> (s, [], False))"

section \<open>The interface\<close>

locale string_set =
  fixes new :: "string list \<Rightarrow> 's"
    and ins :: "'s \<Rightarrow> string list \<Rightarrow> 's"
    and del :: "'s \<Rightarrow> string list \<Rightarrow> 's"
    and has :: "'s \<Rightarrow> string \<Rightarrow> bool"
    and lst :: "'s \<Rightarrow> string list"
  assumes has_new: "has (new xs) k \<longleftrightarrow> k \<in> set xs"
    and has_ins: "has (ins s xs) k \<longleftrightarrow> has s k \<or> k \<in> set xs"
    and has_del: "has (del s xs) k \<longleftrightarrow> has s k \<and> k \<notin> set xs"
    and set_lst: "k \<in> set (lst s) \<longleftrightarrow> has s k"
    and sorted_lst: "sorted (lst s)"
    and distinct_lst: "distinct (lst s)"
begin

lemma lst_eqI: "(\<And>k. has s k = has t k) \<Longrightarrow> lst s = lst t"
  by (intro sorted_distinct_set_unique sorted_lst distinct_lst) (auto simp: set_lst)

lemma set_lst_ins: "set (lst (ins (new xs) [k])) = insert k (set xs)"
  by (auto simp: set_lst has_ins has_new)

lemma set_lst_del: "set (lst (del (new xs) [k])) = set xs - {k}"
  by (auto simp: set_lst has_del has_new)

lemma lst_new_lst: "lst (new (lst s)) = lst s"
  by (rule lst_eqI) (simp add: has_new set_lst)

text \<open>Inserting twice is inserting once, and deleting undoes inserting up to sorting.\<close>

lemma ins_idem: "lst (ins (new (lst (ins (new xs) [k]))) [k]) = lst (ins (new xs) [k])"
  by (rule lst_eqI) (auto simp: has_ins has_new set_lst)

lemma del_idem: "lst (del (new (lst (del (new xs) [k]))) [k]) = lst (del (new xs) [k])"
  by (rule lst_eqI) (auto simp: has_del has_new set_lst)

lemma del_ins: "lst (del (new (lst (ins (new xs) [k]))) [k]) = lst (del (new xs) [k])"
  by (rule lst_eqI) (auto simp: has_ins has_del has_new set_lst)

lemma lst_id: "sorted xs \<Longrightarrow> distinct xs \<Longrightarrow> set xs = set (lst s) \<Longrightarrow> lst s = xs"
  by (intro sorted_distinct_set_unique sorted_lst distinct_lst) auto

lemma del_ins_id:
  assumes "sorted xs" and "distinct xs" and "k \<notin> set xs"
  shows "lst (del (new (lst (ins (new xs) [k]))) [k]) = xs"
  using assms by (intro lst_id) (auto simp: set_lst has_ins has_del has_new)

end

lemma fmember_Insert: "k |\<in>| Insert s xs \<longleftrightarrow> k |\<in>| s \<or> k \<in> set xs"
  by (induction xs arbitrary: s) (auto simp: Insert_def)

lemma fmember_Delete: "k |\<in>| Delete s xs \<longleftrightarrow> k |\<in>| s \<and> k \<notin> set xs"
  by (induction xs arbitrary: s) (auto simp: Delete_def)

interpretation strings: string_set NewString Insert Delete Has List
  by unfold_locales
    (auto simp: Has_def NewString_def List_def fmember_Insert fmember_Delete
      sorted_list_of_fset.rep_eq)

section \<open>The other operations\<close>

lemma HasAll_iff: "HasAll s items \<longleftrightarrow> (\<forall>item\<in>set items. item |\<in>| s)"
  by (induction items) (auto simp: Has_def)

lemma HasAny_iff: "HasAny s items \<longleftrightarrow> (\<exists>item\<in>set items. item |\<in>| s)"
  by (induction items) (auto simp: Has_def)

lemma fmember_filter_loop:
  "k |\<in>| foldl (\<lambda>result key. if P key then Insert result [key] else result) r order \<longleftrightarrow> k |\<in>| r \<or> (k \<in> set order \<and> P k)"
  by (induction order arbitrary: r) (auto simp: fmember_Insert)

lemma fmember_insert_loop: "k |\<in>| foldl (\<lambda>result key. Insert result [key]) r order \<longleftrightarrow> k |\<in>| r \<or> k \<in> set order"
  using fmember_filter_loop [of k "\<lambda>_. True" r order] by simp

lemma fmember_NewString: "k |\<in>| NewString items \<longleftrightarrow> k \<in> set items"
  by (simp add: NewString_def fmember_Insert)

lemma fset_walk: "walk order s \<Longrightarrow> k \<in> set order \<longleftrightarrow> k |\<in>| s"
  by (simp add: walk_def)

lemmas walks = fset_walk fmember_filter_loop fmember_insert_loop fmember_NewString

text \<open>
  The set operations are those of sets, whatever order Go walks a map in.  That holds for the difference, the union and
  the intersection, which walks the smaller of the two, and for the tests; two
  sets are equal by size and one inclusion; popping takes one element out.
\<close>

theorem string_set_algebra:
  assumes "walk order1 s1" and "walk order2 s2"
  shows "Difference order1 s2 = s1 |-| s2 \<and> Union order1 order2 = s1 |\<union>| s2 \<and> Intersection s1 s2 order1 order2 = s1 |\<inter>| s2
    \<and> (IsSuperset s1 order2 \<longleftrightarrow> s2 |\<subseteq>| s1) \<and> (Equal s1 s2 order2 \<longleftrightarrow> s1 = s2)
    \<and> List (NewString (UnsortedList order1)) = List s1
    \<and> (case PopAny s1 order1 of (s, key, found) \<Rightarrow> (found \<longleftrightarrow> s1 \<noteq> {||}) \<and> (found \<longrightarrow> key |\<in>| s1) \<and> s = s1 |-| {|key|})"
proof -
  note w = fset_walk [OF assms(1)] fset_walk [OF assms(2)]
  have "Difference order1 s2 = s1 |-| s2"
    by (rule fset_eqI) (simp add: Difference_def Has_def walks w del: foldl.simps)
  moreover have "Union order1 order2 = s1 |\<union>| s2"
    by (rule fset_eqI) (simp add: Union_def walks w)
  moreover have "Intersection s1 s2 order1 order2 = s1 |\<inter>| s2"
    by (rule fset_eqI) (auto simp: Intersection_def Has_def walks w)
  moreover have sup: "IsSuperset s1 order2 \<longleftrightarrow> s2 |\<subseteq>| s1"
    by (auto simp: IsSuperset_def HasAll_iff w)
  moreover have "Equal s1 s2 order2 \<longleftrightarrow> s1 = s2"
    unfolding Equal_def sup Len_def using fcard_seteq [of s2 s1] by auto
  moreover have "UnsortedList order1 = order1"
  proof -
    have "foldl (\<lambda>res key. res @ [key]) acc xs = acc @ xs" for acc xs :: "string list" by (induction xs arbitrary: acc) auto
    then show ?thesis by (simp add: UnsortedList_def)
  qed
  moreover have "NewString order1 = s1" by (rule fset_eqI) (simp add: walks w)
  moreover have "case PopAny s1 order1 of (s, key, found) \<Rightarrow> (found \<longleftrightarrow> s1 \<noteq> {||}) \<and> (found \<longrightarrow> key |\<in>| s1) \<and> s = s1 |-| {|key|}"
  proof (cases order1)
    case Nil
    then have "s1 = {||}" using w(1) by (intro fset_eqI) auto
    then show ?thesis using Nil by (simp add: PopAny_def)
  next
    case (Cons key rest)
    then have "key |\<in>| s1" using w(1) [of key] by simp
    then show ?thesis using Cons by (auto simp: PopAny_def fmember_Delete intro!: fset_eqI)
  qed
  ultimately show ?thesis by simp
qed

theorem string_set_algebra_witness:
  "Intersection {|''a'', ''b''|} {|''b'', ''c''|} [''b'', ''a''] [''c'', ''b''] = {|''b''|}"
  using string_set_algebra [of "[''b'', ''a'']" "{|''a'', ''b''|}" "[''c'', ''b'']" "{|''b'', ''c''|}"]
  by (auto simp: walk_def)

end
