(* ===== verification/Reconciler.thy ===== *)
theory Reconciler
  imports WebhookClient StringSet
begin

text \<open>
  \<open>pkg/reconciler/gitlabsource.go\<close>: the reconciler of GitLabSources.  One definition per
  method, \<open>reconcile\<close> cut at its stages (secrets, sink, receiver, webhook), over the state
  \<open>rstate\<close>: the working copy \<open>source\<close> is \<open>st_src\<close>, the objects the lister hands out are
  \<open>st_cache\<close>.  Log output is left out.
\<close>

section \<open>The reconciler\<close>

definition controllerAgentName :: string where "controllerAgentName = ''gitlab-source-controller''"
definition finalizerName :: string where "finalizerName = controllerAgentName"
definition raImageEnvVar :: string where "raImageEnvVar = ''GL_RA_IMAGE''"

record Reconciler =
  rc_env :: env
  rc_scheme :: Scheme
  rc_receiveAdapterImage :: string
  rc_webhookClient :: webhookClient

record webhookArgs =
  wa_source :: GitLabSource
  wa_domain :: string
  wa_accessToken :: string
  wa_secretToken :: string
  wa_projectURL :: string
  wa_hookID :: string

text \<open>
  \<open>NewController\<close>: no reconciler if the image variable is not in the environment, else
  one over the scheme \<open>AddToScheme\<close> filled and the GitLab client.
\<close>

definition newReconciler :: "env \<Rightarrow> Scheme \<Rightarrow> string \<Rightarrow> Reconciler" where
  "newReconciler env scheme receiveAdapterImage =
     \<lparr>rc_env = env, rc_scheme = scheme, rc_receiveAdapterImage = receiveAdapterImage,
      rc_webhookClient = gitLabWebhookClient env\<rparr>"

definition NewController :: "(string \<rightharpoonup> string) \<Rightarrow> Scheme \<Rightarrow> env \<Rightarrow> Reconciler option" where
  "NewController LookupEnv scheme env =
     (let scheme' = AddToScheme scheme
      in case LookupEnv raImageEnvVar of
           None \<Rightarrow> None
         | Some receiveAdapterImage \<Rightarrow>
             Some (newReconciler env scheme' receiveAdapterImage))"

definition withSrc :: "(GitLabSource \<Rightarrow> 'a act) \<Rightarrow> 'a act" where
  "withSrc f = thenG (getG st_src) f"

definition modSrc :: "(GitLabSource \<Rightarrow> GitLabSource) \<Rightarrow> unit act" where
  "modSrc f = modG (\<lambda>s. s\<lparr>st_src := f (st_src s)\<rparr>)"

section \<open>Project URLs\<close>

text \<open>\<open>u.Path[1:]\<close>, which panics on an empty path\<close>

definition slice1 :: "string \<Rightarrow> string outcome" where
  "slice1 p = (if p = [] then Panic else Ok (tl p))"

definition getProjectName :: "string \<Rightarrow> string outcome" where
  "getProjectName projectURL =
     (case url_Parse projectURL of Inl e \<Rightarrow> Err e | Inr u \<Rightarrow> slice1 (url_Path u))"

definition getGitlabBaseURL :: "string \<Rightarrow> string outcome" where
  "getGitlabBaseURL projectURL =
     (case url_Parse projectURL of
        Inl e \<Rightarrow> Err e
      | Inr u \<Rightarrow> (case slice1 (url_Path u) of
                   Ok projectName \<Rightarrow> Ok (TrimSuffix projectURL projectName)
                 | Err e \<Rightarrow> Err e
                 | Panic \<Rightarrow> Panic))"

section \<open>Registering and removing the hook\<close>

definition set_event :: "projectHookOptions \<Rightarrow> string \<Rightarrow> projectHookOptions" where
  "set_event o' event =
     (if event = ''push_events'' then o'\<lparr>PushEvents := True\<rparr>
      else if event = ''issues_events'' then o'\<lparr>IssuesEvents := True\<rparr>
      else if event = ''confidential_issues_events'' then o'\<lparr>ConfidentialIssuesEvents := True\<rparr>
      else if event = ''merge_requests_events'' then o'\<lparr>MergeRequestsEvents := True\<rparr>
      else if event = ''tag_push_events'' then o'\<lparr>TagPushEvents := True\<rparr>
      else if event = ''pipeline_events'' then o'\<lparr>PipelineEvents := True\<rparr>
      else if event = ''wiki_page_events'' then o'\<lparr>WikiPageEvents := True\<rparr>
      else if event = ''job_events'' then o'\<lparr>JobEvents := True\<rparr>
      else if event = ''note_events'' then o'\<lparr>NoteEvents := True\<rparr>
      else o')"

text \<open>The options of the hook, before the client is called.\<close>

definition webhook_options :: "webhookArgs \<Rightarrow> string \<Rightarrow> projectHookOptions" where
  "webhook_options args projectName =
     (let o1 = empty_hook_options\<lparr>accessToken := wa_accessToken args, secretToken := wa_secretToken args,
                 project := projectName, webhookID := WebhookIDKey (Status (wa_source args))\<rparr>;
          o2 = foldl set_event o1 (EventTypes (Spec (wa_source args)))
      in if Secure (Spec (wa_source args))
         then o2\<lparr>hook_url := ''https://'' @ wa_domain args, EnableSSLVerification := True\<rparr>
         else o2\<lparr>hook_url := ''http://'' @ wa_domain args\<rparr>)"

definition createWebhook :: "Reconciler \<Rightarrow> webhookArgs \<Rightarrow> string act" where
  "createWebhook r args =
     onErr (liftO (getProjectName (ProjectURL (Spec (wa_source args)))))
       (\<lambda>e. failG (PlainError (''Failed to process project url to get the project name: '' @ err_text e)))
       (\<lambda>projectName. let hookOptions = webhook_options args projectName in
          onErr (liftO (getGitlabBaseURL (ProjectURL (Spec (wa_source args)))))
            (\<lambda>e. failG (PlainError (''Failed to process project url to get the base url: '' @ err_text e)))
            (\<lambda>baseURL. onErr (wc_Create (rc_webhookClient r) hookOptions baseURL)
               (\<lambda>e. failG (PlainError (''failed to create webhook: '' @ err_text e)))
               (\<lambda>hookID. retG hookID)))"

definition deleteWebhook :: "Reconciler \<Rightarrow> webhookArgs \<Rightarrow> unit act" where
  "deleteWebhook r args =
     onErr (liftO (getProjectName (wa_projectURL args)))
       (\<lambda>e. failG (PlainError (''Failed to process project url to get the project name: '' @ err_text e)))
       (\<lambda>projectName.
          let hookOptions = empty_hook_options\<lparr>accessToken := wa_accessToken args, project := projectName,
                              webhookID := WebhookIDKey (Status (wa_source args))\<rparr> in
          onErr (liftO (getGitlabBaseURL (wa_projectURL args)))
            (\<lambda>e. failG (PlainError (''Failed to process project url to get the base url: '' @ err_text e)))
            (\<lambda>baseURL. onErr (wc_Delete (rc_webhookClient r) hookOptions baseURL)
               (\<lambda>e. failG (PlainError (''failed to delete webhook: '' @ err_text e)))
               (\<lambda>_. retG ())))"

section \<open>What the reconciler reads\<close>

text \<open>The secret key selector may be nil, and its name is read before any call.\<close>

definition secretFrom :: "Reconciler \<Rightarrow> string \<Rightarrow> SecretKeySelector option \<Rightarrow> string act" where
  "secretFrom r namespace secretKeySelector =
     (case secretKeySelector of
        None \<Rightarrow> panicG
      | Some sel \<Rightarrow>
          thenG (issue (SecretGet namespace (sks_Name sel)) (env_SecretGet (rc_env r)))
            (\<lambda>secret. case secret_Data secret (sks_Key sel) of
               None \<Rightarrow> failG (PlainError (''key '' @ [CHR 0x22] @ sks_Key sel @ [CHR 0x22] @ '' not found in secret ''
                                          @ [CHR 0x22] @ sks_Name sel @ [CHR 0x22]))
             | Some secretVal \<Rightarrow> retG secretVal))"

definition getLabelSelector :: "GitLabSource \<Rightarrow> string" where
  "getLabelSelector source =
     ''eventing-source='' @ controllerAgentName @ '', eventing-source-name='' @ om_Name (gs_meta source)"

definition IsNotFound :: "go_error \<Rightarrow> bool" where
  "IsNotFound e = (case e of StatusError StatusReasonNotFound _ \<Rightarrow> True | _ \<Rightarrow> False)"

definition NewNotFound :: "string \<Rightarrow> string \<Rightarrow> go_error" where
  "NewNotFound groupResource name =
     StatusError StatusReasonNotFound (groupResource @ '' '' @ quote name @ '' not found'')"

definition getOwnedReceiver :: "Reconciler \<Rightarrow> GitLabSource \<Rightarrow> Deployment act" where
  "getOwnedReceiver r source =
     thenG (issue (DeploymentList (om_Namespace (gs_meta source)) (getLabelSelector source)) (env_DeploymentList (rc_env r)))
       (\<lambda>items. case find (\<lambda>dep. IsControlledBy (dep_meta dep) (gs_meta source)) items of
          Some dep \<Rightarrow> retG dep
        | None \<Rightarrow> failG (NewNotFound [] []))"

definition getSinkURI :: "Reconciler \<Rightarrow> ObjectReference option \<Rightarrow> string \<Rightarrow> string act" where
  "getSinkURI r sink namespace =
     (case sink of
        None \<Rightarrow> failG (PlainError ''sink ref is nil'')
      | Some ref \<Rightarrow>
          (let plural = fst (UnsafeGuessKindToResource (ObjectReference_GVK ref)) in
           thenG (issue (DynamicGet plural (ref_Namespace ref) (ref_Name ref)) (env_DynamicGet (rc_env r)))
             (\<lambda>u. let objIdentifier = [CHR 0x22] @ u_Namespace u @ ''/'' @ u_Name u @ [CHR 0x22] @ '' (''
                                       @ GroupVersionKind_String (u_GVK u) @ '')''
                  in onErr (liftO (u_Addressable u))
                       (\<lambda>e. failG (PlainError (''failed to deserialize sink '' @ objIdentifier @ '': '' @ err_text e)))
                       (\<lambda>address. case address of
                          None \<Rightarrow> failG (PlainError (''sink '' @ objIdentifier @ '' does not contain address''))
                        | Some None \<Rightarrow> failG (PlainError (''sink '' @ objIdentifier @ '' contains an empty URL''))
                        | Some (Some uri) \<Rightarrow> retG uri))))"

section \<open>Finalizers\<close>

definition addFinalizer :: "GitLabSource \<Rightarrow> GitLabSource" where
  "addFinalizer s =
     (let finalizers = Insert (NewString (om_Finalizers (gs_meta s))) [finalizerName]
      in s\<lparr>gs_meta := (gs_meta s)\<lparr>om_Finalizers := List finalizers\<rparr>\<rparr>)"

definition removeFinalizer :: "GitLabSource \<Rightarrow> GitLabSource" where
  "removeFinalizer s =
     (let finalizers = Delete (NewString (om_Finalizers (gs_meta s))) [finalizerName]
      in s\<lparr>gs_meta := (gs_meta s)\<lparr>om_Finalizers := List finalizers\<rparr>\<rparr>)"

section \<open>reconcile\<close>

definition secretsStage :: "Reconciler \<Rightarrow> (string \<times> string) act" where
  "secretsStage r = withSrc (\<lambda>source.
     onErr (secretFrom r (om_Namespace (gs_meta source)) (SecretKeyRef (AccessToken (Spec source))))
       (\<lambda>e. seqG (onStatus (MarkNoSecrets ''AccessTokenNotFound'' (err_text e))) (failG e))
       (\<lambda>accessTok.
          onErr (secretFrom r (om_Namespace (gs_meta source)) (SecretKeyRef (SecretToken (Spec source))))
            (\<lambda>e. seqG (onStatus (MarkNoSecrets ''SecretTokenNotFound'' (err_text e))) (failG e))
            (\<lambda>secretTok. seqG (onStatus MarkSecrets) (retG (accessTok, secretTok)))))"

text \<open>With neither a sink nor a URI the error formatted is the nil of the calls before.\<close>

definition sinkStage :: "Reconciler \<Rightarrow> unit act" where
  "sinkStage r = withSrc (\<lambda>source.
     case Sink (Spec source) of
       Some sink \<Rightarrow>
         onErr (getSinkURI r (Some sink) (om_Namespace (gs_meta source)))
           (\<lambda>e. seqG (onStatus (MarkNoSink ''NotFound'' (err_text e))) (failG e))
           (\<lambda>uri. onStatus (MarkSink uri))
     | None \<Rightarrow>
         (case URI (Spec source) of
            Some uri \<Rightarrow> onStatus (MarkSink uri)
          | None \<Rightarrow> onStatus (MarkNoSink ''NotFound'' (Sprintf_s None))))"

definition createReceiver :: "Reconciler \<Rightarrow> unit act" where
  "createReceiver r = withSrc (\<lambda>source.
     let receiver = MakeReceiveAdapter source (rc_receiveAdapterImage r) in
     thenG (liftG (SetControllerReference ''GitLabSource'' (gs_meta source) (rc_scheme r) (dep_meta receiver)))
       (\<lambda>dmeta. let receiver' = receiver\<lparr>dep_meta := dmeta\<rparr> in
          seqG (issue (DeploymentCreate (om_Namespace (gs_meta source)) receiver') (env_DeploymentCreate (rc_env r)))
            (let service = MakePublicService source in
             thenG (liftG (SetControllerReference ''GitLabSource'' (gs_meta source) (rc_scheme r) (svc_meta service)))
               (\<lambda>smeta. onErr (issue (ServiceCreate (om_Namespace (gs_meta source)) (service\<lparr>svc_meta := smeta\<rparr>)) (env_ServiceCreate (rc_env r)))
                  (\<lambda>_. Eventf ''Normal'' ''ServiceCreated'' ''Created Service %s'' [om_Name (dep_meta receiver')])
                  (\<lambda>_. Eventf ''Normal'' ''ServiceCreated'' ''Created Service %s'' [om_Name (dep_meta receiver')])))))"

text \<open>The loop that picks the service: the last one whose name starts with the source's.\<close>

definition pickService :: "string \<Rightarrow> Service list \<Rightarrow> Service" where
  "pickService name items =
     foldl (\<lambda>svc service. if HasPrefix (om_Name (svc_meta service)) name then service else svc) empty_service items"

definition receiveAdapterDomain :: "Service \<Rightarrow> string outcome" where
  "receiveAdapterDomain svc =
     (case svc_Ingress svc of
        [] \<Rightarrow> Panic
      | ing # _ \<Rightarrow> (case svc_Ports svc of
                     [] \<Rightarrow> Panic
                   | port # _ \<Rightarrow> Ok (lb_IP ing @ '':'' @ Itoa (sint (sp_NodePort port)))))"

definition webhookStage :: "Reconciler \<Rightarrow> string \<times> string \<Rightarrow> unit act" where
  "webhookStage r = (\<lambda>(accessTok, secretTok).
     seqG (modSrc addFinalizer)
       (withSrc (\<lambda>source.
          thenG (issue (ServiceList (om_Namespace (gs_meta source))) (env_ServiceList (rc_env r)))
            (\<lambda>items. let svc = pickService (om_Name (gs_meta source)) items in
               thenG (liftO (receiveAdapterDomain svc))
                 (\<lambda>domain. if WebhookIDKey (Status source) = [] then
                    thenG (createWebhook r \<lparr>wa_source = source, wa_domain = domain, wa_accessToken = accessTok,
                                            wa_secretToken = secretTok, wa_projectURL = [], wa_hookID = []\<rparr>)
                      (\<lambda>hookID. modSrc (\<lambda>s. s\<lparr>Status := (Status s)\<lparr>WebhookIDKey := hookID\<rparr>\<rparr>))
                  else retG ())))))"

definition receiverStage :: "Reconciler \<Rightarrow> string \<times> string \<Rightarrow> unit act" where
  "receiverStage r toks =
     onErr (withSrc (getOwnedReceiver r))
       (\<lambda>e. if IsNotFound e then createReceiver r else failG e)
       (\<lambda>_. webhookStage r toks)"

definition reconcile :: "Reconciler \<Rightarrow> unit act" where
  "reconcile r =
     seqG (onStatus Status_InitializeConditions)
       (thenG (secretsStage r) (\<lambda>toks.
          seqG (sinkStage r) (receiverStage r toks)))"

section \<open>finalize\<close>

definition failedFinalize :: "go_error \<Rightarrow> unit act" where
  "failedFinalize e = withSrc (\<lambda>source.
     seqG (Eventf ''Warning'' ''FailedFinalize'' ''Could not delete webhook %q: %v'' [WebhookIDKey (Status source), err_text e])
       (failG e))"

definition finalize :: "Reconciler \<Rightarrow> unit act" where
  "finalize r =
     seqG (modSrc removeFinalizer)
       (withSrc (\<lambda>source.
          if WebhookIDKey (Status source) \<noteq> [] then
            onErr (secretFrom r (om_Namespace (gs_meta source)) (SecretKeyRef (AccessToken (Spec source))))
              (\<lambda>e. seqG (onStatus (MarkNoSecrets ''AccessTokenNotFound'' (err_text e))) (failedFinalize e))
              (\<lambda>accessTok.
                 onErr (deleteWebhook r \<lparr>wa_source = source, wa_domain = [], wa_accessToken = accessTok,
                                         wa_secretToken = [], wa_projectURL = ProjectURL (Spec source),
                                         wa_hookID = WebhookIDKey (Status source)\<rparr>)
                   failedFinalize
                   (\<lambda>_. modSrc (\<lambda>s. s\<lparr>Status := (Status s)\<lparr>WebhookIDKey := []\<rparr>\<rparr>)))
          else retG ()))"

section \<open>Reconcile\<close>

definition lister_key :: "string \<Rightarrow> string \<Rightarrow> string" where
  "lister_key namespace name = namespace @ ''/'' @ name"

definition lister_Get :: "string \<Rightarrow> string \<Rightarrow> GitLabSource act" where
  "lister_Get namespace name =
     thenG (getG (\<lambda>s. st_cache s (lister_key namespace name)))
       (\<lambda>obj. case obj of
          None \<Rightarrow> failG (NewNotFound (GroupResource_String ''gitlabsource'') name)
        | Some source \<Rightarrow> retG source)"

text \<open>
  \<open>equality.Semantic.DeepEqual\<close> on statuses: the transition times, of type
  \<open>VolatileTime\<close>, always count as equal.
\<close>

definition cond_equiv :: "Condition \<Rightarrow> Condition \<Rightarrow> bool" where
  "cond_equiv a b \<longleftrightarrow> a = b\<lparr>lastTransitionTime := lastTransitionTime a\<rparr>"

definition status_equiv :: "GitLabSourceStatus \<Rightarrow> GitLabSourceStatus \<Rightarrow> bool" where
  "status_equiv a b \<longleftrightarrow>
     ObservedGeneration a = ObservedGeneration b \<and> list_all2 cond_equiv (Conditions a) (Conditions b)
     \<and> WebhookIDKey a = WebhookIDKey b \<and> SinkURI a = SinkURI b"

definition getting_error :: "string \<Rightarrow> go_error \<Rightarrow> go_error" where
  "getting_error name e =
     PlainError (''Error getting Gitlabsourrce '' @ name @ '' when updating status: '' @ err_text e)"

text \<open>
  \<open>updateStatus\<close> and \<open>update\<close> assign to the object the lister returns, which is the one
  in the cache.
\<close>

definition putCache :: "string \<Rightarrow> string \<Rightarrow> GitLabSource \<Rightarrow> unit act" where
  "putCache namespace name source =
     modG (\<lambda>s. s\<lparr>st_cache := (st_cache s)(lister_key namespace name \<mapsto> source)\<rparr>)"

definition updateStatus :: "Reconciler \<Rightarrow> GitLabSource \<Rightarrow> unit act" where
  "updateStatus r source =
     (let namespace = om_Namespace (gs_meta source); name = om_Name (gs_meta source) in
      onErr (lister_Get namespace name)
        (\<lambda>e. failG (getting_error name e))
        (\<lambda>newSource.
           if Status source \<noteq> Status newSource then
             (let newSource' = newSource\<lparr>Status := Status source\<rparr> in
              seqG (putCache namespace name newSource')
                (issue (UpdateStatus namespace newSource') (env_UpdateStatus (rc_env r))))
           else retG ()))"

definition update :: "Reconciler \<Rightarrow> GitLabSource \<Rightarrow> unit act" where
  "update r source =
     (let namespace = om_Namespace (gs_meta source); name = om_Name (gs_meta source) in
      onErr (lister_Get namespace name)
        (\<lambda>e. failG (getting_error name e))
        (\<lambda>newSource.
           if om_Finalizers (gs_meta source) \<noteq> om_Finalizers (gs_meta newSource) then
             (let newSource' = newSource\<lparr>gs_meta := (gs_meta newSource)\<lparr>om_Finalizers := om_Finalizers (gs_meta source)\<rparr>\<rparr> in
              seqG (putCache namespace name newSource')
                (issue (Update namespace newSource') (env_Update (rc_env r))))
           else retG ()))"

definition failedUpdate :: "go_error \<Rightarrow> unit act" where
  "failedUpdate e = seqG (Eventf ''Warning'' [] ''gitResource failed to update'' []) (failG e)"

text \<open>What follows \<open>reconcile\<close> or \<open>finalize\<close>, with the error it returned.\<close>

definition writeBack :: "Reconciler \<Rightarrow> GitLabSource \<Rightarrow> go_error option \<Rightarrow> unit act" where
  "writeBack r original reconcileErr = withSrc (\<lambda>source.
     onErr (if status_equiv (Status original) (Status source) then retG () else updateStatus r source)
       failedUpdate
       (\<lambda>_. onErr (if om_Finalizers (gs_meta original) = om_Finalizers (gs_meta source) then retG () else update r source)
          failedUpdate
          (\<lambda>_. case reconcileErr of None \<Rightarrow> retG () | Some e \<Rightarrow> failG e)))"

definition process :: "Reconciler \<Rightarrow> GitLabSource \<Rightarrow> unit act" where
  "process r original =
     seqG (modSrc (\<lambda>_. original))
       (onErr (if om_DeletionTimestamp (gs_meta original) = None then reconcile r else finalize r)
          (\<lambda>e. writeBack r original (Some e))
          (\<lambda>_. writeBack r original None))"

definition Reconcile :: "Reconciler \<Rightarrow> string \<Rightarrow> unit act" where
  "Reconcile r key =
     (case SplitMetaNamespaceKey key of
        Inl e \<Rightarrow> retG ()
      | Inr (namespace, name) \<Rightarrow>
          onErr (lister_Get namespace name)
            (\<lambda>e. if IsNotFound e then retG () else failG e)
            (process r))"

end
