(* ===== verification/ReconcilerLemmas.thy ===== *)
theory ReconcilerLemmas
  imports Reconciler
begin

text \<open>
  The facts about the reconciler its properties share: weakest preconditions of its
  stages, the relation \<open>stage_step\<close> every stage stays within, and the requests
  \<open>reconcile\<close> and \<open>finalize\<close> may issue for a source.  They are proved for a reconciler
  over any client that meets the contract \<open>webhook_client\<close> (locale
  \<open>reconciler_client\<close>) and interpreted on the one \<open>NewController\<close> builds.
\<close>

section \<open>Working copy\<close>

lemma wp_withSrc [wp_simps]: "wpG (withSrc f) Q E X s = wpG (f (st_src s)) Q E X s"
  by (simp add: withSrc_def wp_simps)

lemma wp_modSrc [wp_simps]: "wpG (modSrc f) Q E X s = Q () (s\<lparr>st_src := f (st_src s)\<rparr>)"
  by (simp add: modSrc_def wp_simps)

lemma keeps_withSrc [keeps_intro]:
  assumes "\<And>src. (\<exists>s. I s \<and> st_src s = src) \<Longrightarrow> keeps I (f src)"
  shows "keeps I (withSrc f)"
  using assms by (fastforce simp: keeps_def withSrc_def thenG_def onErr_def getG_def)

lemma keeps_modSrc [keeps_intro]:
  "(\<And>s. I s \<Longrightarrow> I (s\<lparr>st_src := f (st_src s)\<rparr>)) \<Longrightarrow> keeps I (modSrc f)"
  unfolding modSrc_def by (rule keeps_modG)

lemma keeps_onStatus_id:
  assumes "keeps_id f"
    and "\<And>s st clk. I s \<Longrightarrow> WebhookIDKey st = WebhookIDKey (Status (st_src s)) \<Longrightarrow>
           I (s\<lparr>st_src := (st_src s)\<lparr>Status := st\<rparr>, st_clock := clk\<rparr>)"
  shows "keeps I (onStatus f)"
  unfolding onStatus_def
proof (rule keeps_modG)
  fix s assume "I s"
  moreover have "WebhookIDKey (fst (f (Status (st_src s), st_clock s))) = WebhookIDKey (Status (st_src s))"
    using keeps_idD [OF assms(1)] by simp
  ultimately show "I (let (st', clk') = f (Status (st_src s), st_clock s)
      in s\<lparr>st_src := (st_src s)\<lparr>Status := st'\<rparr>, st_clock := clk'\<rparr>)"
    using assms(2) by (simp add: split_def Let_def)
qed

lemma wpG_keeps: "keeps I m \<Longrightarrow> I s \<Longrightarrow> wpG m (\<lambda>_. I) (\<lambda>_. I) I s"
  by (simp add: keeps_def wpG_result split: outcome.split)

section \<open>Steps of a stage\<close>

text \<open>The same object, up to its status and its finalizers.\<close>

definition same_object :: "GitLabSource \<Rightarrow> GitLabSource \<Rightarrow> bool" where
  "same_object a b \<longleftrightarrow>
     b = a\<lparr>Status := Status b, gs_meta := (gs_meta a)\<lparr>om_Finalizers := om_Finalizers (gs_meta b)\<rparr>\<rparr>"

text \<open>
  From \<open>s\<close> to \<open>t\<close> with requests in \<open>p\<close> only, the cache untouched, the working copy the
  same object and its stored hook ID kept if there is one.
\<close>

definition stage_step :: "(request \<Rightarrow> bool) \<Rightarrow> rstate \<Rightarrow> rstate \<Rightarrow> bool" where
  "stage_step p s t \<longleftrightarrow>
     (\<exists>rs. list_all p rs \<and> st_trace t = st_trace s @ rs) \<and> st_cache t = st_cache s
     \<and> same_object (st_src s) (st_src t)
     \<and> (WebhookIDKey (Status (st_src s)) \<noteq> [] \<longrightarrow> WebhookIDKey (Status (st_src t)) = WebhookIDKey (Status (st_src s)))"

lemma same_object_refl [simp]: "same_object a a"
  by (simp add: same_object_def)

lemma same_object_fields:
  assumes "same_object a b"
  shows "om_Name (gs_meta b) = om_Name (gs_meta a)" "om_Namespace (gs_meta b) = om_Namespace (gs_meta a)"
    "om_UID (gs_meta b) = om_UID (gs_meta a)" "Spec b = Spec a"
    "om_DeletionTimestamp (gs_meta b) = om_DeletionTimestamp (gs_meta a)"
    "om_ResourceVersion (gs_meta b) = om_ResourceVersion (gs_meta a)"
    "om_Labels (gs_meta b) = om_Labels (gs_meta a)" "gs_Kind b = gs_Kind a" "gs_APIVersion b = gs_APIVersion a"
proof -
  have eq: "b = a\<lparr>Status := Status b, gs_meta := (gs_meta a)\<lparr>om_Finalizers := om_Finalizers (gs_meta b)\<rparr>\<rparr>"
    using assms by (simp add: same_object_def)
  show "om_Name (gs_meta b) = om_Name (gs_meta a)" "om_Namespace (gs_meta b) = om_Namespace (gs_meta a)"
    "om_UID (gs_meta b) = om_UID (gs_meta a)" "Spec b = Spec a"
    "om_DeletionTimestamp (gs_meta b) = om_DeletionTimestamp (gs_meta a)"
    "om_ResourceVersion (gs_meta b) = om_ResourceVersion (gs_meta a)"
    "om_Labels (gs_meta b) = om_Labels (gs_meta a)" "gs_Kind b = gs_Kind a" "gs_APIVersion b = gs_APIVersion a"
    by (subst eq, simp)+
qed

lemma same_object_Status: "same_object a b \<Longrightarrow> same_object a (b\<lparr>Status := st\<rparr>)"
  by (cases a; cases b) (simp add: same_object_def)

lemma same_object_Finalizers:
  "same_object a b \<Longrightarrow> same_object a (b\<lparr>gs_meta := (gs_meta b)\<lparr>om_Finalizers := fs\<rparr>\<rparr>)"
  by (cases a; cases b; cases "gs_meta a"; cases "gs_meta b") (simp add: same_object_def)

lemma same_object_addFinalizer: "same_object a b \<Longrightarrow> same_object a (addFinalizer b)"
  by (simp add: addFinalizer_def Let_def same_object_Finalizers)

lemma same_object_removeFinalizer: "same_object a b \<Longrightarrow> same_object a (removeFinalizer b)"
  by (simp add: removeFinalizer_def Let_def same_object_Finalizers)

lemma finalizer_Status [simp]:
  "Status (addFinalizer s) = Status s" "Status (removeFinalizer s) = Status s"
  by (simp_all add: addFinalizer_def removeFinalizer_def Let_def)

lemma stage_step_refl: "stage_step p s s"
  unfolding stage_step_def by (auto intro: exI [of _ "[]"])

lemma stage_step_request: "stage_step p s t \<Longrightarrow> p r \<Longrightarrow> stage_step p s (t\<lparr>st_trace := st_trace t @ [r]\<rparr>)"
  unfolding stage_step_def by (auto intro: exI [of _ "rs @ [r]" for rs])

lemma stage_step_requests: "stage_step p s t \<Longrightarrow> list_all p rs \<Longrightarrow> stage_step p s (t\<lparr>st_trace := st_trace t @ rs\<rparr>)"
  unfolding stage_step_def by (auto intro: exI [of _ "ps @ rs" for ps])

lemma stage_step_event: "stage_step p s t \<Longrightarrow> stage_step p s (t\<lparr>st_events := es\<rparr>)"
  by (simp add: stage_step_def)

lemma stage_step_status:
  "stage_step p s t \<Longrightarrow> WebhookIDKey st = WebhookIDKey (Status (st_src t)) \<Longrightarrow>
   stage_step p s (t\<lparr>st_src := (st_src t)\<lparr>Status := st\<rparr>, st_clock := clk\<rparr>)"
  by (simp add: stage_step_def same_object_Status)

lemma stage_step_src:
  "stage_step p s t \<Longrightarrow> same_object (st_src s) src \<Longrightarrow>
   (WebhookIDKey (Status (st_src s)) \<noteq> [] \<Longrightarrow> WebhookIDKey (Status src) = WebhookIDKey (Status (st_src s))) \<Longrightarrow>
   stage_step p s (t\<lparr>st_src := src\<rparr>)"
  by (simp add: stage_step_def)

lemma stage_step_addFinalizer: "stage_step p s t \<Longrightarrow> stage_step p s (t\<lparr>st_src := addFinalizer (st_src t)\<rparr>)"
  by (rule stage_step_src) (auto simp: stage_step_def same_object_addFinalizer)

lemma stage_step_removeFinalizer: "stage_step p s t \<Longrightarrow> stage_step p s (t\<lparr>st_src := removeFinalizer (st_src t)\<rparr>)"
  by (rule stage_step_src) (auto simp: stage_step_def same_object_removeFinalizer)

lemma stage_step_source:
  "\<exists>t. stage_step p s t \<and> st_src t = src \<Longrightarrow> same_object (st_src s) src"
  "\<exists>t. stage_step p s t \<and> st_src t = src \<Longrightarrow> WebhookIDKey (Status src) = [] \<Longrightarrow> WebhookIDKey (Status (st_src s)) = []"
  by (auto simp: stage_step_def)

lemma keeps_status_op [keeps_intro]: "keeps_id f \<Longrightarrow> keeps (stage_step p s) (onStatus f)"
  by (rule keeps_onStatus_id) (auto intro: stage_step_status)

lemma keeps_stage_issue [keeps_intro]: "p r \<Longrightarrow> keeps (stage_step p s) (issue r resp)"
  by (rule keeps_issue) (rule stage_step_request)

lemma keeps_stage_Eventf [keeps_intro]: "keeps (stage_step p s) (Eventf a b c d)"
  by (rule keeps_Eventf) (rule stage_step_event)

section \<open>The requests a run may issue\<close>

text \<open>
  \<open>reconcile_request src\<close>: reads and creations in the namespace of \<open>src\<close> (the sink's for
  the sink), of the secrets, the sink and the label selector its spec names; creations of
  objects it controls; hook requests for its project on its server, and of a new hook
  only while none is stored.  \<open>finalize_request src\<close>: the access token, the hooks of its
  project, and the removal of the hook stored.
\<close>

definition controlled_deployment :: "GitLabSource \<Rightarrow> Deployment \<Rightarrow> bool" where
  "controlled_deployment src d \<longleftrightarrow>
     IsControlledBy (dep_meta d) (gs_meta src) \<and> om_Namespace (dep_meta d) = om_Namespace (gs_meta src)
     \<and> om_Labels (dep_meta d) = source_labels src \<and> selects (dep_MatchLabels d) (pt_meta (dep_Template d))"

definition controlled_service :: "GitLabSource \<Rightarrow> Service \<Rightarrow> bool" where
  "controlled_service src v \<longleftrightarrow>
     IsControlledBy (svc_meta v) (gs_meta src) \<and> om_Namespace (svc_meta v) = om_Namespace (gs_meta src)
     \<and> HasPrefix (om_GenerateName (svc_meta v)) (om_Name (gs_meta src)) \<and> svc_Selector v = source_labels src"

definition source_server :: "GitLabSource \<Rightarrow> gitlab_client \<Rightarrow> string \<Rightarrow> bool" where
  "source_server src c pr \<longleftrightarrow>
     getProjectName (ProjectURL (Spec src)) = Ok pr
     \<and> (\<exists>tok base. getGitlabBaseURL (ProjectURL (Spec src)) = Ok base \<and> c = make_client tok base)"

fun reconcile_request :: "GitLabSource \<Rightarrow> request \<Rightarrow> bool" where
  "reconcile_request src (SecretGet ns n) \<longleftrightarrow> ns = om_Namespace (gs_meta src)
     \<and> (map_option sks_Name (SecretKeyRef (AccessToken (Spec src))) = Some n
        \<or> map_option sks_Name (SecretKeyRef (SecretToken (Spec src))) = Some n)"
| "reconcile_request src (DynamicGet gvr ns n) \<longleftrightarrow>
     map_option (\<lambda>ref. (ref_Namespace ref, ref_Name ref)) (Sink (Spec src)) = Some (ns, n)"
| "reconcile_request src (DeploymentList ns sel) \<longleftrightarrow> ns = om_Namespace (gs_meta src) \<and> sel = getLabelSelector src"
| "reconcile_request src (DeploymentCreate ns d) \<longleftrightarrow> ns = om_Namespace (gs_meta src) \<and> controlled_deployment src d"
| "reconcile_request src (ServiceCreate ns v) \<longleftrightarrow> ns = om_Namespace (gs_meta src) \<and> controlled_service src v"
| "reconcile_request src (ServiceList ns) \<longleftrightarrow> ns = om_Namespace (gs_meta src)"
| "reconcile_request src (ListHooks c pr) \<longleftrightarrow> source_server src c pr \<and> WebhookIDKey (Status src) = []"
| "reconcile_request src (AddHook c pr os) \<longleftrightarrow> source_server src c pr \<and> WebhookIDKey (Status src) = []"
| "reconcile_request src _ \<longleftrightarrow> False"

fun finalize_request :: "GitLabSource \<Rightarrow> request \<Rightarrow> bool" where
  "finalize_request src (SecretGet ns n) \<longleftrightarrow> WebhookIDKey (Status src) \<noteq> [] \<and> ns = om_Namespace (gs_meta src)
     \<and> map_option sks_Name (SecretKeyRef (AccessToken (Spec src))) = Some n"
| "finalize_request src (ListHooks c pr) \<longleftrightarrow> WebhookIDKey (Status src) \<noteq> [] \<and> source_server src c pr"
| "finalize_request src (DeleteHook c pr i) \<longleftrightarrow> WebhookIDKey (Status src) \<noteq> [] \<and> source_server src c pr
     \<and> Atoi (WebhookIDKey (Status src)) = Inr i"
| "finalize_request src _ \<longleftrightarrow> False"

section \<open>Owned objects\<close>

lemma SetControllerReference_controls:
  assumes "SetControllerReference typ owner scheme obj = Inr obj'" and "om_OwnerReferences obj = []"
  obtains k where "obj' = obj\<lparr>om_OwnerReferences := [NewControllerRef owner k]\<rparr>"
  using assms by (auto simp: SetControllerReference_def Let_def split: sum.splits)

lemma created_deployment:
  assumes "SetControllerReference typ (gs_meta src) scheme (dep_meta (MakeReceiveAdapter src img)) = Inr m"
  shows "controlled_deployment src ((MakeReceiveAdapter src img)\<lparr>dep_meta := m\<rparr>)"
  using assms
  by (elim SetControllerReference_controls)
    (simp_all add: controlled_deployment_def IsControlledBy_NewControllerRef MakeReceiveAdapter_def Let_def selects_def empty_meta_def)

lemma created_service:
  assumes "SetControllerReference typ (gs_meta src) scheme (svc_meta (MakePublicService src)) = Inr m"
  shows "controlled_service src ((MakePublicService src)\<lparr>svc_meta := m\<rparr>)"
  using assms
  by (elim SetControllerReference_controls)
    (simp_all add: controlled_service_def IsControlledBy_NewControllerRef MakePublicService_def Let_def empty_meta_def)

lemma same_object_labels:
  assumes "same_object a b"
  shows "getLabelSelector b = getLabelSelector a" "source_labels b = source_labels a"
    "controlled_deployment b = controlled_deployment a" "controlled_service b = controlled_service a"
    "source_server b = source_server a"
proof -
  note fields = same_object_fields [OF assms]
  have owned: "IsControlledBy m (gs_meta b) = IsControlledBy m (gs_meta a)" for m
    by (simp add: IsControlledBy_def fields split: option.split)
  show "getLabelSelector b = getLabelSelector a" by (simp add: getLabelSelector_def fields)
  show lab: "source_labels b = source_labels a" by (simp add: source_labels_def fields)
  show "controlled_deployment b = controlled_deployment a"
    by (rule ext) (simp only: controlled_deployment_def fields owned lab)
  show "controlled_service b = controlled_service a"
    by (rule ext) (simp only: controlled_service_def fields owned lab)
  show "source_server b = source_server a"
    by (intro ext) (simp only: source_server_def fields)
qed

section \<open>Frames of the stages\<close>

lemma keeps_liftG_then:
  "(\<And>v. x = Inr v \<Longrightarrow> keeps I (k v)) \<Longrightarrow> keeps I (thenG (liftG x) k)"
  by (cases x) (auto simp: keeps_def thenG_def onErr_def liftG_def failG_def retG_def)

lemma keeps_liftO_onErr:
  "(\<And>e. keeps I (h e)) \<Longrightarrow> (\<And>v. x = Ok v \<Longrightarrow> keeps I (k v)) \<Longrightarrow> keeps I (onErr (liftO x) h k)"
  by (cases x) (auto simp: keeps_def onErr_def liftO_def)

lemma keeps_secretFrom [keeps_intro]:
  "(\<And>sel. secretKeySelector = Some sel \<Longrightarrow> p (SecretGet namespace (sks_Name sel))) \<Longrightarrow>
   keeps (stage_step p s) (secretFrom r namespace secretKeySelector)"
  by (cases secretKeySelector) (auto simp: secretFrom_def intro!: keeps_intro)

lemma secretsStage_frame: "keeps (stage_step (reconcile_request (st_src s)) s) (secretsStage r)"
  unfolding secretsStage_def
  by (intro keeps_intro) (auto dest!: stage_step_source(1) dest: same_object_fields)

lemma getSinkURI_frame:
  "(\<And>ref. sink = Some ref \<Longrightarrow> p (DynamicGet (fst (UnsafeGuessKindToResource (ObjectReference_GVK ref))) (ref_Namespace ref) (ref_Name ref))) \<Longrightarrow>
   keeps (stage_step p s) (getSinkURI r sink namespace)"
  unfolding getSinkURI_def Let_def by (intro keeps_intro) auto

lemma sinkStage_frame: "keeps (stage_step (reconcile_request (st_src s)) s) (sinkStage r)"
  unfolding sinkStage_def
  by (intro keeps_intro getSinkURI_frame) (auto dest!: stage_step_source(1) dest: same_object_fields)

lemma getOwnedReceiver_frame:
  "same_object (st_src s) src \<Longrightarrow> keeps (stage_step (reconcile_request (st_src s)) s) (getOwnedReceiver r src)"
  unfolding getOwnedReceiver_def
  by (intro keeps_intro) (simp_all add: same_object_fields same_object_labels)

lemma createReceiver_frame: "keeps (stage_step (reconcile_request (st_src s)) s) (createReceiver r)"
  unfolding createReceiver_def Let_def
proof (rule keeps_withSrc, drule stage_step_source(1))
  fix src
  assume so: "same_object (st_src s) src"
  let ?ns = "om_Namespace (gs_meta src)"
  show "keeps (stage_step (reconcile_request (st_src s)) s)
    (thenG (liftG (SetControllerReference ''GitLabSource'' (gs_meta src) (rc_scheme r) (dep_meta (MakeReceiveAdapter src (rc_receiveAdapterImage r)))))
      (\<lambda>dmeta. seqG (issue (DeploymentCreate ?ns ((MakeReceiveAdapter src (rc_receiveAdapterImage r))\<lparr>dep_meta := dmeta\<rparr>)) (env_DeploymentCreate (rc_env r)))
        (thenG (liftG (SetControllerReference ''GitLabSource'' (gs_meta src) (rc_scheme r) (svc_meta (MakePublicService src))))
          (\<lambda>smeta. onErr (issue (ServiceCreate ?ns ((MakePublicService src)\<lparr>svc_meta := smeta\<rparr>)) (env_ServiceCreate (rc_env r)))
            (\<lambda>_. Eventf ''Normal'' ''ServiceCreated'' ''Created Service %s'' [om_Name (dep_meta ((MakeReceiveAdapter src (rc_receiveAdapterImage r))\<lparr>dep_meta := dmeta\<rparr>))])
            (\<lambda>_. Eventf ''Normal'' ''ServiceCreated'' ''Created Service %s'' [om_Name (dep_meta ((MakeReceiveAdapter src (rc_receiveAdapterImage r))\<lparr>dep_meta := dmeta\<rparr>))])))))"
    by (intro keeps_liftG_then keeps_seqG keeps_onErr keeps_stage_issue keeps_stage_Eventf)
      (simp_all add: same_object_fields [OF so] same_object_labels [OF so, symmetric] created_deployment created_service)
qed

section \<open>The hook options\<close>

lemma set_event_fields [simp]:
  "accessToken (set_event o' e) = accessToken o'" "secretToken (set_event o' e) = secretToken o'"
  "project (set_event o' e) = project o'" "webhookID (set_event o' e) = webhookID o'"
  "hook_url (set_event o' e) = hook_url o'" "EnableSSLVerification (set_event o' e) = EnableSSLVerification o'"
  by (simp_all add: set_event_def)

lemma foldl_set_event_fields [simp]:
  "accessToken (foldl set_event o' es) = accessToken o'" "secretToken (foldl set_event o' es) = secretToken o'"
  "project (foldl set_event o' es) = project o'" "webhookID (foldl set_event o' es) = webhookID o'"
  "hook_url (foldl set_event o' es) = hook_url o'" "EnableSSLVerification (foldl set_event o' es) = EnableSSLVerification o'"
  by (induction es arbitrary: o') simp_all

lemma webhook_options_fields [simp]:
  "accessToken (webhook_options args p) = wa_accessToken args" "secretToken (webhook_options args p) = wa_secretToken args"
  "project (webhook_options args p) = p" "webhookID (webhook_options args p) = WebhookIDKey (Status (wa_source args))"
  "hook_url (webhook_options args p) =
     (if Secure (Spec (wa_source args)) then ''https://'' else ''http://'') @ wa_domain args"
  "EnableSSLVerification (webhook_options args p) = Secure (Spec (wa_source args))"
  by (simp_all add: webhook_options_def Let_def empty_hook_options_def)

text \<open>Each event type sets its flag, and no other.\<close>

lemma set_event_flags:
  "PushEvents (set_event o' e) \<longleftrightarrow> PushEvents o' \<or> e = ''push_events''"
  "IssuesEvents (set_event o' e) \<longleftrightarrow> IssuesEvents o' \<or> e = ''issues_events''"
  "ConfidentialIssuesEvents (set_event o' e) \<longleftrightarrow> ConfidentialIssuesEvents o' \<or> e = ''confidential_issues_events''"
  "MergeRequestsEvents (set_event o' e) \<longleftrightarrow> MergeRequestsEvents o' \<or> e = ''merge_requests_events''"
  "TagPushEvents (set_event o' e) \<longleftrightarrow> TagPushEvents o' \<or> e = ''tag_push_events''"
  "NoteEvents (set_event o' e) \<longleftrightarrow> NoteEvents o' \<or> e = ''note_events''"
  "JobEvents (set_event o' e) \<longleftrightarrow> JobEvents o' \<or> e = ''job_events''"
  "PipelineEvents (set_event o' e) \<longleftrightarrow> PipelineEvents o' \<or> e = ''pipeline_events''"
  "WikiPageEvents (set_event o' e) \<longleftrightarrow> WikiPageEvents o' \<or> e = ''wiki_page_events''"
  by (simp_all add: set_event_def)

lemma foldl_set_event_flags:
  "PushEvents (foldl set_event o' es) \<longleftrightarrow> PushEvents o' \<or> ''push_events'' \<in> set es"
  "IssuesEvents (foldl set_event o' es) \<longleftrightarrow> IssuesEvents o' \<or> ''issues_events'' \<in> set es"
  "ConfidentialIssuesEvents (foldl set_event o' es) \<longleftrightarrow> ConfidentialIssuesEvents o' \<or> ''confidential_issues_events'' \<in> set es"
  "MergeRequestsEvents (foldl set_event o' es) \<longleftrightarrow> MergeRequestsEvents o' \<or> ''merge_requests_events'' \<in> set es"
  "TagPushEvents (foldl set_event o' es) \<longleftrightarrow> TagPushEvents o' \<or> ''tag_push_events'' \<in> set es"
  "NoteEvents (foldl set_event o' es) \<longleftrightarrow> NoteEvents o' \<or> ''note_events'' \<in> set es"
  "JobEvents (foldl set_event o' es) \<longleftrightarrow> JobEvents o' \<or> ''job_events'' \<in> set es"
  "PipelineEvents (foldl set_event o' es) \<longleftrightarrow> PipelineEvents o' \<or> ''pipeline_events'' \<in> set es"
  "WikiPageEvents (foldl set_event o' es) \<longleftrightarrow> WikiPageEvents o' \<or> ''wiki_page_events'' \<in> set es"
  by (induction es arbitrary: o') (auto simp: set_event_flags)

text \<open>What a run of \<open>finalize\<close> leaves behind, however it ends.\<close>

definition finalize_frame :: "rstate \<Rightarrow> rstate \<Rightarrow> bool" where
  "finalize_frame s t \<longleftrightarrow>
     (\<exists>rs. list_all (finalize_request (st_src s)) rs \<and> st_trace t = st_trace s @ rs) \<and> st_cache t = st_cache s
     \<and> Spec (st_src t) = Spec (st_src s) \<and> gs_meta (st_src t) = gs_meta (removeFinalizer (st_src s))"

lemma hook_step_finalize_frame:
  "hook_step (finalize_request (st_src s)) (s\<lparr>st_src := src, st_trace := st_trace s @ rs\<rparr>) t \<Longrightarrow>
   list_all (finalize_request (st_src s)) rs \<Longrightarrow> gs_meta src = gs_meta (removeFinalizer (st_src s)) \<Longrightarrow>
   Spec src = Spec (st_src s) \<Longrightarrow> finalize_frame s t"
  by (auto simp: finalize_frame_def hook_step_def intro: exI [of _ "rs @ rs'" for rs'])

definition failed_event :: "rstate \<Rightarrow> go_error \<Rightarrow> event" where
  "failed_event s e = \<lparr>ev_type = ''Warning'', ev_reason = ''FailedFinalize'',
     ev_format = ''Could not delete webhook %q: %v'', ev_args = [WebhookIDKey (Status (st_src s)), err_text e]\<rparr>"

lemma wp_failedFinalize [wp_simps]:
  "wpG (failedFinalize e) Q E X s = E e (s\<lparr>st_events := st_events s @ [failed_event s e]\<rparr>)"
  by (simp add: failedFinalize_def wp_simps failed_event_def)

lemma wp_failedFinalize_fun [wp_simps]:
  "wpG (failedFinalize e) Q E X = (\<lambda>s. E e (s\<lparr>st_events := st_events s @ [failed_event s e]\<rparr>))"
  by (rule ext) (rule wp_failedFinalize)

lemma finalize_frame_events [simp]:
  "finalize_frame s (t\<lparr>st_events := es\<rparr>) = finalize_frame s t"
  by (simp add: finalize_frame_def)

lemma finalize_frame_status [simp]:
  "finalize_frame s (t\<lparr>st_src := (st_src t)\<lparr>Status := st\<rparr>\<rparr>) = finalize_frame s t"
  by (simp add: finalize_frame_def)

lemma failed_event_id:
  "WebhookIDKey (Status (st_src t)) = WebhookIDKey (Status (st_src s)) \<Longrightarrow> failed_event t e = failed_event s e"
  by (simp add: failed_event_def)

section \<open>A reconciler over a client that meets its contract\<close>

locale reconciler_client = webhook_client "rc_webhookClient r" for r :: Reconciler
begin

lemma createWebhook_frame:
  assumes "same_object (st_src s) (wa_source args)"
    and "WebhookIDKey (Status (st_src s)) = []"
  shows "keeps (stage_step (reconcile_request (st_src s)) s) (createWebhook r args)"
  unfolding createWebhook_def Let_def
proof (intro keeps_liftO_onErr keeps_onErr keeps_failG keeps_retG keeps_Create)
  fix pr base t rs
  assume "getProjectName (ProjectURL (Spec (wa_source args))) = Ok pr"
    and "getGitlabBaseURL (ProjectURL (Spec (wa_source args))) = Ok base"
  then have "source_server (st_src s) (make_client tok base) pr" for tok
    using same_object_fields [OF assms(1)] by (auto simp: source_server_def)
  then have "list_all (reconcile_request (st_src s)) rs"
    if "list_all (create_request (webhook_options args pr) base) rs"
    using that assms(2) by (auto simp: create_request_def Let_def elim!: list.pred_mono_strong)
  then show "stage_step (reconcile_request (st_src s)) s t \<Longrightarrow>
      list_all (create_request (webhook_options args pr) base) rs \<Longrightarrow>
      stage_step (reconcile_request (st_src s)) s (t\<lparr>st_trace := st_trace t @ rs\<rparr>)"
    by (simp add: stage_step_requests)
qed

lemma webhookStage_frame: "keeps (stage_step (reconcile_request (st_src s)) s) (webhookStage r toks)"
proof (cases toks)
  case (Pair a b)
  show ?thesis
    unfolding Pair webhookStage_def prod.case Let_def
  proof (intro keeps_intro createWebhook_frame)
    fix t assume "stage_step (reconcile_request (st_src s)) s t"
    then show "stage_step (reconcile_request (st_src s)) s (t\<lparr>st_src := addFinalizer (st_src t)\<rparr>)"
      by (rule stage_step_addFinalizer)
  next
    fix src assume src: "\<exists>t. stage_step (reconcile_request (st_src s)) s t \<and> st_src t = src"
    note so = stage_step_source(1) [OF src]
    show "stage_step (reconcile_request (st_src s)) s t \<Longrightarrow> stage_step (reconcile_request (st_src s)) s
        (t\<lparr>st_trace := st_trace t @ [ServiceList (om_Namespace (gs_meta src))]\<rparr>)" for t
      by (rule stage_step_request) (simp_all add: same_object_fields [OF so])
    assume id: "WebhookIDKey (Status src) = []"
    show id': "WebhookIDKey (Status (st_src s)) = []" by (rule stage_step_source(2) [OF src id])
    show "same_object (st_src s) (wa_source \<lparr>wa_source = src, wa_domain = d, wa_accessToken = a,
        wa_secretToken = b, wa_projectURL = [], wa_hookID = []\<rparr>)" for d
      by (simp add: so)
    fix i t assume t: "stage_step (reconcile_request (st_src s)) s t"
    show "stage_step (reconcile_request (st_src s)) s
        (t\<lparr>st_src := (st_src t)\<lparr>Status := (Status (st_src t))\<lparr>WebhookIDKey := i\<rparr>\<rparr>\<rparr>)"
      using t id' by (intro stage_step_src [OF t]) (auto simp: stage_step_def same_object_Status)
  qed
qed

lemma receiverStage_frame: "keeps (stage_step (reconcile_request (st_src s)) s) (receiverStage r toks)"
  unfolding receiverStage_def
  by (intro keeps_intro createReceiver_frame webhookStage_frame getOwnedReceiver_frame stage_step_source(1))

theorem reconcile_frame: "keeps (stage_step (reconcile_request (st_src s)) s) (reconcile r)"
  unfolding reconcile_def
  by (intro keeps_seqG keeps_thenG keeps_status_op keeps_id_ops secretsStage_frame sinkStage_frame receiverStage_frame)

lemma deleteWebhook_contract:
  assumes "same_object src (wa_source args)" and "WebhookIDKey (Status (wa_source args)) = WebhookIDKey (Status src)"
    and "WebhookIDKey (Status src) \<noteq> []" and "wa_projectURL args = ProjectURL (Spec src)"
  shows "wpG (deleteWebhook r args) (\<lambda>_ t. hook_step (finalize_request src) s t)
           (\<lambda>e t. hook_step (finalize_request src) s t) (\<lambda>t. t = s) s"
proof (cases "getProjectName (wa_projectURL args)")
  case (Ok pr)
  show ?thesis
  proof (cases "getGitlabBaseURL (wa_projectURL args)")
    case base: (Ok base)
    let ?o = "empty_hook_options\<lparr>accessToken := wa_accessToken args, project := pr,
                webhookID := WebhookIDKey (Status (wa_source args))\<rparr>"
    have "source_server src (make_client (accessToken ?o) base) pr"
      using Ok base assms(4) by (auto simp: source_server_def)
    then have sub: "hook_step (delete_request ?o base) s t \<Longrightarrow> hook_step (finalize_request src) s t" for t
      using assms(2,3)
      by (elim hook_step_mono) (auto simp: delete_request_def Let_def empty_hook_options_def)
    have "wpG (wc_Delete (rc_webhookClient r) ?o base) (\<lambda>_ t. hook_step (finalize_request src) s t)
        (\<lambda>e t. hook_step (finalize_request src) s t) (\<lambda>t. t = s) s"
      by (rule wpG_weaken [OF delete_wp]) (auto intro: sub)
    then show ?thesis using Ok base by (simp add: deleteWebhook_def wp_simps Let_def)
  qed (use Ok in \<open>simp_all add: deleteWebhook_def wp_simps Let_def hook_step_refl\<close>)
qed (simp_all add: deleteWebhook_def wp_simps Let_def hook_step_refl)

theorem finalize_contract:
  "wpG (finalize r)
     (\<lambda>_ t. finalize_frame s t \<and> Status (st_src t) = (Status (st_src s))\<lparr>WebhookIDKey := []\<rparr> \<and> st_events t = st_events s)
     (\<lambda>e t. finalize_frame s t \<and> WebhookIDKey (Status (st_src t)) = WebhookIDKey (Status (st_src s))
        \<and> WebhookIDKey (Status (st_src s)) \<noteq> [] \<and> st_events t = st_events s @ [failed_event s e])
     (\<lambda>t. finalize_frame s t \<and> WebhookIDKey (Status (st_src t)) = WebhookIDKey (Status (st_src s)) \<and> st_events t = st_events s) s"
proof -
  define src where "src = removeFinalizer (st_src s)"
  let ?t = "s\<lparr>st_src := src\<rparr>"
  let ?id = "WebhookIDKey (Status (st_src s))"
  have so: "same_object (st_src s) src" by (simp add: src_def same_object_removeFinalizer)
  have stat: "Status src = Status (st_src s)" by (simp add: src_def)
  note fields = same_object_fields [OF so]
  show ?thesis
  proof (cases "?id = []")
    case True
    have "(Status (st_src s))\<lparr>WebhookIDKey := []\<rparr> = Status (st_src s)" using True by simp
    moreover have "finalize_frame s ?t"
      unfolding finalize_frame_def by (auto simp: src_def fields [unfolded src_def] intro: exI [of _ "[]"])
    ultimately show ?thesis
      using True by (simp add: finalize_def wp_simps src_def [symmetric] stat)
  next
    case False
    show ?thesis
    proof (cases "SecretKeyRef (AccessToken (Spec (st_src s)))")
      case None
      have "finalize_frame s ?t"
        unfolding finalize_frame_def by (auto simp: src_def fields [unfolded src_def] intro: exI [of _ "[]"])
      then show ?thesis
        using False None by (simp add: finalize_def wp_simps src_def [symmetric] stat secretFrom_def fields)
    next
      case (Some sel)
      let ?r = "SecretGet (om_Namespace (gs_meta (st_src s))) (sks_Name sel)"
      let ?u = "?t\<lparr>st_trace := st_trace s @ [?r]\<rparr>"
      have req: "list_all (finalize_request (st_src s)) [?r]" using Some False by simp
      have fr: "finalize_frame s (?u\<lparr>st_src := src\<lparr>Status := st\<rparr>, st_clock := clk, st_events := es\<rparr>)" for st clk es
        unfolding finalize_frame_def using req
        by (auto simp: src_def fields [unfolded src_def] intro: exI [of _ "[?r]"])
      have del: "wpG (deleteWebhook r \<lparr>wa_source = src, wa_domain = [], wa_accessToken = tok, wa_secretToken = [],
             wa_projectURL = ProjectURL (Spec (st_src s)), wa_hookID = ?id\<rparr>)
          (\<lambda>_ t. hook_step (finalize_request (st_src s)) ?u t) (\<lambda>e t. hook_step (finalize_request (st_src s)) ?u t)
          (\<lambda>t. t = ?u) ?u" for tok
        by (rule deleteWebhook_contract) (simp_all add: so stat False)
      have after: "finalize_frame s t \<and> st_src t = src \<and> st_events t = st_events s"
        if "hook_step (finalize_request (st_src s)) ?u t" for t
        using hook_step_finalize_frame [where s = s and src = src and rs = "[?r]" and t = t] that req fields(4)
        by (auto simp: src_def hook_step_def)
      have del': "wpG (deleteWebhook r \<lparr>wa_source = src, wa_domain = [], wa_accessToken = tok, wa_secretToken = [],
             wa_projectURL = ProjectURL (Spec (st_src s)), wa_hookID = ?id\<rparr>)
          (\<lambda>_ t. finalize_frame s t \<and> st_src t = src \<and> st_events t = st_events s)
          (\<lambda>e t. finalize_frame s t \<and> st_src t = src \<and> st_events t = st_events s)
          (\<lambda>t. finalize_frame s t \<and> st_src t = src \<and> st_events t = st_events s) ?u" for tok
        using hook_step_refl [of "finalize_request (st_src s)" ?u]
        by (intro wpG_weaken [OF del]) (auto dest: after)
      have id: "WebhookIDKey (fst (MarkNoSecrets a b (Status (st_src s), clk))) = ?id" for a b clk
        using keeps_idD [OF keeps_id_ops(3), of a b "(Status (st_src s), clk)"] by simp
      note wps = finalize_def secretFrom_def wp_simps src_def [symmetric] stat fields
      show ?thesis
      proof (cases "env_SecretGet (rc_env r) (st_trace ?u)")
        case (Inl e)
        then show ?thesis using False Some fr by (simp add: wps id failed_event_def)
      next
        case (Inr secret)
        show ?thesis
        proof (cases "secret_Data secret (sks_Key sel)")
          case None
          then show ?thesis using False Some Inr fr by (simp add: wps id failed_event_def)
        next
          case tok: (Some tok)
          let ?args = "\<lparr>wa_source = src, wa_domain = [], wa_accessToken = tok, wa_secretToken = [],
             wa_projectURL = ProjectURL (Spec (st_src s)), wa_hookID = ?id\<rparr>"
          have "wpG (deleteWebhook r ?args)
             (\<lambda>_ t. finalize_frame s t \<and> (Status (st_src t))\<lparr>WebhookIDKey := []\<rparr> = (Status (st_src s))\<lparr>WebhookIDKey := []\<rparr> \<and> st_events t = st_events s)
             (\<lambda>e t. finalize_frame s t \<and> WebhookIDKey (Status (st_src t)) = ?id \<and> failed_event t e = failed_event s e
                \<and> st_events t = st_events s)
             (\<lambda>t. finalize_frame s t \<and> WebhookIDKey (Status (st_src t)) = ?id \<and> st_events t = st_events s) ?u"
            by (rule wpG_weaken [OF del']) (auto simp: stat failed_event_def)
          then show ?thesis using False Some Inr tok
            by (simp add: wps) (erule wpG_weaken; simp add: wp_simps)
        qed
      qed
    qed
  qed
qed

end

section \<open>The reconciler of the controller\<close>

lemma newReconciler_fields [simp]:
  "rc_env (newReconciler env scheme img) = env" "rc_scheme (newReconciler env scheme img) = scheme"
  "rc_receiveAdapterImage (newReconciler env scheme img) = img"
  "rc_webhookClient (newReconciler env scheme img) = gitLabWebhookClient env"
  by (simp_all add: newReconciler_def)

interpretation main: reconciler_client "newReconciler env scheme img" for env scheme img
  by (simp add: reconciler_client_def gitlab.webhook_client_axioms)

section \<open>Exact runs of the first stages\<close>

text \<open>Reading a secret, as a function of the one response.\<close>

definition secret_result :: "SecretKeySelector \<Rightarrow> go_error + Secret \<Rightarrow> go_error + string" where
  "secret_result sel resp =
     (case resp of
        Inl e \<Rightarrow> Inl e
      | Inr secret \<Rightarrow>
          (case secret_Data secret (sks_Key sel) of
             None \<Rightarrow> Inl (PlainError (''key '' @ [CHR 0x22] @ sks_Key sel @ [CHR 0x22] @ '' not found in secret ''
                                      @ [CHR 0x22] @ sks_Name sel @ [CHR 0x22]))
           | Some v \<Rightarrow> Inr v))"

definition secret_read :: "Reconciler \<Rightarrow> string \<Rightarrow> SecretKeySelector \<Rightarrow> history \<Rightarrow> go_error + string" where
  "secret_read r ns sel h = secret_result sel (env_SecretGet (rc_env r) (h @ [SecretGet ns (sks_Name sel)]))"

lemma wp_secretFrom [wp_simps]:
  "wpG (secretFrom r ns (Some sel)) Q E X s =
     (let t = s\<lparr>st_trace := st_trace s @ [SecretGet ns (sks_Name sel)]\<rparr>
      in case secret_read r ns sel (st_trace s) of Inl e \<Rightarrow> E e t | Inr v \<Rightarrow> Q v t)"
  by (simp add: secretFrom_def wp_simps secret_read_def secret_result_def Let_def split: sum.split option.split)

lemma wp_secretFrom_None [wp_simps]: "wpG (secretFrom r ns None) Q E X s = X s"
  by (simp add: secretFrom_def wp_simps)

text \<open>Reading the sink, as a function of the one response.\<close>

definition sink_result :: "go_error + Unstructured \<Rightarrow> string outcome" where
  "sink_result resp =
     (case resp of
        Inl e \<Rightarrow> Err e
      | Inr u \<Rightarrow>
          (let objIdentifier = [CHR 0x22] @ u_Namespace u @ ''/'' @ u_Name u @ [CHR 0x22] @ '' ('' @ GroupVersionKind_String (u_GVK u) @ '')''
           in case u_Addressable u of
                Panic \<Rightarrow> Panic
              | Err e \<Rightarrow> Err (PlainError (''failed to deserialize sink '' @ objIdentifier @ '': '' @ err_text e))
              | Ok None \<Rightarrow> Err (PlainError (''sink '' @ objIdentifier @ '' does not contain address''))
              | Ok (Some None) \<Rightarrow> Err (PlainError (''sink '' @ objIdentifier @ '' contains an empty URL''))
              | Ok (Some (Some uri)) \<Rightarrow> Ok uri))"

definition sink_request :: "ObjectReference \<Rightarrow> request" where
  "sink_request ref =
     DynamicGet (fst (UnsafeGuessKindToResource (ObjectReference_GVK ref))) (ref_Namespace ref) (ref_Name ref)"

lemma wp_getSinkURI [wp_simps]:
  "wpG (getSinkURI r (Some ref) ns) Q E X s =
     (let t = s\<lparr>st_trace := st_trace s @ [sink_request ref]\<rparr>
      in case sink_result (env_DynamicGet (rc_env r) (st_trace t)) of Ok u \<Rightarrow> Q u t | Err e \<Rightarrow> E e t | Panic \<Rightarrow> X t)"
  by (simp add: getSinkURI_def wp_simps sink_result_def sink_request_def Let_def split: sum.split outcome.split option.split)

end
