(* ===== verification/ReconcileLoop.thy ===== *)
theory ReconcileLoop
  imports ReconcilerLemmas
begin

text \<open>
  Facts about \<open>Reconcile\<close> as a whole: the write-back of status and finalizers through the
  lister's objects, the invariant of the statuses in the cache, and what a run of
  \<open>reconcile\<close> has achieved when it returns nil.
\<close>

section \<open>Write-back\<close>

abbreviation own_key :: "GitLabSource \<Rightarrow> string" where
  "own_key src \<equiv> lister_key (om_Namespace (gs_meta src)) (om_Name (gs_meta src))"

lemma wp_lister_Get [wp_simps]:
  "wpG (lister_Get ns name) Q E X s =
     (case st_cache s (lister_key ns name) of
        None \<Rightarrow> E (NewNotFound (GroupResource_String ''gitlabsource'') name) s
      | Some src \<Rightarrow> Q src s)"
  by (simp add: lister_Get_def wp_simps split: option.split)

lemma wp_putCache [wp_simps]:
  "wpG (putCache ns name src) Q E X s = Q () (s\<lparr>st_cache := (st_cache s)(lister_key ns name \<mapsto> src)\<rparr>)"
  by (simp add: putCache_def wp_simps)

lemma wp_updateStatus [wp_simps]:
  "wpG (updateStatus r src) Q E X s =
     (case st_cache s (own_key src) of
        None \<Rightarrow> E (getting_error (om_Name (gs_meta src)) (NewNotFound (GroupResource_String ''gitlabsource'') (om_Name (gs_meta src)))) s
      | Some new \<Rightarrow>
          (if Status src = Status new then Q () s
           else let new' = new\<lparr>Status := Status src\<rparr>; q = UpdateStatus (om_Namespace (gs_meta src)) new';
                    t = s\<lparr>st_cache := (st_cache s)(own_key src \<mapsto> new'), st_trace := st_trace s @ [q]\<rparr>
                in case env_UpdateStatus (rc_env r) (st_trace s @ [q]) of Inl e \<Rightarrow> E e t | Inr _ \<Rightarrow> Q () t))"
  by (cases "st_cache s (own_key src)") (auto simp: updateStatus_def wp_simps Let_def split: sum.split)

lemma wp_update [wp_simps]:
  "wpG (update r src) Q E X s =
     (case st_cache s (own_key src) of
        None \<Rightarrow> E (getting_error (om_Name (gs_meta src)) (NewNotFound (GroupResource_String ''gitlabsource'') (om_Name (gs_meta src)))) s
      | Some new \<Rightarrow>
          (if om_Finalizers (gs_meta src) = om_Finalizers (gs_meta new) then Q () s
           else let new' = new\<lparr>gs_meta := (gs_meta new)\<lparr>om_Finalizers := om_Finalizers (gs_meta src)\<rparr>\<rparr>;
                    q = Update (om_Namespace (gs_meta src)) new';
                    t = s\<lparr>st_cache := (st_cache s)(own_key src \<mapsto> new'), st_trace := st_trace s @ [q]\<rparr>
                in case env_Update (rc_env r) (st_trace s @ [q]) of Inl e \<Rightarrow> E e t | Inr _ \<Rightarrow> Q () t))"
  by (cases "st_cache s (own_key src)") (auto simp: update_def wp_simps Let_def split: sum.split)

definition failed_update_event :: event where
  "failed_update_event = \<lparr>ev_type = ''Warning'', ev_reason = [], ev_format = ''gitResource failed to update'', ev_args = []\<rparr>"

lemma wp_failedUpdate [wp_simps]:
  "wpG (failedUpdate e) Q E X s = E e (s\<lparr>st_events := st_events s @ [failed_update_event]\<rparr>)"
  by (simp add: failedUpdate_def wp_simps failed_update_event_def)

text \<open>
  The requests of a write-back of \<open>src\<close> over the lister's object \<open>new\<close>: the status if it
  is to be written, then the finalizers on top of it.
\<close>

definition write_back_requests :: "GitLabSource \<Rightarrow> GitLabSource \<Rightarrow> history \<Rightarrow> bool" where
  "write_back_requests src new ws \<longleftrightarrow>
     (let ns = om_Namespace (gs_meta src);
          st = new\<lparr>Status := Status src\<rparr>;
          fin = (\<lambda>o'. o'\<lparr>gs_meta := (gs_meta o')\<lparr>om_Finalizers := om_Finalizers (gs_meta src)\<rparr>\<rparr>)
      in ws = [] \<or> ws = [UpdateStatus ns st] \<or> ws = [Update ns (fin new)] \<or> ws = [UpdateStatus ns st, Update ns (fin st)])"

text \<open>Only the cached object of \<open>src\<close> itself is written.\<close>

definition write_frame :: "GitLabSource \<Rightarrow> rstate \<Rightarrow> rstate \<Rightarrow> bool" where
  "write_frame src s t \<longleftrightarrow> st_src t = st_src s \<and> (\<forall>k. k \<noteq> own_key src \<longrightarrow> st_cache t k = st_cache s k)
     \<and> (\<exists>ws. st_trace t = st_trace s @ ws \<and>
          (case st_cache s (own_key src) of None \<Rightarrow> ws = [] | Some new \<Rightarrow> write_back_requests src new ws))"

lemma write_frame_events [simp]: "write_frame src s (t\<lparr>st_events := es\<rparr>) = write_frame src s t"
  by (simp add: write_frame_def)

lemma writeBack_frame:
  "wpG (writeBack r original err) (\<lambda>_ t. write_frame (st_src s) s t \<and> err = None)
     (\<lambda>e t. write_frame (st_src s) s t) (\<lambda>t. False) s"
proof -
  let ?src = "st_src s"
  let ?k = "own_key ?src"
  have refl: "write_frame ?src s s"
    by (auto simp: write_frame_def write_back_requests_def Let_def split: option.split)
  show ?thesis
  proof (cases "st_cache s ?k")
    case None
    then show ?thesis using refl
      by (simp add: writeBack_def wp_simps split: option.split)
  next
    case (Some new)
    then show ?thesis using refl
      by (simp add: writeBack_def wp_simps Let_def split: option.split sum.split)
        (auto simp: write_frame_def write_back_requests_def Let_def)
  qed
qed

section \<open>The statuses in the cache\<close>

definition cache_good :: "rstate \<Rightarrow> bool" where
  "cache_good s \<longleftrightarrow> (\<forall>k src. st_cache s k = Some src \<longrightarrow> good_status (Status src))"

definition good_state :: "rstate \<Rightarrow> bool" where
  "good_state s \<longleftrightarrow> cache_good s \<and> good_status (Status (st_src s))"

lemma keeps_good_onStatus:
  assumes "good_op f"
  shows "keeps good_state (onStatus f)"
  unfolding onStatus_def
proof (rule keeps_modG)
  fix s assume s: "good_state s"
  then have "good_status (fst (f (Status (st_src s), st_clock s)))"
    using assms by (simp add: good_op_def good_state_def)
  with s show "good_state (let (st', clk') = f (Status (st_src s), st_clock s)
      in s\<lparr>st_src := (st_src s)\<lparr>Status := st'\<rparr>, st_clock := clk'\<rparr>)"
    by (simp add: split_def Let_def good_state_def cache_good_def)
qed

lemma keeps_good_issue: "keeps good_state (issue r resp)"
  and keeps_good_Eventf: "keeps good_state (Eventf a b c d)"
  by (rule keeps_issue keeps_Eventf, simp add: good_state_def cache_good_def)+

lemma keeps_good_modSrc:
  "(\<And>src. good_status (Status src) \<Longrightarrow> good_status (Status (f src))) \<Longrightarrow> keeps good_state (modSrc f)"
  by (rule keeps_modSrc) (simp add: good_state_def cache_good_def)

lemma keeps_good_putCache: "good_status (Status src) \<Longrightarrow> keeps good_state (putCache ns name src)"
  unfolding putCache_def by (rule keeps_modG) (auto simp: good_state_def cache_good_def)

lemma keeps_good_requests: "good_state s \<Longrightarrow> good_state (s\<lparr>st_trace := rs\<rparr>)"
  by (simp add: good_state_def cache_good_def)

lemma keeps_good_lister:
  assumes "\<And>src. good_status (Status src) \<Longrightarrow> keeps good_state (k src)" and "\<And>e. keeps good_state (h e)"
  shows "keeps good_state (onErr (lister_Get ns name) h k)"
proof (unfold keeps_def, intro allI impI)
  fix s assume s: "good_state s"
  show "good_state (snd (onErr (lister_Get ns name) h k s))"
  proof (cases "st_cache s (lister_key ns name)")
    case None
    then show ?thesis using keepsD [OF assms(2) s]
      by (simp add: onErr_def lister_Get_def thenG_def getG_def failG_def)
  next
    case (Some src)
    then have "good_status (Status src)" using s by (auto simp: good_state_def cache_good_def)
    from keepsD [OF assms(1) [OF this] s] Some show ?thesis
      by (simp add: onErr_def lister_Get_def thenG_def getG_def retG_def)
  qed
qed

lemmas keeps_good =
  keeps_good_onStatus keeps_good_issue keeps_good_Eventf keeps_good_modSrc keeps_good_putCache keeps_good_lister

lemma good_secretFrom: "keeps good_state (secretFrom r ns sel)"
  unfolding secretFrom_def by (intro keeps_option keeps_intro keeps_good_issue)

lemma good_getSinkURI: "keeps good_state (getSinkURI r sink ns)"
  unfolding getSinkURI_def Let_def by (intro keeps_option keeps_thenG keeps_onErr keeps_good_issue keeps_intro)

lemma process_eq:
  "process r original s =
     onErr (if om_DeletionTimestamp (gs_meta original) = None then reconcile r else finalize r)
       (\<lambda>e. writeBack r original (Some e)) (\<lambda>_. writeBack r original None) (s\<lparr>st_src := original\<rparr>)"
  by (simp add: process_def seqG_def thenG_def onErr_def modSrc_def modG_def)

lemma Reconcile_eq:
  "Reconcile r key s =
     (case SplitMetaNamespaceKey key of
        Inl e \<Rightarrow> (Ok (), s)
      | Inr (ns, name) \<Rightarrow>
          (case st_cache s (lister_key ns name) of None \<Rightarrow> (Ok (), s) | Some src \<Rightarrow> process r src s))"
  by (simp add: Reconcile_def lister_Get_def thenG_def onErr_def getG_def failG_def retG_def
      IsNotFound_def NewNotFound_def split: sum.split option.split)

context reconciler_client
begin

lemma good_createWebhook: "keeps good_state (createWebhook r args)"
  unfolding createWebhook_def Let_def
  by (intro keeps_liftO_onErr keeps_onErr keeps_failG keeps_retG keeps_Create keeps_good_requests)

lemma good_deleteWebhook: "keeps good_state (deleteWebhook r args)"
  unfolding deleteWebhook_def Let_def
  by (intro keeps_liftO_onErr keeps_onErr keeps_failG keeps_retG keeps_Delete keeps_good_requests)

lemma good_reconcile: "keeps good_state (reconcile r)"
  unfolding reconcile_def receiverStage_def secretsStage_def sinkStage_def createReceiver_def webhookStage_def getOwnedReceiver_def Let_def split_def
  by (intro keeps_seqG keeps_thenG keeps_onErr keeps_withSrc keeps_if keeps_option good_secretFrom good_getSinkURI
      good_createWebhook keeps_good good_ops keeps_failG keeps_retG keeps_liftG keeps_liftO) simp_all

lemma good_finalize: "keeps good_state (finalize r)"
  unfolding finalize_def failedFinalize_def Let_def
  by (intro keeps_seqG keeps_thenG keeps_onErr keeps_withSrc keeps_if good_secretFrom
      good_deleteWebhook keeps_good good_ops keeps_failG keeps_retG) simp_all

lemma good_writeBack: "keeps good_state (writeBack r original err)"
  unfolding writeBack_def updateStatus_def update_def failedUpdate_def Let_def
  by (intro keeps_seqG keeps_onErr keeps_good_lister keeps_withSrc keeps_if keeps_option keeps_good keeps_failG keeps_retG)
    (auto simp: good_state_def)

lemma good_process:
  assumes "cache_good s" and "good_status (Status original)"
  shows "cache_good (snd (process r original s))"
proof -
  let ?t = "s\<lparr>st_src := original\<rparr>"
  have t: "good_state ?t" using assms by (simp add: good_state_def cache_good_def)
  have "keeps good_state (onErr (if om_DeletionTimestamp (gs_meta original) = None then reconcile r else finalize r)
      (\<lambda>e. writeBack r original (Some e)) (\<lambda>_. writeBack r original None))"
    by (intro keeps_onErr keeps_if good_reconcile good_finalize good_writeBack)
  from keepsD [OF this t] show ?thesis
    by (simp only: process_eq good_state_def)
qed

lemma good_Reconcile:
  assumes "cache_good s"
  shows "cache_good (snd (Reconcile r key s))"
  using assms by (auto simp: Reconcile_eq cache_good_def [of s] intro: good_process split: sum.split option.split)

end

section \<open>Exact runs of the stages\<close>

definition asked :: "request list \<Rightarrow> rstate \<Rightarrow> rstate" where
  "asked rs s = s\<lparr>st_trace := st_trace s @ rs\<rparr>"

definition marked :: "status_op \<Rightarrow> rstate \<Rightarrow> rstate" where
  "marked op s = s\<lparr>st_src := (st_src s)\<lparr>Status := fst (run_op op (Status (st_src s), st_clock s))\<rparr>,
                   st_clock := snd (run_op op (Status (st_src s), st_clock s))\<rparr>"

lemma asked_fields [simp]:
  "st_src (asked rs s) = st_src s" "st_cache (asked rs s) = st_cache s" "st_trace (asked rs s) = st_trace s @ rs"
  "st_events (asked rs s) = st_events s" "st_clock (asked rs s) = st_clock s"
  by (simp_all add: asked_def)

lemma asked_asked [simp]: "asked qs (asked rs s) = asked (rs @ qs) s" "asked [] s = s"
  by (simp_all add: asked_def)

lemma marked_fields [simp]:
  "gs_meta (st_src (marked op s)) = gs_meta (st_src s)" "Spec (st_src (marked op s)) = Spec (st_src s)"
  "st_cache (marked op s) = st_cache s" "st_trace (marked op s) = st_trace s" "st_events (marked op s) = st_events s"
  "Status (st_src (marked op s)) = fst (run_op op (Status (st_src s), st_clock s))"
  by (simp_all add: marked_def)

lemma wp_ops:
  "wpG (onStatus Status_InitializeConditions) Q E X s = Q () (marked OpInit s)"
  "wpG (onStatus MarkSecrets) Q E X s = Q () (marked OpSecrets s)"
  "wpG (onStatus (MarkNoSecrets a b)) Q E X s = Q () (marked (OpNoSecrets a b) s)"
  "wpG (onStatus (MarkSink u)) Q E X s = Q () (marked (OpSink u) s)"
  "wpG (onStatus (MarkNoSink a b)) Q E X s = Q () (marked (OpNoSink a b) s)"
  by (simp_all add: wp_onStatus marked_def)

lemma wp_issue_asked:
  "wpG (issue q resp) Q E X s =
     (case resp (st_trace s @ [q]) of Inl e \<Rightarrow> E e (asked [q] s) | Inr v \<Rightarrow> Q v (asked [q] s))"
  by (simp add: wp_issue asked_def split: sum.split)

lemma wp_requests:
  "wpG (secretFrom r ns (Some sel)) Q E X s =
     (case secret_read r ns sel (st_trace s) of
        Inl e \<Rightarrow> E e (asked [SecretGet ns (sks_Name sel)] s) | Inr v \<Rightarrow> Q v (asked [SecretGet ns (sks_Name sel)] s))"
  "wpG (getSinkURI r (Some ref) ns) Q E X s =
     (case sink_result (env_DynamicGet (rc_env r) (st_trace s @ [sink_request ref])) of
        Ok u \<Rightarrow> Q u (asked [sink_request ref] s) | Err e \<Rightarrow> E e (asked [sink_request ref] s) | Panic \<Rightarrow> X (asked [sink_request ref] s))"
  by (simp_all add: wp_secretFrom wp_getSinkURI asked_def Let_def split: sum.split outcome.split)

lemmas stage_simps = wp_issue_asked wp_requests wp_retG wp_failG wp_failG_fun wp_retG_fun wp_panicG wp_onErr wp_thenG wp_seqG wp_liftG wp_liftO
  wp_withSrc wp_modSrc wp_ops

text \<open>The selectors of the two secrets; without one of them the stage panics.\<close>

lemma wp_secretsStage:
  assumes "SecretKeyRef (AccessToken (Spec (st_src s))) = Some a" and "SecretKeyRef (SecretToken (Spec (st_src s))) = Some b"
  shows "wpG (secretsStage r) Q E X s =
     (let ns = om_Namespace (gs_meta (st_src s)); s1 = asked [SecretGet ns (sks_Name a)] s;
          s2 = asked [SecretGet ns (sks_Name a), SecretGet ns (sks_Name b)] s
      in case secret_read r ns a (st_trace s) of
           Inl e \<Rightarrow> E e (marked (OpNoSecrets ''AccessTokenNotFound'' (err_text e)) s1)
         | Inr v \<Rightarrow>
             (case secret_read r ns b (st_trace s1) of
                Inl e \<Rightarrow> E e (marked (OpNoSecrets ''SecretTokenNotFound'' (err_text e)) s2)
              | Inr w \<Rightarrow> Q (v, w) (marked OpSecrets s2)))"
  using assms by (simp add: secretsStage_def stage_simps Let_def split: sum.split)

text \<open>What the sink of a spec resolves to, and the request that takes.\<close>

definition sink_value :: "Reconciler \<Rightarrow> GitLabSourceSpec \<Rightarrow> history \<Rightarrow> string option outcome" where
  "sink_value r sp h =
     (case Sink sp of
        Some ref \<Rightarrow> (case sink_result (env_DynamicGet (rc_env r) (h @ [sink_request ref])) of
                      Ok u \<Rightarrow> Ok (Some u) | Err e \<Rightarrow> Err e | Panic \<Rightarrow> Panic)
      | None \<Rightarrow> Ok (URI sp))"

definition sink_requests :: "GitLabSourceSpec \<Rightarrow> request list" where
  "sink_requests sp = (case Sink sp of Some ref \<Rightarrow> [sink_request ref] | None \<Rightarrow> [])"

definition sink_op :: "string option \<Rightarrow> status_op" where
  "sink_op v = (case v of Some u \<Rightarrow> OpSink u | None \<Rightarrow> OpNoSink ''NotFound'' (Sprintf_s None))"

lemma wp_sinkStage:
  "wpG (sinkStage r) Q E X s =
     (let t = asked (sink_requests (Spec (st_src s))) s
      in case sink_value r (Spec (st_src s)) (st_trace s) of
           Ok v \<Rightarrow> Q () (marked (sink_op v) t)
         | Err e \<Rightarrow> E e (marked (OpNoSink ''NotFound'' (err_text e)) t)
         | Panic \<Rightarrow> X t)"
  by (simp add: sinkStage_def stage_simps sink_value_def sink_requests_def sink_op_def Let_def
      split: option.split outcome.split)

lemma wp_getOwnedReceiver:
  "wpG (getOwnedReceiver r src) Q E X s =
     (let t = asked [DeploymentList (om_Namespace (gs_meta src)) (getLabelSelector src)] s
      in case env_DeploymentList (rc_env r) (st_trace t) of
           Inl e \<Rightarrow> E e t
         | Inr items \<Rightarrow>
             (case find (\<lambda>d. IsControlledBy (dep_meta d) (gs_meta src)) items of
                None \<Rightarrow> E (NewNotFound [] []) t
              | Some d \<Rightarrow> Q d t))"
  by (simp add: getOwnedReceiver_def stage_simps Let_def split: sum.split option.split)

definition created_event :: "rstate \<Rightarrow> rstate" where
  "created_event s = s\<lparr>st_events := st_events s @
     [\<lparr>ev_type = ''Normal'', ev_reason = ''ServiceCreated'', ev_format = ''Created Service %s'', ev_args = [[]]\<rparr>]\<rparr>"

lemma created_event_fields [simp]:
  "st_src (created_event s) = st_src s" "st_cache (created_event s) = st_cache s" "st_trace (created_event s) = st_trace s"
  by (simp_all add: created_event_def)

lemma receiver_name:
  "SetControllerReference typ owner scheme (dep_meta (MakeReceiveAdapter src img)) = Inr m \<Longrightarrow> om_Name m = []"
  by (elim SetControllerReference_controls) (simp_all add: MakeReceiveAdapter_def Let_def empty_meta_def)

lemma wp_createReceiver:
  "wpG (createReceiver r) Q E X s =
     (let src = st_src s; ns = om_Namespace (gs_meta src); d = MakeReceiveAdapter src (rc_receiveAdapterImage r);
          v = MakePublicService src
      in case SetControllerReference ''GitLabSource'' (gs_meta src) (rc_scheme r) (dep_meta d) of
           Inl e \<Rightarrow> E e s
         | Inr m \<Rightarrow>
             (let t = asked [DeploymentCreate ns (d\<lparr>dep_meta := m\<rparr>)] s
              in case env_DeploymentCreate (rc_env r) (st_trace t) of
                   Inl e \<Rightarrow> E e t
                 | Inr _ \<Rightarrow>
                     (case SetControllerReference ''GitLabSource'' (gs_meta src) (rc_scheme r) (svc_meta v) of
                        Inl e \<Rightarrow> E e t
                      | Inr m' \<Rightarrow> Q () (created_event (asked [ServiceCreate ns (v\<lparr>svc_meta := m'\<rparr>)] t)))))"
  by (simp add: createReceiver_def stage_simps wp_Eventf Let_def created_event_def receiver_name
      split: sum.split)

lemma wp_webhookStage:
  "wpG (webhookStage r (a, b)) Q E X s =
     (let src = addFinalizer (st_src s); ns = om_Namespace (gs_meta src);
          t = asked [ServiceList ns] (s\<lparr>st_src := src\<rparr>)
      in case env_ServiceList (rc_env r) (st_trace t) of
           Inl e \<Rightarrow> E e t
         | Inr items \<Rightarrow>
             (case receiveAdapterDomain (pickService (om_Name (gs_meta src)) items) of
                Panic \<Rightarrow> X t
              | Err e \<Rightarrow> E e t
              | Ok domain \<Rightarrow>
                  (if WebhookIDKey (Status src) = []
                   then wpG (createWebhook r \<lparr>wa_source = src, wa_domain = domain, wa_accessToken = a,
                                wa_secretToken = b, wa_projectURL = [], wa_hookID = []\<rparr>)
                          (\<lambda>i u. Q () (u\<lparr>st_src := (st_src u)\<lparr>Status := (Status (st_src u))\<lparr>WebhookIDKey := i\<rparr>\<rparr>\<rparr>)) E X t
                   else Q () t)))"
proof -
  have mod: "wpG (modSrc f) Q E X = (\<lambda>s. Q () (s\<lparr>st_src := f (st_src s)\<rparr>))" for f Q E X
    by (rule ext) (rule wp_modSrc)
  show ?thesis
    by (simp add: webhookStage_def stage_simps Let_def mod split: sum.split outcome.split)
qed

lemma addFinalizer_has: "finalizerName \<in> set (om_Finalizers (gs_meta (addFinalizer src)))"
  by (simp add: addFinalizer_def Let_def strings.set_lst_ins)

definition receiver_created :: "rstate \<Rightarrow> rstate \<Rightarrow> bool" where
  "receiver_created s t \<longleftrightarrow> st_src t = st_src s \<and>
     (\<exists>d v. st_trace t = st_trace s @ [DeploymentList (om_Namespace (gs_meta (st_src s))) (getLabelSelector (st_src s)),
              DeploymentCreate (om_Namespace (gs_meta (st_src s))) d, ServiceCreate (om_Namespace (gs_meta (st_src s))) v])"

definition hook_registered :: "rstate \<Rightarrow> rstate \<Rightarrow> bool" where
  "hook_registered s t \<longleftrightarrow>
     WebhookIDKey (Status (st_src t)) \<noteq> [] \<and> finalizerName \<in> set (om_Finalizers (gs_meta (st_src t)))
     \<and> (WebhookIDKey (Status (st_src s)) \<noteq> [] \<longrightarrow>
          Status (st_src t) = Status (st_src s) \<and>
          st_trace t = st_trace s @ [DeploymentList (om_Namespace (gs_meta (st_src s))) (getLabelSelector (st_src s)),
                                     ServiceList (om_Namespace (gs_meta (st_src s)))])"

context reconciler_client
begin

lemma createWebhook_contract:
  "wpG (createWebhook r args)
     (\<lambda>i t. i \<noteq> [] \<and> st_src t = st_src s \<and> count is_AddHook (st_trace t) \<le> Suc (count is_AddHook (st_trace s)))
     (\<lambda>e t. count is_AddHook (st_trace t) \<le> Suc (count is_AddHook (st_trace s))) (\<lambda>t. t = s) s"
proof -
  have "wpG (wc_Create (rc_webhookClient r) o' base)
     (\<lambda>i t. i \<noteq> [] \<and> st_src t = st_src s \<and> count is_AddHook (st_trace t) \<le> Suc (count is_AddHook (st_trace s)))
     (\<lambda>e t. count is_AddHook (st_trace t) \<le> Suc (count is_AddHook (st_trace s))) (\<lambda>t. t = s) s" for o' base
    by (rule wpG_weaken [OF create_contract]) (auto dest: hook_step_sel)
  then show ?thesis
    by (simp add: createWebhook_def stage_simps Let_def split: outcome.split)
qed

lemma webhookStage_contract:
  "wpG (webhookStage r toks)
     (\<lambda>_ t. WebhookIDKey (Status (st_src t)) \<noteq> [] \<and> finalizerName \<in> set (om_Finalizers (gs_meta (st_src t)))
        \<and> count is_AddHook (st_trace t) \<le> Suc (count is_AddHook (st_trace s))
        \<and> (WebhookIDKey (Status (st_src s)) \<noteq> [] \<longrightarrow> Status (st_src t) = Status (st_src s)
              \<and> st_trace t = st_trace s @ [ServiceList (om_Namespace (gs_meta (st_src s)))]))
     (\<lambda>e t. count is_AddHook (st_trace t) \<le> Suc (count is_AddHook (st_trace s)))
     (\<lambda>t. count is_AddHook (st_trace t) \<le> Suc (count is_AddHook (st_trace s))) s"
proof (cases toks)
  case (Pair a b)
  let ?ns = "om_Namespace (gs_meta (st_src s))"
  let ?t = "asked [ServiceList ?ns] (s\<lparr>st_src := addFinalizer (st_src s)\<rparr>)"
  have ns: "om_Namespace (gs_meta (addFinalizer (st_src s))) = ?ns"
    "om_Name (gs_meta (addFinalizer (st_src s))) = om_Name (gs_meta (st_src s))"
    by (simp_all add: addFinalizer_def Let_def)
  have "wpG (createWebhook r args)
     (\<lambda>i t. i \<noteq> [] \<and> finalizerName \<in> set (om_Finalizers (gs_meta (st_src t)))
        \<and> count is_AddHook (st_trace t) \<le> Suc (count is_AddHook (st_trace s)))
     (\<lambda>e t. count is_AddHook (st_trace t) \<le> Suc (count is_AddHook (st_trace s)))
     (\<lambda>t. count is_AddHook (st_trace t) \<le> Suc (count is_AddHook (st_trace s))) ?t" for args
    by (rule wpG_weaken [OF createWebhook_contract]) (auto simp: addFinalizer_has)
  then show ?thesis
    by (simp add: Pair wp_webhookStage Let_def ns addFinalizer_has split: sum.split outcome.split)
qed

lemma receiverStage_contract:
  "wpG (receiverStage r toks)
     (\<lambda>_ t. (receiver_created s t \<or> hook_registered s t) \<and> count is_AddHook (st_trace t) \<le> Suc (count is_AddHook (st_trace s)))
     (\<lambda>e t. count is_AddHook (st_trace t) \<le> Suc (count is_AddHook (st_trace s)))
     (\<lambda>t. count is_AddHook (st_trace t) \<le> Suc (count is_AddHook (st_trace s))) s"
proof -
  let ?t = "asked [DeploymentList (om_Namespace (gs_meta (st_src s))) (getLabelSelector (st_src s))] s"
  have "wpG (webhookStage r toks)
     (\<lambda>_ t. (receiver_created s t \<or> hook_registered s t) \<and> count is_AddHook (st_trace t) \<le> Suc (count is_AddHook (st_trace s)))
     (\<lambda>e t. count is_AddHook (st_trace t) \<le> Suc (count is_AddHook (st_trace s)))
     (\<lambda>t. count is_AddHook (st_trace t) \<le> Suc (count is_AddHook (st_trace s))) ?t"
    by (rule wpG_weaken [OF webhookStage_contract]) (auto simp: hook_registered_def)
  then show ?thesis
    by (simp add: receiverStage_def stage_simps wp_getOwnedReceiver wp_createReceiver Let_def receiver_created_def
        split: sum.split option.split)
qed

end

section \<open>What reconcile achieves\<close>

text \<open>Up to the receiver only reads happen; metadata, spec and hook ID stay.\<close>

definition reads_only :: "rstate \<Rightarrow> rstate \<Rightarrow> bool" where
  "reads_only s t \<longleftrightarrow> (\<exists>rs. st_trace t = st_trace s @ rs \<and> list_all (\<lambda>q. \<not> mutating q) rs) \<and> st_cache t = st_cache s
     \<and> gs_meta (st_src t) = gs_meta (st_src s) \<and> Spec (st_src t) = Spec (st_src s)
     \<and> WebhookIDKey (Status (st_src t)) = WebhookIDKey (Status (st_src s))"

lemma reads_only_refl: "reads_only s s"
  by (simp add: reads_only_def)

lemma reads_only_issue: "\<not> mutating q \<Longrightarrow> keeps (reads_only s) (issue q resp)"
  by (rule keeps_issue) (auto simp: reads_only_def intro: exI [of _ "rs @ [q]" for rs])

lemma reads_only_status: "keeps_id f \<Longrightarrow> keeps (reads_only s) (onStatus f)"
  by (rule keeps_onStatus_id) (auto simp: reads_only_def)

lemma reads_only_secretFrom: "keeps (reads_only s) (secretFrom r ns sel)"
  unfolding secretFrom_def by (intro keeps_option keeps_thenG reads_only_issue keeps_intro) simp

lemma reads_only_getSinkURI: "keeps (reads_only s) (getSinkURI r sink ns)"
  unfolding getSinkURI_def Let_def
  by (intro keeps_option keeps_thenG keeps_onErr reads_only_issue keeps_liftO keeps_failG keeps_retG) simp

lemma reads_only_secretsStage: "keeps (reads_only s) (secretsStage r)"
  unfolding secretsStage_def
  by (intro keeps_withSrc keeps_onErr keeps_seqG reads_only_secretFrom reads_only_status keeps_id_ops keeps_failG keeps_retG)

lemma reads_only_sinkStage: "keeps (reads_only s) (sinkStage r)"
  unfolding sinkStage_def
  by (intro keeps_withSrc keeps_onErr keeps_option keeps_seqG reads_only_getSinkURI reads_only_status keeps_id_ops keeps_failG)

lemma reads_only_count: "reads_only s t \<Longrightarrow> count is_AddHook (st_trace t) = count is_AddHook (st_trace s)"
proof -
  have "list_all (\<lambda>q. \<not> mutating q) rs \<Longrightarrow> count is_AddHook rs = 0" for rs
    by (induction rs) (auto elim: is_AddHook.elims)
  then show "reads_only s t \<Longrightarrow> ?thesis" by (auto simp: reads_only_def)
qed

text \<open>
  The stages before the receiver as one rule: it suffices to show what the receiver stage
  makes of any state reached by reads.
\<close>

lemma reconcile_rule:
  assumes rest: "\<And>toks t. reads_only s t \<Longrightarrow> wpG (receiverStage r toks) Q E X t"
    and err: "\<And>e t. reads_only s t \<Longrightarrow> E e t" and pan: "\<And>t. reads_only s t \<Longrightarrow> X t"
  shows "wpG (reconcile r) Q E X s"
proof -
  have sink: "wpG (sinkStage r) (\<lambda>_. wpG (receiverStage r toks) Q E X) E X t" if "reads_only s t" for toks t
    by (rule wpG_weaken [OF wpG_keeps [OF reads_only_sinkStage that]]) (auto intro: rest err pan)
  have sec: "wpG (secretsStage r) (\<lambda>toks. wpG (sinkStage r) (\<lambda>_. wpG (receiverStage r toks) Q E X) E X) E X t"
    if "reads_only s t" for t
    by (rule wpG_weaken [OF wpG_keeps [OF reads_only_secretsStage that]]) (auto intro: sink err pan)
  have "wpG (onStatus Status_InitializeConditions)
      (\<lambda>_. wpG (secretsStage r) (\<lambda>toks. wpG (sinkStage r) (\<lambda>_. wpG (receiverStage r toks) Q E X) E X) E X) E X s"
    by (rule wpG_weaken [OF wpG_keeps [OF reads_only_status [OF keeps_id_ops(1)] reads_only_refl]])
      (auto intro: sec err pan)
  then show ?thesis by (simp add: reconcile_def wp_seq_funs)
qed

definition achieved :: "rstate \<Rightarrow> rstate \<Rightarrow> bool" where
  "achieved s t \<longleftrightarrow>
     (\<exists>rs d v. st_trace t = st_trace s @ rs @ [DeploymentCreate (om_Namespace (gs_meta (st_src s))) d, ServiceCreate (om_Namespace (gs_meta (st_src s))) v]
         \<and> list_all (\<lambda>q. \<not> mutating q) rs
         \<and> gs_meta (st_src t) = gs_meta (st_src s) \<and> WebhookIDKey (Status (st_src t)) = WebhookIDKey (Status (st_src s)))
     \<or> (WebhookIDKey (Status (st_src t)) \<noteq> [] \<and> finalizerName \<in> set (om_Finalizers (gs_meta (st_src t))))"

lemma achieved_receiver:
  assumes "reads_only s u" and "receiver_created u t \<or> hook_registered u t"
  shows "achieved s t"
  using assms(2)
proof
  assume "receiver_created u t"
  then obtain d v where t: "st_src t = st_src u"
    "st_trace t = st_trace u @ [DeploymentList (om_Namespace (gs_meta (st_src u))) (getLabelSelector (st_src u)),
       DeploymentCreate (om_Namespace (gs_meta (st_src u))) d, ServiceCreate (om_Namespace (gs_meta (st_src u))) v]"
    by (auto simp: receiver_created_def)
  obtain rs where rs: "st_trace u = st_trace s @ rs" "list_all (\<lambda>q. \<not> mutating q) rs"
    using assms(1) by (auto simp: reads_only_def)
  let ?rs = "rs @ [DeploymentList (om_Namespace (gs_meta (st_src u))) (getLabelSelector (st_src u))]"
  have "st_trace t = st_trace s @ ?rs @ [DeploymentCreate (om_Namespace (gs_meta (st_src s))) d, ServiceCreate (om_Namespace (gs_meta (st_src s))) v]"
    "list_all (\<lambda>q. \<not> mutating q) ?rs"
    using t rs assms(1) by (simp_all add: reads_only_def)
  moreover have "gs_meta (st_src t) = gs_meta (st_src s) \<and> WebhookIDKey (Status (st_src t)) = WebhookIDKey (Status (st_src s))"
    using t assms(1) by (simp add: reads_only_def)
  ultimately show ?thesis unfolding achieved_def by blast
qed (simp add: hook_registered_def achieved_def)

context reconciler_client
begin

theorem reconcile_achieves:
  "wpG (reconcile r)
     (\<lambda>_ t. achieved s t \<and> count is_AddHook (st_trace t) \<le> Suc (count is_AddHook (st_trace s)))
     (\<lambda>e t. count is_AddHook (st_trace t) \<le> Suc (count is_AddHook (st_trace s)))
     (\<lambda>t. count is_AddHook (st_trace t) \<le> Suc (count is_AddHook (st_trace s))) s"
proof (rule reconcile_rule)
  fix toks t
  assume ro: "reads_only s t"
  show "wpG (receiverStage r toks)
     (\<lambda>_ t. achieved s t \<and> count is_AddHook (st_trace t) \<le> Suc (count is_AddHook (st_trace s)))
     (\<lambda>e t. count is_AddHook (st_trace t) \<le> Suc (count is_AddHook (st_trace s)))
     (\<lambda>t. count is_AddHook (st_trace t) \<le> Suc (count is_AddHook (st_trace s))) t"
    using reads_only_count [OF ro]
    by (intro wpG_weaken [OF receiverStage_contract]) (auto intro: achieved_receiver [OF ro])
qed (simp_all add: reads_only_count)

end

section \<open>The status reconcile leaves\<close>

lemma marked_good:
  assumes "good_status (Status (st_src s))"
  shows "good_status (Status (st_src (marked op s)))"
    and "conds_of (Status (st_src (marked op s))) = spec_op op (conds_of (Status (st_src s)))"
    and "SinkURI (Status (st_src (marked op s))) = op_uri op (SinkURI (Status (st_src s)))"
proof -
  have wf: "wf_status (fst (Status (st_src s), st_clock s))" using assms by (simp add: good_status_def)
  show "good_status (Status (st_src (marked op s)))"
    using assms good_run_op [of op] by (simp add: good_op_def)
  show "conds_of (Status (st_src (marked op s))) = spec_op op (conds_of (Status (st_src s)))"
    using run_op_good [OF wf, of op] by simp
  show "SinkURI (Status (st_src (marked op s))) = op_uri op (SinkURI (Status (st_src s)))"
    using run_op_other(2) [OF wf, of op] by simp
qed

text \<open>How a spec's sink shows in a status.\<close>

definition sink_reported :: "GitLabSourceSpec \<Rightarrow> GitLabSourceStatus \<Rightarrow> bool" where
  "sink_reported sp st \<longleftrightarrow>
     (case (Sink sp, URI sp) of
        (None, None) \<Rightarrow> \<not> IsTrue (conds_of st GitLabSourceConditionSinkProvided)
      | (None, Some u) \<Rightarrow> SinkURI st = u \<and> (IsTrue (conds_of st GitLabSourceConditionSinkProvided) \<longleftrightarrow> u \<noteq> [])
      | (Some _, _) \<Rightarrow> IsTrue (conds_of st GitLabSourceConditionSinkProvided) \<longleftrightarrow> SinkURI st \<noteq> [])"

definition reported :: "GitLabSourceSpec \<Rightarrow> GitLabSourceStatus \<Rightarrow> bool" where
  "reported sp st \<longleftrightarrow> good_status st \<and> IsTrue (conds_of st GitLabSourceConditionSecretsProvided) \<and> sink_reported sp st"

lemma reported_id [simp]: "reported sp (st\<lparr>WebhookIDKey := i\<rparr>) = reported sp st"
  by (simp add: reported_def sink_reported_def abs_conds_def GetCondition_def split: option.split)

lemma reported_marked:
  assumes "good_status (Status (st_src s))" and "IsTrue (conds_of (Status (st_src s)) GitLabSourceConditionSecretsProvided)"
    and "sink_value r sp h = Ok v"
  shows "reported sp (Status (st_src (marked (sink_op v) s)))"
proof -
  note m = marked_good [OF assms(1), of "sink_op v"]
  have "IsTrue (conds_of (Status (st_src (marked (sink_op v) s))) GitLabSourceConditionSecretsProvided)"
    using assms(2) unfolding m(2) secrets_spec_op by (cases v) (simp_all add: sink_op_def)
  moreover have "sink_reported sp (Status (st_src (marked (sink_op v) s)))"
    using assms(3) unfolding sink_reported_def m(2,3) sink_spec_op
    by (cases v) (auto simp: sink_op_def sink_value_def split: option.splits outcome.splits)
  ultimately show ?thesis using m(1) by (simp only: reported_def)
qed

context reconciler_client
begin

lemma receiverStage_status:
  "keeps (\<lambda>t. (Status (st_src t))\<lparr>WebhookIDKey := []\<rparr> = c) (receiverStage r toks)"
  unfolding receiverStage_def getOwnedReceiver_def createReceiver_def webhookStage_def createWebhook_def split_def Let_def
  by (intro keeps_seqG keeps_thenG keeps_onErr keeps_withSrc keeps_if keeps_option keeps_issue keeps_Eventf keeps_modSrc
      keeps_liftO keeps_Create keeps_failG keeps_retG keeps_liftG) simp_all

theorem reconcile_status:
  assumes "good_status (Status (st_src s))"
  shows "wpG (reconcile r) (\<lambda>_ t. reported (Spec (st_src s)) (Status (st_src t))) (\<lambda>_ _. True) (\<lambda>_. True) s"
proof (cases "SecretKeyRef (AccessToken (Spec (st_src s)))")
  case None
  then show ?thesis by (simp add: reconcile_def stage_simps secretsStage_def wp_secretFrom_None)
next
  case a: (Some a)
  show ?thesis
  proof (cases "SecretKeyRef (SecretToken (Spec (st_src s)))")
    case None
    with a show ?thesis by (simp add: reconcile_def stage_simps secretsStage_def wp_secretFrom_None split: sum.split)
  next
    case b: (Some b)
    have rest: "wpG (receiverStage r toks) (\<lambda>_ t. reported sp (Status (st_src t))) (\<lambda>_ _. True) (\<lambda>_. True) u"
      if "reported sp (Status (st_src u))" for toks sp u
    proof (rule wpG_weaken [OF wpG_keeps [OF receiverStage_status [of "(Status (st_src u))\<lparr>WebhookIDKey := []\<rparr>"] refl]])
      fix t assume "(Status (st_src t))\<lparr>WebhookIDKey := []\<rparr> = (Status (st_src u))\<lparr>WebhookIDKey := []\<rparr>"
      then show "reported sp (Status (st_src t))" using that by (metis reported_id)
    qed simp_all
    let ?s1 = "marked OpInit s"
    have s2: "good_status (Status (st_src (marked OpSecrets (asked rs ?s1))))"
      "IsTrue (conds_of (Status (st_src (marked OpSecrets (asked rs ?s1)))) GitLabSourceConditionSecretsProvided)" for rs
    proof -
      have g: "good_status (Status (st_src (asked rs ?s1)))"
        using marked_good(1) [OF assms, of OpInit] by simp
      show "good_status (Status (st_src (marked OpSecrets (asked rs ?s1))))"
        by (rule marked_good(1) [OF g])
      show "IsTrue (conds_of (Status (st_src (marked OpSecrets (asked rs ?s1)))) GitLabSourceConditionSecretsProvided)"
        unfolding marked_good(2) [OF g] secrets_spec_op by simp
    qed
    have s3: "reported sp (Status (st_src (marked (sink_op v) (asked qs (marked OpSecrets (asked rs ?s1))))))"
      if "sink_value r sp h = Ok v" for qs rs sp h v
      by (rule reported_marked [OF _ _ that]) (simp_all only: asked_fields s2)
    have sp: "Spec (st_src ?s1) = Spec (st_src s)" by simp
    show ?thesis using a b
      by (simp add: reconcile_def wp_seq_funs wp_seqG wp_ops wp_secretsStage [of ?s1 a b] wp_sinkStage Let_def rest s3
          del: marked_fields(6) split: sum.split outcome.split)
  qed
qed

end

section \<open>The whole run\<close>

text \<open>
  The requests of a write-back over the lister's object \<open>new\<close>: at most one status write,
  then at most one write of the finalizers, both of that very object.
\<close>

definition write_requests :: "GitLabSource \<Rightarrow> GitLabSource \<Rightarrow> history \<Rightarrow> bool" where
  "write_requests src new ws \<longleftrightarrow>
     (let ns = om_Namespace (gs_meta src) in
      \<exists>x y. same_object new x \<and> gs_meta x = gs_meta new \<and> same_object new y
        \<and> ws \<in> {[], [UpdateStatus ns x], [Update ns y], [UpdateStatus ns x, Update ns y]})"

lemma write_back_write_requests:
  assumes "write_back_requests src' new ws" and "om_Namespace (gs_meta src') = om_Namespace (gs_meta src)"
  shows "write_requests src new ws"
proof -
  let ?x = "new\<lparr>Status := Status src'\<rparr>"
  let ?fin = "\<lambda>o'. o'\<lparr>gs_meta := (gs_meta o')\<lparr>om_Finalizers := om_Finalizers (gs_meta src')\<rparr>\<rparr>"
  have x: "same_object new ?x" "gs_meta ?x = gs_meta new" by (simp_all add: same_object_Status)
  have y: "same_object new (?fin new)" "same_object new (?fin ?x)"
    by (rule same_object_Finalizers [OF same_object_refl]) (rule same_object_Finalizers [OF x(1)])
  from assms(1) consider "ws = [] \<or> ws = [UpdateStatus (om_Namespace (gs_meta src)) ?x] \<or> ws = [Update (om_Namespace (gs_meta src)) (?fin new)]"
    | "ws = [UpdateStatus (om_Namespace (gs_meta src)) ?x, Update (om_Namespace (gs_meta src)) (?fin ?x)]"
    unfolding write_back_requests_def Let_def assms(2) by blast
  then show ?thesis
  proof cases
    case 1
    with x y(1) show ?thesis unfolding write_requests_def Let_def by blast
  next
    case 2
    with x y(2) show ?thesis unfolding write_requests_def Let_def by blast
  qed
qed

definition run_request :: "GitLabSource \<Rightarrow> request \<Rightarrow> bool" where
  "run_request src = (if om_DeletionTimestamp (gs_meta src) = None then reconcile_request src else finalize_request src)"

definition run_frame :: "GitLabSource \<Rightarrow> rstate \<Rightarrow> rstate \<Rightarrow> bool" where
  "run_frame src s t \<longleftrightarrow> (\<forall>k. k \<noteq> own_key src \<longrightarrow> st_cache t k = st_cache s k) \<and>
     (\<exists>rs ws. st_trace t = st_trace s @ rs @ ws \<and> list_all (run_request src) rs
        \<and> (case st_cache s (own_key src) of None \<Rightarrow> ws = [] | Some new \<Rightarrow> write_requests src new ws))"

lemma removeFinalizer_names [simp]:
  "om_Name (gs_meta (removeFinalizer src)) = om_Name (gs_meta src)"
  "om_Namespace (gs_meta (removeFinalizer src)) = om_Namespace (gs_meta src)"
  by (simp_all add: removeFinalizer_def Let_def)

definition stage_end :: "GitLabSource \<Rightarrow> rstate \<Rightarrow> rstate \<Rightarrow> bool" where
  "stage_end src s u \<longleftrightarrow> (\<exists>rs. st_trace u = st_trace s @ rs \<and> list_all (run_request src) rs) \<and> st_cache u = st_cache s
     \<and> om_Name (gs_meta (st_src u)) = om_Name (gs_meta src) \<and> om_Namespace (gs_meta (st_src u)) = om_Namespace (gs_meta src)"

lemma stage_end_panic:
  assumes "stage_end src s u"
  shows "run_frame src s u"
proof -
  have "write_requests src new []" for new
    unfolding write_requests_def Let_def by (intro exI [of _ new]) simp
  then show ?thesis using assms
    by (cases "st_cache s (own_key src)") (force simp: run_frame_def stage_end_def)+
qed

lemma stage_end_write:
  assumes "stage_end src s u" and "write_frame (st_src u) u t"
  shows "run_frame src s t"
proof -
  from assms obtain rs ws where "st_trace t = st_trace s @ rs @ ws" and "list_all (run_request src) rs"
    and "case st_cache s (own_key src) of None \<Rightarrow> ws = [] | Some new \<Rightarrow> write_back_requests (st_src u) new ws"
    by (auto simp: stage_end_def write_frame_def)
  moreover have "\<forall>k. k \<noteq> own_key src \<longrightarrow> st_cache t k = st_cache s k"
    using assms by (simp add: stage_end_def write_frame_def)
  moreover have "om_Namespace (gs_meta (st_src u)) = om_Namespace (gs_meta src)"
    using assms by (simp add: stage_end_def)
  ultimately show ?thesis
    by (auto simp: run_frame_def intro: write_back_write_requests split: option.splits)
qed

lemma snd_onErr:
  assumes "snd (m s) = u"
  shows "snd (onErr m h k s) = u \<or> (\<exists>e. snd (onErr m h k s) = snd (h e u)) \<or> (\<exists>v. snd (onErr m h k s) = snd (k v u))"
  using assms by (cases "m s") (auto simp: onErr_def split: outcome.splits)

lemma writeBack_snd: "write_frame (st_src u) u (snd (writeBack r original err u))"
  using writeBack_frame [of r original err u] by (auto simp: wpG_result split: outcome.splits)

context reconciler_client
begin

lemma stage_end_run:
  "stage_end src s (snd ((if om_DeletionTimestamp (gs_meta src) = None then reconcile r else finalize r) (s\<lparr>st_src := src\<rparr>)))"
proof (cases "om_DeletionTimestamp (gs_meta src) = None")
  case True
  let ?s = "s\<lparr>st_src := src\<rparr>"
  have "stage_step (reconcile_request (st_src ?s)) ?s (snd (reconcile r ?s))"
    by (rule keepsD [OF reconcile_frame stage_step_refl])
  then show ?thesis using True same_object_fields [of src "st_src (snd (reconcile r ?s))"]
    by (auto simp: stage_step_def stage_end_def run_request_def)
next
  case False
  let ?s = "s\<lparr>st_src := src\<rparr>"
  have "finalize_frame ?s (snd (finalize r ?s))"
    using finalize_contract [of ?s] by (auto simp: wpG_result split: outcome.splits)
  then show ?thesis using False
    by (auto simp: finalize_frame_def stage_end_def run_request_def)
qed

theorem process_frame: "run_frame src s (snd (process r src s))"
proof -
  let ?u = "snd ((if om_DeletionTimestamp (gs_meta src) = None then reconcile r else finalize r) (s\<lparr>st_src := src\<rparr>))"
  have u: "stage_end src s ?u" by (rule stage_end_run)
  from snd_onErr [where m = "if om_DeletionTimestamp (gs_meta src) = None then reconcile r else finalize r"
      and s = "s\<lparr>st_src := src\<rparr>" and h = "\<lambda>e. writeBack r src (Some e)" and k = "\<lambda>_. writeBack r src None" and u = ?u, OF refl]
  show ?thesis unfolding process_eq
    by (elim disjE exE) (simp_all only: stage_end_panic [OF u] stage_end_write [OF u writeBack_snd])
qed

end

section \<open>A steady source\<close>

text \<open>
  The answers a steady source gets: both secrets read, the sink resolves to the URI
  already reported, a receiver it controls is listed, and the service picked has an
  address.
\<close>

definition steady_reads :: "GitLabSource \<Rightarrow> SecretKeySelector \<Rightarrow> SecretKeySelector \<Rightarrow> history" where
  "steady_reads src a b =
     (let ns = om_Namespace (gs_meta src)
      in [SecretGet ns (sks_Name a), SecretGet ns (sks_Name b)] @ sink_requests (Spec src)
         @ [DeploymentList ns (getLabelSelector src), ServiceList ns])"

definition steady_answers :: "Reconciler \<Rightarrow> GitLabSource \<Rightarrow> SecretKeySelector \<Rightarrow> SecretKeySelector \<Rightarrow> history \<Rightarrow> bool" where
  "steady_answers r src a b h \<longleftrightarrow>
     (let ns = om_Namespace (gs_meta src); h2 = h @ [SecretGet ns (sks_Name a), SecretGet ns (sks_Name b)];
          h3 = h2 @ sink_requests (Spec src); h4 = h3 @ [DeploymentList ns (getLabelSelector src)]
      in (\<exists>v. secret_read r ns a h = Inr v) \<and> (\<exists>w. secret_read r ns b (h @ [SecretGet ns (sks_Name a)]) = Inr w)
         \<and> sink_value r (Spec src) h2 = Ok (Some (SinkURI (Status src)))
         \<and> (\<exists>items d. env_DeploymentList (rc_env r) h4 = Inr items \<and> find (\<lambda>d. IsControlledBy (dep_meta d) (gs_meta src)) items = Some d)
         \<and> (\<exists>items domain. env_ServiceList (rc_env r) (h4 @ [ServiceList ns]) = Inr items
               \<and> receiveAdapterDomain (pickService (om_Name (gs_meta src)) items) = Ok domain))"

definition steady :: "GitLabSource \<Rightarrow> bool" where
  "steady src \<longleftrightarrow> settled (Status src) \<and> WebhookIDKey (Status src) \<noteq> [] \<and> om_DeletionTimestamp (gs_meta src) = None
     \<and> sorted (om_Finalizers (gs_meta src)) \<and> distinct (om_Finalizers (gs_meta src)) \<and> finalizerName \<in> set (om_Finalizers (gs_meta src))"

lemma steady_addFinalizer: "steady src \<Longrightarrow> addFinalizer src = src"
proof -
  assume s: "steady src"
  have "List (Insert (NewString (om_Finalizers (gs_meta src))) [finalizerName]) = om_Finalizers (gs_meta src)"
    using s by (intro strings.lst_id) (auto simp: steady_def strings.set_lst_ins)
  then show ?thesis by (simp add: addFinalizer_def Let_def)
qed

lemma marked_noop: "run_op op (Status (st_src s), st_clock s) = (Status (st_src s), st_clock s) \<Longrightarrow> marked op s = s"
  by (simp add: marked_def)

lemma steady_reconcile:
  assumes "steady (st_src s)"
    and a: "SecretKeyRef (AccessToken (Spec (st_src s))) = Some a" and b: "SecretKeyRef (SecretToken (Spec (st_src s))) = Some b"
    and ans: "steady_answers r (st_src s) a b (st_trace s)"
  shows "reconcile r s = (Ok (), asked (steady_reads (st_src s) a b) s)"
proof -
  let ?src = "st_src s"
  have st: "settled (Status ?src)" using assms(1) by (simp add: steady_def)
  have noop: "marked OpInit s = s" "marked OpSecrets (asked rs s) = asked rs s"
    "marked (sink_op (Some (SinkURI (Status ?src)))) (asked rs s) = asked rs s" for rs
    using settled_run_op [OF st] by (simp_all add: marked_noop sink_op_def)
  have src: "s\<lparr>st_src := ?src\<rparr> = s" "asked rs s\<lparr>st_src := ?src\<rparr> = asked rs s" for rs
    by (simp_all add: asked_def)
  obtain v w items d items' domain where
    "secret_read r (om_Namespace (gs_meta ?src)) a (st_trace s) = Inr v"
    "secret_read r (om_Namespace (gs_meta ?src)) b (st_trace s @ [SecretGet (om_Namespace (gs_meta ?src)) (sks_Name a)]) = Inr w"
    "sink_value r (Spec ?src) (st_trace s @ [SecretGet (om_Namespace (gs_meta ?src)) (sks_Name a), SecretGet (om_Namespace (gs_meta ?src)) (sks_Name b)])
       = Ok (Some (SinkURI (Status ?src)))"
    "env_DeploymentList (rc_env r) (st_trace s @ SecretGet (om_Namespace (gs_meta ?src)) (sks_Name a) # SecretGet (om_Namespace (gs_meta ?src)) (sks_Name b)
       # sink_requests (Spec ?src) @ [DeploymentList (om_Namespace (gs_meta ?src)) (getLabelSelector ?src)]) = Inr items"
    "find (\<lambda>d. IsControlledBy (dep_meta d) (gs_meta ?src)) items = Some d"
    "env_ServiceList (rc_env r) (st_trace s @ SecretGet (om_Namespace (gs_meta ?src)) (sks_Name a) # SecretGet (om_Namespace (gs_meta ?src)) (sks_Name b)
       # sink_requests (Spec ?src) @ [DeploymentList (om_Namespace (gs_meta ?src)) (getLabelSelector ?src), ServiceList (om_Namespace (gs_meta ?src))]) = Inr items'"
    "receiveAdapterDomain (pickService (om_Name (gs_meta ?src)) items') = Ok domain"
    using ans by (auto simp: steady_answers_def Let_def)
  then have "wpG (reconcile r) (\<lambda>_ t. t = asked (steady_reads ?src a b) s) (\<lambda>_ _. False) (\<lambda>_. False) s"
    using assms(1)
    by (simp add: reconcile_def wp_seqG wp_thenG wp_ops noop wp_secretsStage [OF a b] wp_sinkStage Let_def receiverStage_def
        wp_onErr wp_withSrc wp_getOwnedReceiver wp_webhookStage steady_addFinalizer src steady_reads_def wp_seq_funs
        steady_def)
  then show ?thesis
    by (cases "reconcile r s") (auto simp: wpG_def split: outcome.splits)
qed

section \<open>Failed reads and writes\<close>

lemma reconcile_access_missing:
  assumes "SecretKeyRef (AccessToken (Spec (st_src s))) = Some a" and "SecretKeyRef (SecretToken (Spec (st_src s))) = Some b"
    and "secret_read r (om_Namespace (gs_meta (st_src s))) a (st_trace s) = Inl e"
  shows "reconcile r s = (Err e, marked (OpNoSecrets ''AccessTokenNotFound'' (err_text e))
           (asked [SecretGet (om_Namespace (gs_meta (st_src s))) (sks_Name a)] (marked OpInit s)))"
proof -
  have "wpG (reconcile r) (\<lambda>_ _. False) (\<lambda>e' t. e' = e \<and> t = marked (OpNoSecrets ''AccessTokenNotFound'' (err_text e))
           (asked [SecretGet (om_Namespace (gs_meta (st_src s))) (sks_Name a)] (marked OpInit s))) (\<lambda>_. False) s"
    using assms by (simp add: reconcile_def wp_seqG wp_seq_funs wp_ops wp_secretsStage [of "marked OpInit s" a b] Let_def)
  then show ?thesis by (cases "reconcile r s") (auto simp: wpG_def split: outcome.splits)
qed

text \<open>A write-back whose status write fails.\<close>

lemma writeBack_status_fails:
  assumes "\<not> status_equiv (Status original) (Status (st_src s))" and "st_cache s (own_key (st_src s)) = Some new"
    and "Status (st_src s) \<noteq> Status new"
    and "env_UpdateStatus (rc_env r) (st_trace s @ [UpdateStatus (om_Namespace (gs_meta (st_src s))) (new\<lparr>Status := Status (st_src s)\<rparr>)]) = Inl e"
  shows "writeBack r original err s =
    (Err e, s\<lparr>st_cache := (st_cache s)(own_key (st_src s) \<mapsto> new\<lparr>Status := Status (st_src s)\<rparr>),
              st_trace := st_trace s @ [UpdateStatus (om_Namespace (gs_meta (st_src s))) (new\<lparr>Status := Status (st_src s)\<rparr>)],
              st_events := st_events s @ [failed_update_event]\<rparr>)" (is "_ = (Err e, ?t)")
proof -
  have "wpG (writeBack r original err) (\<lambda>_ _. False) (\<lambda>e' t. e' = e \<and> t = ?t) (\<lambda>_. False) s"
    using assms by (simp add: writeBack_def wp_simps Let_def)
  then show ?thesis by (cases "writeBack r original err s") (auto simp: wpG_def split: outcome.splits)
qed

lemma writeBack_same:
  assumes "status_equiv (Status original) (Status (st_src s))" and "om_Finalizers (gs_meta original) = om_Finalizers (gs_meta (st_src s))"
  shows "writeBack r original None s = (Ok (), s)"
  using assms by (simp add: writeBack_def withSrc_def thenG_def onErr_def getG_def retG_def)

lemma status_equiv_refl [simp]: "status_equiv st st"
  by (simp add: status_equiv_def cond_equiv_def list_all2_refl)

end
