(* ===== verification/Demo.thy ===== *)
theory Demo
  imports ReconcileLoop
begin

text \<open>
  Concrete sources, environments and states, small enough to compute with, at which the
  properties of the reconciler are applied: a source whose receiver runs and whose hook
  is registered, the same source as new, and the same source under deletion.
\<close>

definition demo_selector :: "string \<Rightarrow> SecretKeySelector" where
  "demo_selector k = \<lparr>sks_Name = ''tokens'', sks_Key = k, sks_Optional = None\<rparr>"

definition demo_spec :: GitLabSourceSpec where
  "demo_spec = \<lparr>ServiceAccountName = ''default'', ProjectURL = ''https://gitlab.com/a/b'', EventTypes = [''push_events''],
     AccessToken = \<lparr>SecretKeyRef = Some (demo_selector ''access'')\<rparr>,
     SecretToken = \<lparr>SecretKeyRef = Some (demo_selector ''secret'')\<rparr>,
     Sink = None, URI = Some ''http://sink'', Secure = False\<rparr>"

definition demo_conditions :: "Condition list" where
  "demo_conditions = map (\<lambda>t. mkCondition gitLabSourceCondSet t ConditionTrue [] [])
     [GitLabSourceConditionReady, GitLabSourceConditionSecretsProvided, GitLabSourceConditionSinkProvided]"

definition demo_status :: GitLabSourceStatus where
  "demo_status = \<lparr>ObservedGeneration = 0, Conditions = demo_conditions, WebhookIDKey = ''7'', SinkURI = ''http://sink''\<rparr>"

definition fresh_status :: GitLabSourceStatus where
  "fresh_status = \<lparr>ObservedGeneration = 0, Conditions = [], WebhookIDKey = [], SinkURI = []\<rparr>"

definition demo_meta :: ObjectMeta where
  "demo_meta = empty_meta\<lparr>om_Name := ''src'', om_Namespace := ''ns'', om_UID := ''u1'', om_Finalizers := [finalizerName]\<rparr>"

definition demo_source :: GitLabSource where
  "demo_source = \<lparr>gs_APIVersion = ''sources.eventing.knative.dev/v1alpha1'', gs_Kind = ''GitLabSource'',
     gs_meta = demo_meta, Spec = demo_spec, Status = demo_status\<rparr>"

definition fresh_source :: GitLabSource where
  "fresh_source = demo_source\<lparr>gs_meta := demo_meta\<lparr>om_Finalizers := []\<rparr>, Status := fresh_status\<rparr>"

definition deleted_source :: GitLabSource where
  "deleted_source = demo_source\<lparr>gs_meta := demo_meta\<lparr>om_DeletionTimestamp := Some 1\<rparr>\<rparr>"

definition demo_kind :: GroupVersionKind where
  "demo_kind = WithKind SchemeGroupVersion ''GitLabSource''"

definition demo_scheme :: Scheme where
  "demo_scheme = AddToScheme Map.empty"

definition demo_receiver :: Deployment where
  "demo_receiver = (let d = MakeReceiveAdapter demo_source ''image''
     in d\<lparr>dep_meta := (dep_meta d)\<lparr>om_OwnerReferences := [NewControllerRef demo_meta demo_kind]\<rparr>\<rparr>)"

definition demo_service :: Service where
  "demo_service = (MakePublicService demo_source)
     \<lparr>svc_meta := (svc_meta (MakePublicService demo_source))\<lparr>om_Name := ''src-service-x''\<rparr>,
      svc_Ingress := [\<lparr>lb_IP = ''1.2.3.4'', lb_Hostname = []\<rparr>]\<rparr>"

text \<open>Everything succeeds; the hook is number 7.\<close>

definition demo_env :: env where
  "demo_env =
     \<lparr>env_SecretGet = (\<lambda>_. Inr \<lparr>secret_meta = empty_meta, secret_Data = [''access'' \<mapsto> ''t1'', ''secret'' \<mapsto> ''t2'']\<rparr>),
      env_DynamicGet = (\<lambda>_. Inl (PlainError ''none'')), env_DeploymentList = (\<lambda>_. Inr [demo_receiver]),
      env_DeploymentCreate = (\<lambda>_. Inr ()), env_ServiceCreate = (\<lambda>_. Inr ()), env_ServiceList = (\<lambda>_. Inr [demo_service]),
      env_ListHooks = (\<lambda>_. Inr [\<lparr>hook_ID = 7\<rparr>]), env_AddHook = (\<lambda>_. Inr \<lparr>hook_ID = 7\<rparr>), env_DeleteHook = (\<lambda>_. Inr ()),
      env_UpdateStatus = (\<lambda>_. Inr ()), env_Update = (\<lambda>_. Inr ())\<rparr>"

definition demo_reconciler :: "env \<Rightarrow> Reconciler" where
  "demo_reconciler env = newReconciler env demo_scheme ''image''"

definition demo_state :: "GitLabSource \<Rightarrow> rstate" where
  "demo_state src = \<lparr>st_src = src, st_cache = [''ns/src'' \<mapsto> src], st_trace = [], st_events = [], st_clock = sconst 0\<rparr>"

lemmas demo_defs = demo_selector_def demo_spec_def demo_conditions_def demo_status_def fresh_status_def demo_meta_def
  demo_source_def fresh_source_def deleted_source_def demo_env_def demo_reconciler_def demo_state_def empty_meta_def

lemma demo_settled: "settled demo_status"
  by (simp add: settled_def demo_status_def demo_conditions_def abs_conds_def GetCondition_def wf_conds_def mkCondition_def
      strip_def GitLabSourceConditionReady_def GitLabSourceConditionSecretsProvided_def
      GitLabSourceConditionSinkProvided_def ConditionReady_def)

lemma demo_steady: "steady demo_source"
  using demo_settled by (simp add: steady_def demo_source_def demo_meta_def empty_meta_def demo_status_def)

lemma demo_controlled: "IsControlledBy (dep_meta demo_receiver) demo_meta"
  by (simp add: demo_receiver_def Let_def IsControlledBy_def GetControllerOf_def NewControllerRef_def)

lemma demo_answers:
  "steady_answers (demo_reconciler demo_env) demo_source (demo_selector ''access'') (demo_selector ''secret'') h"
  using demo_controlled
  by (simp add: steady_answers_def Let_def demo_defs secret_read_def secret_result_def sink_value_def sink_requests_def
      receiveAdapterDomain_def pickService_def demo_service_def MakePublicService_def HasPrefix_def)

lemma fresh_good: "good_status fresh_status"
  by (auto simp: fresh_status_def good_status_def wf_conds_def happy_iff_def abs_conds_def GetCondition_def)

end
