(* ===== verification/ReconcilerProperties.thy ===== *)
theory ReconcilerProperties
  imports Demo
begin

text \<open>
  The properties of the reconciler \<open>NewController\<close> builds, each from the facts of
  \<open>ReconcileLoop\<close> on the interpretation \<open>main\<close>, with an instance on the data of
  \<open>Demo\<close> where it has hypotheses.
\<close>

section \<open>Runs\<close>

lemma demo_lookup: "SplitMetaNamespaceKey ''ns/src'' = Inr (''ns'', ''src'')"
  using SplitMetaNamespaceKey_join [of "''ns''" "''src''"] by simp

lemma demo_cached: "st_cache (demo_state src) (lister_key ''ns'' ''src'') = Some src"
  by (simp add: demo_state_def lister_key_def)

lemma demo_run: "reconcile (demo_reconciler demo_env) (demo_state demo_source) =
    (Ok (), asked (steady_reads demo_source (demo_selector ''access'') (demo_selector ''secret'')) (demo_state demo_source))"
  using steady_reconcile [of "demo_state demo_source" "demo_selector ''access''" "demo_selector ''secret''" "demo_reconciler demo_env"]
    demo_steady demo_answers
  by (simp add: demo_state_def) (simp add: demo_source_def demo_spec_def)

text \<open>C1: a run of \<open>Reconcile\<close> on a key.  A key with two slashes, or one the lister does not
  know, is dropped: nil is returned, nothing is asked, the state is as before.  For a
  cached source the run asks only for what \<open>reconcile_request\<close> (or, for a source under
  deletion, \<open>finalize_request\<close>) allows, then writes back at most one status and at most one
  set of finalizers, the status first, of the lister's own object for the source; no
  other cached object changes.\<close>

theorem Reconcile_run:
  "case SplitMetaNamespaceKey key of
     Inl e \<Rightarrow> Reconcile (newReconciler env scheme img) key s = (Ok (), s)
   | Inr (ns, name) \<Rightarrow>
       (case st_cache s (lister_key ns name) of
          None \<Rightarrow> Reconcile (newReconciler env scheme img) key s = (Ok (), s)
        | Some src \<Rightarrow> run_frame src s (snd (Reconcile (newReconciler env scheme img) key s)))"
  by (auto simp: Reconcile_eq main.process_frame split: sum.split option.split)

text \<open>C4: while it works, \<open>reconcile\<close> stays within its source: reads and creations in the
  source's namespace (the sink's for the sink) of what the spec names, creations only of
  objects the source controls, hook requests only for the project and the server of the
  project URL and only while no hook is stored, no removal of a hook and no write of the
  source; the cache and the source's identity and spec stay, whatever the services answer.\<close>

theorem reconcile_confined:
  "stage_step (reconcile_request (st_src s)) s (snd (reconcile (newReconciler env scheme img) s))"
  by (rule keepsD [OF main.reconcile_frame stage_step_refl])

text \<open>C5: one run of \<open>reconcile\<close> adds at most one hook, and none if the source stores the ID
  of one.\<close>

theorem reconcile_one_hook:
  "count is_AddHook (st_trace (snd (reconcile (newReconciler env scheme img) s)))
     \<le> count is_AddHook (st_trace s) + (if WebhookIDKey (Status (st_src s)) = [] then 1 else 0)"
proof -
  let ?t = "snd (reconcile (newReconciler env scheme img) s)"
  obtain rs where rs: "list_all (reconcile_request (st_src s)) rs" "st_trace ?t = st_trace s @ rs"
    using keepsD [OF main.reconcile_frame stage_step_refl, of s env scheme img] by (auto simp: stage_step_def)
  have "count is_AddHook rs = 0" if "WebhookIDKey (Status (st_src s)) \<noteq> []"
    using rs(1) that by (induction rs) (auto elim!: is_AddHook.elims)
  moreover have "count is_AddHook (st_trace ?t) \<le> Suc (count is_AddHook (st_trace s))"
    using main.reconcile_achieves [of env scheme img s] by (auto simp: wpG_result split: outcome.splits)
  ultimately show ?thesis using rs(2) by simp
qed




text \<open>C8: the statuses in the cache stay good over any run: conditions sorted and unique, Ready
  true exactly when secrets and sink are, and a sink URI wherever the sink is provided.\<close>

theorem Reconcile_cache_good:
  "cache_good s \<Longrightarrow> cache_good (snd (Reconcile (newReconciler env scheme img) key s))"
  by (rule main.good_Reconcile)

theorem Reconcile_cache_good_witness:
  "cache_good (snd (Reconcile (newReconciler demo_env demo_scheme ''image'') ''ns/src'' (demo_state fresh_source)))"
  by (rule Reconcile_cache_good)
    (simp add: cache_good_def demo_state_def fresh_source_def fresh_good)

text \<open>C28: when \<open>reconcile\<close> returns nil on a source with a good status, the source is Ready
  exactly if its spec names a sink or a URI and the sink URI it resolved is not empty; a
  URI of the spec is then the sink URI, and the secrets are reported as provided.\<close>

theorem reconcile_ready:
  assumes "good_status (Status (st_src s))" and "fst (reconcile (newReconciler env scheme img) s) = Ok ()"
  shows "(let st = Status (st_src (snd (reconcile (newReconciler env scheme img) s))); sp = Spec (st_src s)
          in (IsReady st \<longleftrightarrow> SinkURI st \<noteq> [] \<and> \<not> (Sink sp = None \<and> URI sp = None))
             \<and> IsTrue (conds_of st GitLabSourceConditionSecretsProvided)
             \<and> (case (Sink sp, URI sp) of (None, Some u) \<Rightarrow> SinkURI st = u | _ \<Rightarrow> True))"
proof -
  have "reported (Spec (st_src s)) (Status (st_src (snd (reconcile (newReconciler env scheme img) s))))"
    using main.reconcile_status [OF assms(1), of env scheme img] assms(2) by (simp add: wpG_result)
  then show ?thesis
    by (auto simp: Let_def reported_def sink_reported_def IsReady_good split: option.splits)
qed

theorem reconcile_ready_witness:
  "IsReady (Status (st_src (snd (reconcile (newReconciler demo_env demo_scheme ''image'') (demo_state demo_source)))))"
proof -
  have "good_status (Status (st_src (demo_state demo_source)))"
    using demo_settled
    by (simp add: demo_state_def demo_source_def settled_def good_status_def happy_iff_def)
  from reconcile_ready [OF this, of demo_env demo_scheme "''image''"] show ?thesis
    by (simp add: demo_run [unfolded demo_reconciler_def] Let_def)
      (simp add: demo_state_def demo_source_def demo_status_def demo_spec_def)
qed

lemma steady_run:
  assumes "SplitMetaNamespaceKey key = Inr (ns, name)" and "st_cache s (lister_key ns name) = Some src" and "steady src"
    and "SecretKeyRef (AccessToken (Spec src)) = Some a" and "SecretKeyRef (SecretToken (Spec src)) = Some b"
    and "steady_answers r src a b (st_trace s)"
  shows "Reconcile r key s = (Ok (), asked (steady_reads src a b) (s\<lparr>st_src := src\<rparr>))"
proof -
  let ?s = "s\<lparr>st_src := src\<rparr>"
  have "reconcile r ?s = (Ok (), asked (steady_reads src a b) ?s)" using steady_reconcile [of ?s a b] assms by simp
  then show ?thesis using assms(1-3) by (simp add: Reconcile_eq process_eq steady_def onErr_def writeBack_same)
qed

text \<open>A source in its steady state (all provided, hook registered, finalizer in place) whose
  reads answer as before is left alone: the run returns nil after the reads
  \<open>steady_reads\<close>, with no write, no event, and the cache as it was.\<close>

theorem Reconcile_steady:
  assumes "SplitMetaNamespaceKey key = Inr (ns, name)" and "st_cache s (lister_key ns name) = Some src" and "steady src"
    and "SecretKeyRef (AccessToken (Spec src)) = Some a" and "SecretKeyRef (SecretToken (Spec src)) = Some b"
    and "steady_answers (newReconciler env scheme img) src a b (st_trace s)"
  shows "Reconcile (newReconciler env scheme img) key s = (Ok (), asked (steady_reads src a b) (s\<lparr>st_src := src\<rparr>))"
  by (rule steady_run [OF assms])

theorem Reconcile_steady_witness:
  "Reconcile (newReconciler demo_env demo_scheme ''image'') ''ns/src'' (demo_state demo_source)
     = (Ok (), asked (steady_reads demo_source (demo_selector ''access'') (demo_selector ''secret''))
                 (demo_state demo_source\<lparr>st_src := demo_source\<rparr>))"
  by (rule Reconcile_steady [OF demo_lookup demo_cached demo_steady])
    (simp_all add: demo_answers [unfolded demo_reconciler_def], simp_all add: demo_source_def demo_spec_def)

text \<open>Without the access token nothing is created: when reading its secret fails,
  \<open>reconcile\<close> returns that error after the one read, with the reason
  AccessTokenNotFound and the error text on the secrets condition.\<close>

theorem reconcile_no_access_token:
  assumes "SecretKeyRef (AccessToken (Spec (st_src s))) = Some a" and "SecretKeyRef (SecretToken (Spec (st_src s))) = Some b"
    and "secret_read r (om_Namespace (gs_meta (st_src s))) a (st_trace s) = Inl e"
    and "good_status (Status (st_src s))"
  shows "(let t = snd (reconcile r s)
          in fst (reconcile r s) = Err e
             \<and> st_trace t = st_trace s @ [SecretGet (om_Namespace (gs_meta (st_src s))) (sks_Name a)]
             \<and> conds_of (Status (st_src t)) GitLabSourceConditionSecretsProvided
                 = Some (mkCondition gitLabSourceCondSet GitLabSourceConditionSecretsProvided ConditionFalse ''AccessTokenNotFound'' (err_text e))
             \<and> \<not> IsReady (Status (st_src t)))"
proof -
  let ?u = "asked [SecretGet (om_Namespace (gs_meta (st_src s))) (sks_Name a)] (marked OpInit s)"
  have u: "good_status (Status (st_src ?u))" by (simp only: asked_fields marked_good(1) [OF assms(4)])
  have st: "conds_of (Status (st_src (marked (OpNoSecrets ''AccessTokenNotFound'' (err_text e)) ?u))) GitLabSourceConditionSecretsProvided
      = Some (mkCondition gitLabSourceCondSet GitLabSourceConditionSecretsProvided ConditionFalse ''AccessTokenNotFound'' (err_text e))"
    unfolding marked_good(2) [OF u] by (simp add: spec_MarkFalse_def Let_def)
  then have "\<not> IsReady (Status (st_src (marked (OpNoSecrets ''AccessTokenNotFound'' (err_text e)) ?u)))"
    using IsReady_good [OF marked_good(1) [OF u, of "OpNoSecrets ''AccessTokenNotFound'' (err_text e)"]]
    by (simp del: marked_fields(6))
  with st show ?thesis
    unfolding reconcile_access_missing [OF assms(1-3)] by (simp add: Let_def del: marked_fields(6))
qed

theorem reconcile_no_access_token_witness:
  "fst (reconcile (demo_reconciler (demo_env\<lparr>env_SecretGet := (\<lambda>_. Inl (PlainError ''gone''))\<rparr>)) (demo_state fresh_source)) = Err (PlainError ''gone'')"
proof -
  let ?r = "demo_reconciler (demo_env\<lparr>env_SecretGet := (\<lambda>_. Inl (PlainError ''gone''))\<rparr>)"
  have "SecretKeyRef (AccessToken (Spec (st_src (demo_state fresh_source)))) = Some (demo_selector ''access'')"
    "SecretKeyRef (SecretToken (Spec (st_src (demo_state fresh_source)))) = Some (demo_selector ''secret'')"
    "secret_read ?r (om_Namespace (gs_meta (st_src (demo_state fresh_source)))) (demo_selector ''access'') (st_trace (demo_state fresh_source)) = Inl (PlainError ''gone'')"
    "good_status (Status (st_src (demo_state fresh_source)))"
    using fresh_good by (simp_all add: demo_defs secret_read_def secret_result_def)
  from reconcile_no_access_token [OF this] show ?thesis by (simp add: Let_def)
qed

text \<open>C34: \<open>updateStatus\<close> changes the lister's own object before it asks the API server, so a
  failed status write hides the change: the error is returned, the object in the cache
  already shows the new status, and the retry that computes the same status again asks for
  nothing and returns nil.\<close>

theorem failed_status_write_is_lost:
  assumes "\<not> status_equiv (Status original) (Status (st_src s))" and "st_cache s (own_key (st_src s)) = Some original"
    and "env_UpdateStatus (rc_env r) (st_trace s @ [UpdateStatus (om_Namespace (gs_meta (st_src s))) (original\<lparr>Status := Status (st_src s)\<rparr>)]) = Inl e"
    and "om_Finalizers (gs_meta original) = om_Finalizers (gs_meta (st_src s))"
  shows "(let t = snd (writeBack r original err s)
          in fst (writeBack r original err s) = Err e
             \<and> (case st_cache t (own_key (st_src s)) of
                  None \<Rightarrow> False
                | Some original' \<Rightarrow> Status original' = Status (st_src s) \<and> writeBack r original' None t = (Ok (), t)))"
proof -
  have "Status (st_src s) \<noteq> Status original" using assms(1) status_equiv_refl by metis
  from writeBack_status_fails [OF assms(1,2) this assms(3)] show ?thesis
    using assms(4) by (simp add: Let_def writeBack_same)
qed

theorem failed_status_write_is_lost_witness:
  "fst (writeBack (demo_reconciler (demo_env\<lparr>env_UpdateStatus := (\<lambda>_. Inl (PlainError ''conflict''))\<rparr>)) fresh_source None
     (demo_state fresh_source\<lparr>st_src := fresh_source\<lparr>Status := demo_status\<rparr>\<rparr>)) = Err (PlainError ''conflict'')"
proof -
  let ?s = "demo_state fresh_source\<lparr>st_src := fresh_source\<lparr>Status := demo_status\<rparr>\<rparr>"
  let ?r = "demo_reconciler (demo_env\<lparr>env_UpdateStatus := (\<lambda>_. Inl (PlainError ''conflict''))\<rparr>)"
  have "\<not> status_equiv (Status fresh_source) (Status (st_src ?s))"
    by (simp add: status_equiv_def fresh_source_def fresh_status_def demo_status_def)
  moreover have "st_cache ?s (own_key (st_src ?s)) = Some fresh_source"
    by (simp add: demo_defs lister_key_def)
  moreover have "env_UpdateStatus (rc_env ?r) h = Inl (PlainError ''conflict'')" for h
    by (simp add: demo_reconciler_def)
  moreover have "om_Finalizers (gs_meta fresh_source) = om_Finalizers (gs_meta (st_src ?s))" by simp
  ultimately show ?thesis using failed_status_write_is_lost [of fresh_source ?s ?r "PlainError ''conflict''" None] by (simp add: Let_def)
qed

section \<open>The receiver and its service\<close>



text \<open>A reconciler panics when no service whose name starts with the source's has a load
  balancer address yet: once its receiver exists and until the address is assigned, every
  run ends in an index out of range, with the services listed and no hook added.\<close>

theorem no_address_panics:
  assumes "env_ServiceList (rc_env r) (st_trace s @ [ServiceList (om_Namespace (gs_meta (st_src s)))]) = Inr items"
    and "list_all (\<lambda>svc. HasPrefix (om_Name (svc_meta svc)) (om_Name (gs_meta (st_src s))) \<longrightarrow> svc_Ingress svc = []) items"
  shows "webhookStage r toks s =
    (Panic, asked [ServiceList (om_Namespace (gs_meta (st_src s)))] (s\<lparr>st_src := addFinalizer (st_src s)\<rparr>))"
proof -
  have pick: "svc_Ingress (foldl (\<lambda>svc service. if HasPrefix (om_Name (svc_meta service)) name then service else svc) svc0 xs) = []"
    if "svc_Ingress svc0 = []" "list_all (\<lambda>svc. HasPrefix (om_Name (svc_meta svc)) name \<longrightarrow> svc_Ingress svc = []) xs" for name svc0 xs
    using that by (induction xs arbitrary: svc0) auto
  have "svc_Ingress (pickService (om_Name (gs_meta (st_src s))) items) = []"
    unfolding pickService_def using assms(2) by (intro pick) (simp_all add: empty_service_def)
  moreover have "om_Namespace (gs_meta (addFinalizer (st_src s))) = om_Namespace (gs_meta (st_src s))"
    "om_Name (gs_meta (addFinalizer (st_src s))) = om_Name (gs_meta (st_src s))"
    by (simp_all add: addFinalizer_def Let_def)
  ultimately have "wpG (webhookStage r (a, b)) (\<lambda>_ _. False) (\<lambda>_ _. False)
      (\<lambda>t. t = asked [ServiceList (om_Namespace (gs_meta (st_src s)))] (s\<lparr>st_src := addFinalizer (st_src s)\<rparr>)) s" for a b
    using assms(1) by (simp add: wp_webhookStage Let_def receiveAdapterDomain_def)
  from this [of "fst toks" "snd toks"] show ?thesis
    by (cases "webhookStage r toks s") (auto simp: wpG_def split: outcome.splits)
qed

theorem no_address_panics_witness:
  "fst (webhookStage (demo_reconciler (demo_env\<lparr>env_ServiceList := (\<lambda>_. Inr [demo_service\<lparr>svc_Ingress := []\<rparr>])\<rparr>)) (''t1'', ''t2'') (demo_state demo_source)) = Panic"
proof -
  let ?r = "demo_reconciler (demo_env\<lparr>env_ServiceList := (\<lambda>_. Inr [demo_service\<lparr>svc_Ingress := []\<rparr>])\<rparr>)"
  have "env_ServiceList (rc_env ?r) h = Inr [demo_service\<lparr>svc_Ingress := []\<rparr>]" for h
    by (simp add: demo_reconciler_def)
  from no_address_panics [OF this, of "demo_state demo_source" "(''t1'', ''t2'')"] show ?thesis by simp
qed

text \<open>An error of the API server on the creation of the public service is dropped: the
  run returns nil and records the normal event ServiceCreated (with an empty name), just
  as when the service is created.\<close>

theorem service_error_dropped:
  assumes "SetControllerReference ''GitLabSource'' (gs_meta (st_src s)) (rc_scheme r) (dep_meta (MakeReceiveAdapter (st_src s) (rc_receiveAdapterImage r))) = Inr m"
    and "SetControllerReference ''GitLabSource'' (gs_meta (st_src s)) (rc_scheme r) (svc_meta (MakePublicService (st_src s))) = Inr m'"
    and "env_DeploymentCreate (rc_env r) (st_trace s @ [DeploymentCreate (om_Namespace (gs_meta (st_src s)))
            ((MakeReceiveAdapter (st_src s) (rc_receiveAdapterImage r))\<lparr>dep_meta := m\<rparr>)]) = Inr u"
  shows "(let r' = r\<lparr>rc_env := (rc_env r)\<lparr>env_ServiceCreate := resp\<rparr>\<rparr>
          in fst (createReceiver r' s) = Ok ()
             \<and> st_events (snd (createReceiver r' s))
                 = st_events s @ [\<lparr>ev_type = ''Normal'', ev_reason = ''ServiceCreated'', ev_format = ''Created Service %s'', ev_args = [[]]\<rparr>])"
proof -
  have "wpG (createReceiver (r\<lparr>rc_env := (rc_env r)\<lparr>env_ServiceCreate := resp\<rparr>\<rparr>))
     (\<lambda>_ t. st_events t = st_events s @ [\<lparr>ev_type = ''Normal'', ev_reason = ''ServiceCreated'', ev_format = ''Created Service %s'', ev_args = [[]]\<rparr>])
     (\<lambda>_ _. False) (\<lambda>_. False) s"
    using assms by (simp add: wp_createReceiver Let_def created_event_def)
  then show ?thesis by (auto simp: wpG_result Let_def split: outcome.splits)
qed

theorem service_error_dropped_witness:
  "fst (createReceiver ((demo_reconciler demo_env)\<lparr>rc_env := demo_env\<lparr>env_ServiceCreate := (\<lambda>_. Inl (PlainError ''denied''))\<rparr>\<rparr>) (demo_state fresh_source)) = Ok ()"
proof -
  let ?src = "st_src (demo_state fresh_source)"
  have scheme: "rc_scheme (demo_reconciler demo_env) ''GitLabSource'' = Some [demo_kind]"
    by (simp add: demo_reconciler_def demo_scheme_def AddToScheme_def add_known_def demo_kind_def Let_def)
  have d: "SetControllerReference ''GitLabSource'' (gs_meta ?src) (rc_scheme (demo_reconciler demo_env)) (dep_meta (MakeReceiveAdapter ?src img))
      = Inr ((dep_meta (MakeReceiveAdapter ?src img))\<lparr>om_OwnerReferences := [NewControllerRef (gs_meta ?src) demo_kind]\<rparr>)" for img
    by (rule SetControllerReference_fresh [where k = demo_kind, OF _ _]) (simp_all add: scheme)
  have v: "SetControllerReference ''GitLabSource'' (gs_meta ?src) (rc_scheme (demo_reconciler demo_env)) (svc_meta (MakePublicService ?src))
      = Inr ((svc_meta (MakePublicService ?src))\<lparr>om_OwnerReferences := [NewControllerRef (gs_meta ?src) demo_kind]\<rparr>)"
    by (rule SetControllerReference_fresh [where k = demo_kind, OF _ _]) (simp_all add: scheme)
  have c: "env_DeploymentCreate (rc_env (demo_reconciler demo_env)) h = Inr ()" for h
    by (simp add: demo_reconciler_def demo_env_def)
  from service_error_dropped [OF d v c, of "\<lambda>_. Inl (PlainError ''denied'')"] show ?thesis
    by (simp add: Let_def demo_reconciler_def)
qed

section \<open>Project URLs and hook options\<close>

text \<open>The project name and the base URL of a project URL \<open>scheme://host/path\<close> put together
  are the project URL; the base URL ends in the slash after the host.\<close>

theorem project_url_split:
  assumes "web_scheme sch" and "plain_authority a" and "plain_path p" and "rooted p" and "tl p \<noteq> []"
  shows "(let u = sch @ ''://'' @ a @ p
          in getProjectName u = Ok (tl p) \<and> getGitlabBaseURL u = Ok (sch @ ''://'' @ a @ ''/'')
             \<and> (sch @ ''://'' @ a @ ''/'') @ tl p = u)"
proof -
  from assms(4,5) obtain q where p: "p = CHR ''/'' # q" by (cases p) (auto simp: rooted_def)
  have parse: "url_Parse (sch @ ''://'' @ a @ CHR ''/'' # q) = Inr (plain_url sch a (CHR ''/'' # q))"
    using url_Parse_plain assms(1-4) unfolding p by blast
  have "TrimSuffix ((sch @ ''://'' @ a @ ''/'') @ q) q = sch @ ''://'' @ a @ ''/''" by (rule TrimSuffix_append)
  then show ?thesis
    using parse by (simp add: p getProjectName_def getGitlabBaseURL_def slice1_def)
qed

theorem project_url_split_witness:
  "getProjectName ''https://gitlab.com/a/b'' = Ok ''a/b'' \<and> getGitlabBaseURL ''https://gitlab.com/a/b'' = Ok ''https://gitlab.com/''"
  using project_url_split [of "''https''" "''gitlab.com''" "''/a/b''"]
  by (simp add: web_scheme_def plain_authority_def plain_path_def plain_char_def is_alnum_def is_alpha_def is_digit_def rooted_def Let_def)

text \<open>\<open>getProjectName\<close> and \<open>getGitlabBaseURL\<close> fail on the same URLs, an unparsable one with
  the error of the parser, and both panic exactly on a URL with an empty path.\<close>

theorem project_url_panics:
  "(getProjectName u = Panic \<longleftrightarrow> (\<exists>v. url_Parse u = Inr v \<and> url_Path v = []))
   \<and> (getGitlabBaseURL u = Panic \<longleftrightarrow> getProjectName u = Panic)
   \<and> (getProjectName u = Err e \<longleftrightarrow> url_Parse u = Inl e) \<and> (getGitlabBaseURL u = Err e \<longleftrightarrow> url_Parse u = Inl e)"
  by (auto simp: getProjectName_def getGitlabBaseURL_def slice1_def split: sum.splits)

text \<open>The hook options the reconciler builds: each event flag is set exactly if its event
  type is listed, the unknown \<open>push_events_branch_filter\<close> sets none, SSL verification
  follows \<open>Secure\<close>, the URL is the adapter's domain under the scheme that goes with it,
  and tokens, project and stored ID are passed on.\<close>

theorem webhook_options_flags:
  "(let o' = webhook_options args p; sp = Spec (wa_source args); es = set (EventTypes sp)
    in PushEvents o' = (''push_events'' \<in> es) \<and> IssuesEvents o' = (''issues_events'' \<in> es)
       \<and> ConfidentialIssuesEvents o' = (''confidential_issues_events'' \<in> es)
       \<and> MergeRequestsEvents o' = (''merge_requests_events'' \<in> es) \<and> TagPushEvents o' = (''tag_push_events'' \<in> es)
       \<and> NoteEvents o' = (''note_events'' \<in> es) \<and> JobEvents o' = (''job_events'' \<in> es)
       \<and> PipelineEvents o' = (''pipeline_events'' \<in> es) \<and> WikiPageEvents o' = (''wiki_page_events'' \<in> es)
       \<and> EnableSSLVerification o' = Secure sp
       \<and> hook_url o' = (if Secure sp then ''https://'' else ''http://'') @ wa_domain args
       \<and> accessToken o' = wa_accessToken args \<and> secretToken o' = wa_secretToken args
       \<and> project o' = p \<and> webhookID o' = WebhookIDKey (Status (wa_source args)))"
  by (simp add: Let_def) (simp add: webhook_options_def Let_def foldl_set_event_flags empty_hook_options_def)

section \<open>Finalizers\<close>

text \<open>Adding and removing the finalizer: both leave a sorted list without duplicates, with
  exactly the controller's finalizer added or removed; both are idempotent, and removing
  after adding gives back a sorted list that did not hold it; nothing else of the source
  changes.\<close>

theorem finalizer_ops:
  "(let fs = om_Finalizers (gs_meta src); add = om_Finalizers (gs_meta (addFinalizer src));
        rem = om_Finalizers (gs_meta (removeFinalizer src))
    in set add = insert finalizerName (set fs) \<and> sorted add \<and> distinct add
       \<and> set rem = set fs - {finalizerName} \<and> sorted rem \<and> distinct rem
       \<and> om_Finalizers (gs_meta (addFinalizer (addFinalizer src))) = add
       \<and> om_Finalizers (gs_meta (removeFinalizer (removeFinalizer src))) = rem
       \<and> om_Finalizers (gs_meta (removeFinalizer (addFinalizer src))) = rem
       \<and> same_object src (addFinalizer src) \<and> Status (addFinalizer src) = Status src
       \<and> same_object src (removeFinalizer src) \<and> Status (removeFinalizer src) = Status src)"
proof -
  have eqs: "om_Finalizers (gs_meta (addFinalizer s)) = List (Insert (NewString (om_Finalizers (gs_meta s))) [finalizerName])"
    "om_Finalizers (gs_meta (removeFinalizer s)) = List (Delete (NewString (om_Finalizers (gs_meta s))) [finalizerName])" for s
    by (simp_all add: addFinalizer_def removeFinalizer_def Let_def)
  show ?thesis
    by (simp add: Let_def eqs strings.set_lst_ins strings.set_lst_del strings.ins_idem strings.del_idem strings.del_ins
        strings.sorted_lst strings.distinct_lst same_object_addFinalizer same_object_removeFinalizer)
qed

end
