(* ===== verification/Convergence.thy ===== *)
theory Convergence
  imports ReconcilerProperties
begin

text \<open>
  From a new source to a steady one: in a cluster that does what it is asked, the first run of
  \<open>Reconcile\<close> deploys the receiver, the second registers the hook, and every later run only
  reads.
\<close>

section \<open>The status after the first stages\<close>

lemma settled_marks:
  fixes rs qs :: "request list" and u :: string and s :: rstate
  assumes "good_status (Status (st_src s))" and "u \<noteq> []"
  defines "t \<equiv> marked (OpSink u) (asked qs (marked OpSecrets (asked rs (marked OpInit s))))"
  shows "settled (Status (st_src t))" and "SinkURI (Status (st_src t)) = u"
    and "WebhookIDKey (Status (st_src t)) = WebhookIDKey (Status (st_src s))"
proof -
  let ?s1 = "asked rs (marked OpInit s)"
  let ?s2 = "asked qs (marked OpSecrets ?s1)"
  have g1: "good_status (Status (st_src ?s1))" using marked_good(1) [OF assms(1), of OpInit] by simp
  have g2: "good_status (Status (st_src ?s2))" using marked_good(1) [OF g1, of OpSecrets] by (simp only: asked_fields)
  have c: "conds_of (Status (st_src t)) = spec_op (OpSink u) (spec_op OpSecrets (conds_of (Status (st_src ?s1))))"
    unfolding t_def marked_good(2) [OF g2] by (simp only: asked_fields marked_good(2) [OF g1, unfolded asked_fields])
  show uri: "SinkURI (Status (st_src t)) = u" unfolding t_def marked_good(3) [OF g2] by simp
  have "wf_status (Status (st_src t))" using marked_good(1) [OF g2, of "OpSink u"] by (simp only: t_def good_status_def)
  then show "settled (Status (st_src t))"
    unfolding settled_def c uri using assms(2) by (simp add: spec_MarkTrue_def Let_def)
  have w: "WebhookIDKey (Status (st_src (marked op v))) = WebhookIDKey (Status (st_src v))" if "good_status (Status (st_src v))" for op v
    using that run_op_other(1) [of "(Status (st_src v), st_clock v)" op] by (simp add: good_status_def)
  show "WebhookIDKey (Status (st_src t)) = WebhookIDKey (Status (st_src s))"
    unfolding t_def w [OF g2] by (simp only: asked_fields w [OF g1, unfolded asked_fields] w [OF assms(1)])
qed

lemma cond_equiv_strip:
  assumes "cond_equiv a b"
  shows "strip a = strip b"
proof -
  have "strip a = strip (b\<lparr>lastTransitionTime := lastTransitionTime a\<rparr>)"
    by (rule arg_cong [OF assms [unfolded cond_equiv_def]])
  then show ?thesis by (simp add: strip_def)
qed

lemma equiv_conds:
  "list_all2 cond_equiv cs ds \<Longrightarrow> map_option strip (find (\<lambda>c. ctype c = t) cs) = map_option strip (find (\<lambda>c. ctype c = t) ds)"
proof (induction rule: list_all2_induct)
  case (Cons c cs d ds)
  have "strip c = strip d" by (rule cond_equiv_strip [OF Cons(1)])
  moreover from this have "ctype c = ctype d" by (metis strip_fields(1))
  ultimately show ?case using Cons(3) by simp
qed simp

lemma settled_equiv:
  assumes "status_equiv a b" and "settled b" and "wf_status a"
  shows "settled a"
proof -
  have "conds_of a = conds_of b"
    using assms(1) equiv_conds by (intro ext) (simp add: abs_conds_def GetCondition_def status_equiv_def)
  then show ?thesis using assms by (simp add: settled_def status_equiv_def)
qed

section \<open>A cluster that does what it is asked\<close>

text \<open>
  Reads of the secrets succeed and the sink has a URI; a receiver the source controls is listed
  exactly after one has been created; the service has an address once it has been asked for;
  creations, writes and the addition of a hook succeed, and the project URL and the scheme are
  as they should be.
\<close>

definition cluster_works :: "Reconciler \<Rightarrow> GitLabSource \<Rightarrow> SecretKeySelector \<Rightarrow> SecretKeySelector \<Rightarrow> string \<Rightarrow> ProjectHook \<Rightarrow> bool" where
  "cluster_works r src a b uri hook \<longleftrightarrow>
     (let ns = om_Namespace (gs_meta src); env = rc_env r
      in uri \<noteq> []
       \<and> (\<forall>h. (\<exists>v. secret_read r ns a h = Inr v) \<and> (\<exists>v. secret_read r ns b h = Inr v) \<and> sink_value r (Spec src) h = Ok (Some uri))
       \<and> (\<forall>h. \<exists>items. env_DeploymentList env h = Inr items
             \<and> ((\<exists>d\<in>set items. IsControlledBy (dep_meta d) (gs_meta src)) \<longleftrightarrow> (\<exists>d. DeploymentCreate ns d \<in> set h)))
       \<and> (\<forall>h. (\<exists>v. ServiceCreate ns v \<in> set h) \<longrightarrow> (\<exists>items domain. env_ServiceList env h = Inr items
             \<and> receiveAdapterDomain (pickService (om_Name (gs_meta src)) items) = Ok domain))
       \<and> (\<forall>h. env_DeploymentCreate env h = Inr () \<and> env_UpdateStatus env h = Inr () \<and> env_Update env h = Inr () \<and> env_AddHook env h = Inr hook)
       \<and> (\<exists>p base. getProjectName (ProjectURL (Spec src)) = Ok p \<and> getGitlabBaseURL (ProjectURL (Spec src)) = Ok base)
       \<and> (\<exists>k. rc_scheme r ''GitLabSource'' = Some [k]))"

text \<open>It does so for every version of the source with the same spec and identity.\<close>

lemma cluster_works_same:
  assumes "cluster_works r src a b uri hook" and "Spec src' = Spec src" and "om_Namespace (gs_meta src') = om_Namespace (gs_meta src)"
    and "om_Name (gs_meta src') = om_Name (gs_meta src)" and "om_UID (gs_meta src') = om_UID (gs_meta src)"
  shows "cluster_works r src' a b uri hook"
proof -
  have "IsControlledBy m (gs_meta src') = IsControlledBy m (gs_meta src)" for m
    using assms(5) by (simp add: IsControlledBy_def split: option.split)
  then show ?thesis using assms by (simp only: cluster_works_def)
qed

lemma cluster_deployments:
  "cluster_works r src a b uri hook \<Longrightarrow> \<exists>items. env_DeploymentList (rc_env r) h = Inr items
     \<and> ((\<exists>d\<in>set items. IsControlledBy (dep_meta d) (gs_meta src)) \<longleftrightarrow> (\<exists>d. DeploymentCreate (om_Namespace (gs_meta src)) d \<in> set h))"
  by (simp add: cluster_works_def Let_def)

lemma cluster_services:
  "cluster_works r src a b uri hook \<Longrightarrow> ServiceCreate (om_Namespace (gs_meta src)) v \<in> set h \<Longrightarrow>
   \<exists>items domain. env_ServiceList (rc_env r) h = Inr items \<and> receiveAdapterDomain (pickService (om_Name (gs_meta src)) items) = Ok domain"
  by (auto simp: cluster_works_def Let_def)

section \<open>The two runs\<close>

definition first_reads :: "GitLabSource \<Rightarrow> SecretKeySelector \<Rightarrow> SecretKeySelector \<Rightarrow> request list" where
  "first_reads src a b =
     (let ns = om_Namespace (gs_meta src)
      in [SecretGet ns (sks_Name a), SecretGet ns (sks_Name b)] @ sink_requests (Spec src) @ [DeploymentList ns (getLabelSelector src)])"

text \<open>The source as the stages before the receiver leave it.\<close>

definition reported_state :: "string \<Rightarrow> GitLabSource \<Rightarrow> SecretKeySelector \<Rightarrow> SecretKeySelector \<Rightarrow> rstate \<Rightarrow> rstate" where
  "reported_state uri src a b s =
     (let ns = om_Namespace (gs_meta src)
      in marked (OpSink uri) (asked (sink_requests (Spec src)) (marked OpSecrets (asked [SecretGet ns (sks_Name a), SecretGet ns (sks_Name b)] (marked OpInit s)))))"

lemma reported_state_fields [simp]:
  "gs_meta (st_src (reported_state uri src a b s)) = gs_meta (st_src s)" "Spec (st_src (reported_state uri src a b s)) = Spec (st_src s)"
  "st_cache (reported_state uri src a b s) = st_cache s"
  "st_trace (reported_state uri src a b s) @ [DeploymentList (om_Namespace (gs_meta src)) (getLabelSelector src)] = st_trace s @ first_reads src a b"
  by (simp_all add: reported_state_def first_reads_def Let_def)

text \<open>What \<open>reconcile\<close> comes to in such a cluster: the receiver stage from there.\<close>

lemma reconcile_reported:
  assumes works: "cluster_works r (st_src s) a b uri hook"
    and a: "SecretKeyRef (AccessToken (Spec (st_src s))) = Some a" and b: "SecretKeyRef (SecretToken (Spec (st_src s))) = Some b"
  shows "\<exists>toks. \<forall>Q E X. wpG (receiverStage r toks) Q E X (reported_state uri (st_src s) a b s) \<longrightarrow> wpG (reconcile r) Q E X s"
proof -
  let ?ns = "om_Namespace (gs_meta (st_src s))" and ?s1 = "marked OpInit s"
  obtain v w where vw: "secret_read r ?ns a (st_trace ?s1) = Inr v" "secret_read r ?ns b (st_trace (asked [SecretGet ?ns (sks_Name a)] ?s1)) = Inr w"
    using works unfolding cluster_works_def Let_def by meson
  have sink: "sink_value r (Spec (st_src s)) h = Ok (Some uri)" for h using works by (simp add: cluster_works_def Let_def)
  show ?thesis
    using a b vw sink
    by (intro exI [of _ "(v, w)"] allI impI)
      (simp add: reconcile_def wp_seq_funs wp_seqG wp_thenG wp_ops wp_secretsStage [of ?s1 a b] wp_sinkStage Let_def sink_op_def reported_state_def)
qed

lemma first_reads_none: "DeploymentCreate ns d \<notin> set (first_reads src a b)" "ServiceCreate ns v \<notin> set (first_reads src a b)"
  "count is_AddHook (first_reads src a b) = 0"
  by (simp_all add: first_reads_def Let_def sink_requests_def sink_request_def split: option.split)

text \<open>Without a receiver: it is created, with its service.\<close>

lemma first_run:
  assumes works: "cluster_works r (st_src s) a b uri hook"
    and a: "SecretKeyRef (AccessToken (Spec (st_src s))) = Some a" and b: "SecretKeyRef (SecretToken (Spec (st_src s))) = Some b"
    and new: "\<And>d. DeploymentCreate (om_Namespace (gs_meta (st_src s))) d \<notin> set (st_trace s)"
  shows "\<exists>d v t. reconcile r s = (Ok (), t) \<and> st_src t = st_src (reported_state uri (st_src s) a b s) \<and> st_cache t = st_cache s
    \<and> st_trace t = st_trace s @ first_reads (st_src s) a b
        @ [DeploymentCreate (om_Namespace (gs_meta (st_src s))) d, ServiceCreate (om_Namespace (gs_meta (st_src s))) v]"
proof -
  let ?src = "st_src s" and ?ns = "om_Namespace (gs_meta (st_src s))" and ?u = "reported_state uri (st_src s) a b s"
  let ?G = "\<lambda>t. \<exists>d v. st_src t = st_src ?u \<and> st_cache t = st_cache s
    \<and> st_trace t = st_trace s @ first_reads ?src a b @ [DeploymentCreate ?ns d, ServiceCreate ?ns v]"
  have label: "getLabelSelector (st_src ?u) = getLabelSelector ?src" by (simp add: getLabelSelector_def)
  obtain items where items: "env_DeploymentList (rc_env r) (st_trace s @ first_reads ?src a b) = Inr items"
    and none: "(\<exists>d\<in>set items. IsControlledBy (dep_meta d) (gs_meta ?src)) \<longleftrightarrow> (\<exists>d. DeploymentCreate ?ns d \<in> set (st_trace s @ first_reads ?src a b))"
    using cluster_deployments [OF works] by blast
  have "find (\<lambda>d. IsControlledBy (dep_meta d) (gs_meta ?src)) items = None"
    using none new first_reads_none by (auto simp: find_None_iff)
  moreover obtain k where "rc_scheme r ''GitLabSource'' = Some [k]" using works by (auto simp: cluster_works_def Let_def)
  note set_ref = SetControllerReference_fresh [where scheme = "rc_scheme r", OF this]
  have "om_OwnerReferences (dep_meta (MakeReceiveAdapter x img)) = []" "om_OwnerReferences (svc_meta (MakePublicService x)) = []" for x img
    by (simp_all add: MakeReceiveAdapter_def MakePublicService_def Let_def empty_meta_def)
  moreover have "env_DeploymentCreate (rc_env r) h = Inr ()" for h using works by (simp add: cluster_works_def Let_def)
  ultimately have "wpG (receiverStage r toks) (\<lambda>_. ?G) (\<lambda>_ _. False) (\<lambda>_. False) ?u" for toks
    using items
    by (simp add: receiverStage_def stage_simps wp_getOwnedReceiver wp_createReceiver label Let_def IsNotFound_def NewNotFound_def set_ref)
  then have "wpG (reconcile r) (\<lambda>_. ?G) (\<lambda>_ _. False) (\<lambda>_. False) s" using reconcile_reported [OF works a b] by blast
  then show ?thesis by (cases "reconcile r s") (auto simp: wpG_def split: outcome.splits)
qed

text \<open>With a receiver and a settled status: the hook is added.\<close>

lemma second_run:
  assumes works: "cluster_works (newReconciler env scheme img) (st_src s) a b uri hook"
    and a: "SecretKeyRef (AccessToken (Spec (st_src s))) = Some a" and b: "SecretKeyRef (SecretToken (Spec (st_src s))) = Some b"
    and there: "DeploymentCreate (om_Namespace (gs_meta (st_src s))) d \<in> set (st_trace s)" "ServiceCreate (om_Namespace (gs_meta (st_src s))) v \<in> set (st_trace s)"
    and settled: "settled (Status (st_src s))" "SinkURI (Status (st_src s)) = uri" and id: "WebhookIDKey (Status (st_src s)) = []"
  shows "\<exists>add t. reconcile (newReconciler env scheme img) s = (Ok (), t) \<and> is_AddHook add
    \<and> st_src t = (addFinalizer (st_src s))\<lparr>Status := (Status (st_src s))\<lparr>WebhookIDKey := Itoa (sint (hook_ID hook))\<rparr>\<rparr> \<and> st_cache t = st_cache s
    \<and> st_trace t = st_trace s @ first_reads (st_src s) a b @ [ServiceList (om_Namespace (gs_meta (st_src s))), add]"
proof -
  let ?r = "newReconciler env scheme img"
  let ?src = "st_src s" and ?ns = "om_Namespace (gs_meta (st_src s))" and ?u = "reported_state uri (st_src s) a b s"
  let ?G = "\<lambda>t. \<exists>add. is_AddHook add
    \<and> st_src t = (addFinalizer ?src)\<lparr>Status := (Status ?src)\<lparr>WebhookIDKey := Itoa (sint (hook_ID hook))\<rparr>\<rparr> \<and> st_cache t = st_cache s
    \<and> st_trace t = st_trace s @ first_reads ?src a b @ [ServiceList ?ns, add]"
  have noop: "marked OpInit s = s" "marked OpSecrets (asked rs s) = asked rs s" "marked (OpSink uri) (asked rs s) = asked rs s" for rs
    using settled_run_op [OF settled(1)] settled(2) by (simp_all add: marked_noop)
  have u: "asked [DeploymentList ?ns (getLabelSelector ?src)] ?u = asked (first_reads ?src a b) s" "st_src ?u = ?src"
    by (simp_all add: reported_state_def first_reads_def Let_def noop)
  obtain items where items: "env_DeploymentList env (st_trace s @ first_reads ?src a b) = Inr items"
    and some: "(\<exists>d\<in>set items. IsControlledBy (dep_meta d) (gs_meta ?src)) \<longleftrightarrow> (\<exists>d. DeploymentCreate ?ns d \<in> set (st_trace s @ first_reads ?src a b))"
    using cluster_deployments [OF works, unfolded newReconciler_fields] by blast
  then obtain dep where "find (\<lambda>d. IsControlledBy (dep_meta d) (gs_meta ?src)) items = Some dep"
    using there(1) by (cases "find (\<lambda>d. IsControlledBy (dep_meta d) (gs_meta ?src)) items") (auto simp: find_None_iff)
  note receiver = items this
  obtain svcs domain where services: "env_ServiceList env (st_trace s @ first_reads ?src a b @ [ServiceList ?ns]) = Inr svcs"
    "receiveAdapterDomain (pickService (om_Name (gs_meta ?src)) svcs) = Ok domain"
    using cluster_services [OF works, of v "st_trace s @ first_reads ?src a b @ [ServiceList ?ns]"] there(2) by auto
  obtain p base where url: "getProjectName (ProjectURL (Spec ?src)) = Ok p" "getGitlabBaseURL (ProjectURL (Spec ?src)) = Ok base"
    using works by (auto simp: cluster_works_def Let_def)
  have hook: "env_AddHook env h = Inr hook" for h using works by (simp add: cluster_works_def Let_def newReconciler_def)
  have fin: "Spec (addFinalizer ?src) = Spec ?src" "om_Name (gs_meta (addFinalizer ?src)) = om_Name (gs_meta ?src)"
    "om_Namespace (gs_meta (addFinalizer ?src)) = ?ns" "Status (addFinalizer ?src) = Status ?src"
    by (simp_all add: addFinalizer_def Let_def)
  obtain toks where toks: "\<And>Q E X. wpG (receiverStage ?r toks) Q E X ?u \<Longrightarrow> wpG (reconcile ?r) Q E X s"
    using reconcile_reported [OF works a b] by blast
  obtain x y where xy: "toks = (x, y)" by (cases toks)
  have "wpG (receiverStage ?r (x, y)) (\<lambda>_. ?G) (\<lambda>_ _. False) (\<lambda>_. False) ?u"
    using receiver services url hook id
    by (simp add: receiverStage_def wp_onErr wp_withSrc wp_getOwnedReceiver u Let_def wp_webhookStage fin createWebhook_def
        newReconciler_def gitLabWebhookClient_def wp_liftO wp_Create wp_addHook wp_retG)
  then have "wpG (reconcile ?r) (\<lambda>_. ?G) (\<lambda>_ _. False) (\<lambda>_. False) s"
    by (intro toks) (simp only: xy)
  then show ?thesis by (cases "reconcile ?r s") (auto simp: wpG_def split: outcome.splits)
qed

section \<open>The write-back\<close>

lemma writeBack_ok:
  assumes "st_cache u (own_key (st_src u)) = Some original"
    and "\<And>h. env_UpdateStatus (rc_env r) h = Inr ()" and "\<And>h. env_Update (rc_env r) h = Inr ()"
  shows "\<exists>ws. writeBack r original None u = (Ok (), u\<lparr>st_cache := (st_cache u)(own_key (st_src u) \<mapsto>
        original\<lparr>Status := (if status_equiv (Status original) (Status (st_src u)) then Status original else Status (st_src u)),
                 gs_meta := (gs_meta original)\<lparr>om_Finalizers := om_Finalizers (gs_meta (st_src u))\<rparr>\<rparr>),
        st_trace := st_trace u @ ws\<rparr>)
      \<and> list_all (\<lambda>q. is_UpdateStatus q \<or> is_Update q) ws
      \<and> (om_Finalizers (gs_meta original) \<noteq> om_Finalizers (gs_meta (st_src u)) \<longrightarrow>
           (\<exists>x. Update (om_Namespace (gs_meta (st_src u))) x \<in> set ws \<and> om_Finalizers (gs_meta x) = om_Finalizers (gs_meta (st_src u))))"
proof -
  let ?c = "if status_equiv (Status original) (Status (st_src u)) then Status original else Status (st_src u)"
  let ?new = "original\<lparr>Status := ?c, gs_meta := (gs_meta original)\<lparr>om_Finalizers := om_Finalizers (gs_meta (st_src u))\<rparr>\<rparr>"
  let ?G = "\<lambda>t. \<exists>ws. t = u\<lparr>st_cache := (st_cache u)(own_key (st_src u) \<mapsto> ?new), st_trace := st_trace u @ ws\<rparr>
      \<and> list_all (\<lambda>q. is_UpdateStatus q \<or> is_Update q) ws
      \<and> (om_Finalizers (gs_meta original) \<noteq> om_Finalizers (gs_meta (st_src u)) \<longrightarrow>
           (\<exists>x. Update (om_Namespace (gs_meta (st_src u))) x \<in> set ws \<and> om_Finalizers (gs_meta x) = om_Finalizers (gs_meta (st_src u))))"
  have fin: "original\<lparr>gs_meta := (gs_meta original)\<lparr>om_Finalizers := om_Finalizers (gs_meta original)\<rparr>\<rparr> = original" by simp
  have run: ?thesis if "wpG (writeBack r original None) (\<lambda>_. ?G) (\<lambda>_ _. False) (\<lambda>_. False) u"
    using that by (cases "writeBack r original None u") (auto simp: wpG_def split: outcome.splits)
  show ?thesis
  proof (cases "status_equiv (Status original) (Status (st_src u))")
    case equiv: True
    show ?thesis
    proof (cases "om_Finalizers (gs_meta original) = om_Finalizers (gs_meta (st_src u))")
      case True
      have "?new = original" using equiv fin by (simp add: True [symmetric])
      then show ?thesis using writeBack_same [OF equiv True] assms(1) by (intro exI [of _ "[]"]) (simp add: fun_upd_idem True)
    next
      case False
      then show ?thesis using assms equiv by (intro run) (auto simp: writeBack_def wp_simps Let_def)
    qed
  next
    case False
    then have "Status (st_src u) \<noteq> Status original" using status_equiv_refl by metis
    then have status: "Status (st_src u) \<noteq> Status original" .
    show ?thesis
    proof (cases "om_Finalizers (gs_meta original) = om_Finalizers (gs_meta (st_src u))")
      case True
      have new: "?new = original\<lparr>Status := Status (st_src u)\<rparr>"
        using False by (cases original) (simp add: True [symmetric])
      show ?thesis unfolding new
        by (rule run [unfolded new]) (use assms False True status in \<open>auto simp: writeBack_def wp_simps Let_def\<close>)
    next
      case fin: False
      then show ?thesis using assms False status by (intro run) (auto simp: writeBack_def wp_simps Let_def)
    qed
  qed
qed

section \<open>Three runs\<close>

lemma Reconcile_ok:
  assumes "SplitMetaNamespaceKey key = Inr (ns, name)" and "st_cache s (lister_key ns name) = Some src"
    and "om_DeletionTimestamp (gs_meta src) = None" and "reconcile r (s\<lparr>st_src := src\<rparr>) = (Ok (), t)"
  shows "Reconcile r key s = writeBack r src None t"
  using assms by (simp add: Reconcile_eq process_eq onErr_def)

lemma works_steady:
  assumes works: "cluster_works r src a b uri hook" and "SinkURI (Status src) = uri"
    and "DeploymentCreate (om_Namespace (gs_meta src)) d \<in> set h" and "ServiceCreate (om_Namespace (gs_meta src)) v \<in> set h"
  shows "steady_answers r src a b h"
proof -
  have found: "\<exists>items d. env_DeploymentList (rc_env r) h' = Inr items \<and> find (\<lambda>d. IsControlledBy (dep_meta d) (gs_meta src)) items = Some d"
    if "set h \<subseteq> set h'" for h'
  proof -
    obtain items where items: "env_DeploymentList (rc_env r) h' = Inr items"
      "(\<exists>d\<in>set items. IsControlledBy (dep_meta d) (gs_meta src)) \<longleftrightarrow> (\<exists>d. DeploymentCreate (om_Namespace (gs_meta src)) d \<in> set h')"
      using cluster_deployments [OF works] by blast
    then have "find (\<lambda>d. IsControlledBy (dep_meta d) (gs_meta src)) items \<noteq> None"
      using assms(3) that by (auto simp: find_None_iff)
    with items(1) show ?thesis by blast
  qed
  have "(\<exists>v. secret_read r ns' a h' = Inr v) \<and> (\<exists>v. secret_read r ns' b h' = Inr v)" if "ns' = om_Namespace (gs_meta src)" for ns' h'
    using works that by (simp add: cluster_works_def Let_def)
  moreover have "sink_value r (Spec src) h' = Ok (Some (SinkURI (Status src)))" for h'
    using works assms(2) by (simp add: cluster_works_def Let_def)
  ultimately show ?thesis
    unfolding steady_answers_def Let_def
    by (intro conjI found cluster_services [OF works]) (use assms(4) in auto)
qed

text \<open>So many runs on a key.\<close>

fun reconciles :: "Reconciler \<Rightarrow> string \<Rightarrow> nat \<Rightarrow> rstate \<Rightarrow> rstate" where
  "reconciles r key 0 s = s"
| "reconciles r key (Suc n) s = snd (Reconcile r key (reconciles r key n s))"

lemma concat_replicate_snoc: "concat (replicate n xs) @ xs = concat (replicate (Suc n) xs)"
  by (induction n) simp_all

lemma steady_runs:
  assumes "SplitMetaNamespaceKey key = Inr (ns, name)" and "st_cache s (lister_key ns name) = Some src" and "steady src"
    and "SecretKeyRef (AccessToken (Spec src)) = Some a" and "SecretKeyRef (SecretToken (Spec src)) = Some b"
    and "\<And>rs. steady_answers r src a b (st_trace s @ rs)"
  shows "st_cache (reconciles r key n s) = st_cache s
    \<and> st_trace (reconciles r key n s) = st_trace s @ concat (replicate n (steady_reads src a b))
    \<and> fst (Reconcile r key (reconciles r key n s)) = Ok ()"
proof (induction n)
  case 0
  from steady_run [OF assms(1-5)] assms(6) [of "[]"] show ?case by simp
next
  case (Suc n)
  let ?t = "reconciles r key n s"
  have "st_cache ?t (lister_key ns name) = Some src" "steady_answers r src a b (st_trace ?t)" using Suc assms(2,6) by simp_all
  note now = steady_run [OF assms(1) this(1) assms(3-5) this(2)]
  have trace: "st_trace (reconciles r key (Suc n) s) = st_trace s @ concat (replicate (Suc n) (steady_reads src a b))"
    and cache: "st_cache (reconciles r key (Suc n) s) = st_cache s"
    using now Suc by (simp_all add: concat_replicate_snoc del: replicate_Suc)
  moreover have "st_cache (reconciles r key (Suc n) s) (lister_key ns name) = Some src" using cache assms(2) by simp
  moreover have "steady_answers r src a b (st_trace (reconciles r key (Suc n) s))" unfolding trace by (rule assms(6))
  ultimately show ?case using steady_run [OF assms(1) _ assms(3-5)] by simp
qed

lemma wanted_id: "Itoa i \<noteq> []"
  by (simp add: Itoa_def utoa.simps)

text \<open>The first run, and what the cache then holds.\<close>

lemma first_Reconcile:
  assumes key: "SplitMetaNamespaceKey key = Inr (ns, name)" "own_key src = lister_key ns name" and cached: "st_cache s (lister_key ns name) = Some src"
    and src: "good_status (Status src)" "WebhookIDKey (Status src) = []" "om_DeletionTimestamp (gs_meta src) = None"
    and a: "SecretKeyRef (AccessToken (Spec src)) = Some a" and b: "SecretKeyRef (SecretToken (Spec src)) = Some b"
    and works: "cluster_works r src a b uri hook"
    and new: "\<And>d. DeploymentCreate (om_Namespace (gs_meta src)) d \<notin> set (st_trace s)"
  shows "\<exists>d v ws st s1. Reconcile r key s = (Ok (), s1)
    \<and> st_trace s1 = st_trace s @ first_reads src a b @ [DeploymentCreate (om_Namespace (gs_meta src)) d, ServiceCreate (om_Namespace (gs_meta src)) v] @ ws
    \<and> list_all (\<lambda>q. is_UpdateStatus q \<or> is_Update q) ws \<and> st_cache s1 (lister_key ns name) = Some (src\<lparr>Status := st\<rparr>)
    \<and> settled st \<and> SinkURI st = uri \<and> WebhookIDKey st = []"
proof -
  have env: "env_UpdateStatus (rc_env r) h = Inr ()" "env_Update (rc_env r) h = Inr ()" for h
    using works by (simp_all add: cluster_works_def Let_def)
  have uri: "uri \<noteq> []" using works by (simp add: cluster_works_def Let_def)
  let ?s = "s\<lparr>st_src := src\<rparr>"
  let ?u = "reported_state uri src a b ?s"
  obtain d v t where t: "reconcile r ?s = (Ok (), t)" "st_src t = st_src ?u" "st_cache t = st_cache s"
    "st_trace t = st_trace s @ first_reads src a b @ [DeploymentCreate (om_Namespace (gs_meta src)) d, ServiceCreate (om_Namespace (gs_meta src)) v]"
    using first_run [of r ?s a b uri hook] works a b new by auto
  have t_src: "gs_meta (st_src t) = gs_meta src" "Spec (st_src t) = Spec src" by (simp_all add: t(2))
  have st: "settled (Status (st_src t))" "SinkURI (Status (st_src t)) = uri" "WebhookIDKey (Status (st_src t)) = []"
    unfolding t(2) reported_state_def Let_def using settled_marks [of ?s uri] src(1,2) uri by simp_all
  define st1 where "st1 = (if status_equiv (Status src) (Status (st_src t)) then Status src else Status (st_src t))"
  have st1: "settled st1" "SinkURI st1 = uri" "WebhookIDKey st1 = []"
    using st settled_equiv [of "Status src" "Status (st_src t)"] src(1,2) by (auto simp: st1_def good_status_def status_equiv_def)
  obtain ws where w: "writeBack r src None t = (Ok (), t\<lparr>st_cache := (st_cache t)(lister_key ns name \<mapsto> src\<lparr>Status := st1\<rparr>), st_trace := st_trace t @ ws\<rparr>)"
    "list_all (\<lambda>q. is_UpdateStatus q \<or> is_Update q) ws"
    using writeBack_ok [of t src r] env cached t_src t(3) key(2) by (cases src) (auto simp: st1_def)
  show ?thesis
    using Reconcile_ok [OF key(1) cached src(3) t(1), unfolded w(1)] w(2) st1 t(4)
    by (intro exI [of _ d] exI [of _ v] exI [of _ ws] exI [of _ st1]) simp
qed

text \<open>The second run.\<close>

lemma second_Reconcile:
  assumes key: "SplitMetaNamespaceKey key = Inr (ns, name)" "own_key src = lister_key ns name" and cached: "st_cache s (lister_key ns name) = Some src"
    and src: "settled (Status src)" "SinkURI (Status src) = uri" "WebhookIDKey (Status src) = []" "om_DeletionTimestamp (gs_meta src) = None"
    and a: "SecretKeyRef (AccessToken (Spec src)) = Some a" and b: "SecretKeyRef (SecretToken (Spec src)) = Some b"
    and works: "cluster_works (newReconciler env scheme img) src a b uri hook"
    and there: "DeploymentCreate (om_Namespace (gs_meta src)) d \<in> set (st_trace s)" "ServiceCreate (om_Namespace (gs_meta src)) v \<in> set (st_trace s)"
  shows "\<exists>add ws s2. Reconcile (newReconciler env scheme img) key s = (Ok (), s2) \<and> is_AddHook add
    \<and> st_trace s2 = st_trace s @ first_reads src a b @ [ServiceList (om_Namespace (gs_meta src)), add] @ ws
    \<and> list_all (\<lambda>q. is_UpdateStatus q \<or> is_Update q) ws
    \<and> st_cache s2 (lister_key ns name) = Some ((addFinalizer src)\<lparr>Status := (Status src)\<lparr>WebhookIDKey := Itoa (sint (hook_ID hook))\<rparr>\<rparr>)"
proof -
  let ?r = "newReconciler env scheme img" and ?src = "(addFinalizer src)\<lparr>Status := (Status src)\<lparr>WebhookIDKey := Itoa (sint (hook_ID hook))\<rparr>\<rparr>"
  have env: "env_UpdateStatus (rc_env ?r) h = Inr ()" "env_Update (rc_env ?r) h = Inr ()" for h
    using works by (simp_all add: cluster_works_def Let_def)
  obtain add t where t: "reconcile ?r (s\<lparr>st_src := src\<rparr>) = (Ok (), t)" "is_AddHook add" "st_src t = ?src" "st_cache t = st_cache s"
    "st_trace t = st_trace s @ first_reads src a b @ [ServiceList (om_Namespace (gs_meta src)), add]"
    using second_run [of env scheme img "s\<lparr>st_src := src\<rparr>" a b uri hook d v] works a b src there by auto
  have "\<not> status_equiv (Status src) (Status (st_src t))" using wanted_id [THEN not_sym] src(3) by (simp add: status_equiv_def t(3))
  moreover have "src\<lparr>Status := Status (st_src t), gs_meta := (gs_meta src)\<lparr>om_Finalizers := om_Finalizers (gs_meta (st_src t))\<rparr>\<rparr> = ?src"
    by (simp add: t(3) addFinalizer_def Let_def)
  moreover have "own_key (st_src t) = lister_key ns name" using key(2) by (simp add: t(3) addFinalizer_def Let_def)
  ultimately obtain ws where w: "writeBack ?r src None t = (Ok (), t\<lparr>st_cache := (st_cache t)(lister_key ns name \<mapsto> ?src), st_trace := st_trace t @ ws\<rparr>)"
    "list_all (\<lambda>q. is_UpdateStatus q \<or> is_Update q) ws"
    using writeBack_ok [of t src ?r] env cached t(4) by auto
  show ?thesis
    using Reconcile_ok [OF key(1) cached src(4) t(1), unfolded w(1)] w(2) t(2,5)
    by (intro exI [of _ add] exI [of _ ws]) simp
qed

text \<open>What the second run leaves is steady.\<close>

lemma added_steady:
  assumes "settled (Status src)" and "om_DeletionTimestamp (gs_meta src) = None"
  shows "steady ((addFinalizer src)\<lparr>Status := (Status src)\<lparr>WebhookIDKey := Itoa i\<rparr>\<rparr>)"
proof -
  let ?src = "(addFinalizer src)\<lparr>Status := (Status src)\<lparr>WebhookIDKey := Itoa i\<rparr>\<rparr>"
  have "settled (Status ?src)" using assms(1) by (simp add: settled_def abs_conds_def GetCondition_def)
  moreover have "sorted (om_Finalizers (gs_meta ?src)) \<and> distinct (om_Finalizers (gs_meta ?src)) \<and> finalizerName \<in> set (om_Finalizers (gs_meta ?src))"
    using addFinalizer_has [of src] by (simp add: addFinalizer_def Let_def strings.sorted_lst strings.distinct_lst)
  moreover have "om_DeletionTimestamp (gs_meta ?src) = None" using assms(2) by (simp add: addFinalizer_def Let_def)
  ultimately show ?thesis using wanted_id by (simp add: steady_def)
qed

fun is_DeploymentCreate :: "request \<Rightarrow> bool" where
  "is_DeploymentCreate (DeploymentCreate _ _) = True"
| "is_DeploymentCreate _ = False"

lemma writes_add_nothing:
  "list_all (\<lambda>q. is_UpdateStatus q \<or> is_Update q) ws \<Longrightarrow> count is_AddHook ws = 0 \<and> count is_DeploymentCreate ws = 0"
proof (induction ws)
  case (Cons q ws)
  then show ?case by (cases q) simp_all
qed simp

lemma reads_create_nothing: "count is_DeploymentCreate (first_reads src a b) = 0"
  by (simp add: first_reads_def Let_def sink_requests_def sink_request_def split: option.split)

lemma settled_ready: "settled st \<Longrightarrow> IsReady st"
  by (simp add: settled_def IsReady_abs)


text \<open>The cluster of the demonstration, in which the receiver is there once it has been created.\<close>

definition new_env :: env where
  "new_env = demo_env\<lparr>env_DeploymentList := (\<lambda>h. Inr (if list_ex (\<lambda>q. case q of DeploymentCreate ns _ \<Rightarrow> ns = ''ns'' | _ \<Rightarrow> False) h then [demo_receiver] else []))\<rparr>"


section \<open>A source under deletion\<close>

lemma deleteLoop_ok:
  assumes "\<And>h. env_DeleteHook env h = Inr ()"
  shows "wpG (deleteLoop env c o' i hooks) Q E X s
    = Q () (s\<lparr>st_trace := st_trace s @ replicate (count (\<lambda>hook. sint (hook_ID hook) = i) hooks) (DeleteHook c (project o') i)\<rparr>)"
  using assms by (induction hooks arbitrary: s) (simp_all add: wp_simps)

lemma finalize_ok:
  assumes "WebhookIDKey (Status (st_src s)) = Itoa (sint (i :: 64 word))" and a: "SecretKeyRef (AccessToken (Spec (st_src s))) = Some a"
    and "\<And>h. secret_read (newReconciler env scheme img) (om_Namespace (gs_meta (st_src s))) a h = Inr tok"
    and "getProjectName (ProjectURL (Spec (st_src s))) = Ok p" and "getGitlabBaseURL (ProjectURL (Spec (st_src s))) = Ok base"
    and "\<And>h. env_ListHooks env h = Inr hooks" and "\<And>h. env_DeleteHook env h = Inr ()"
  shows "finalize (newReconciler env scheme img) s = (Ok (), s\<lparr>st_src := (removeFinalizer (st_src s))\<lparr>Status := (Status (st_src s))\<lparr>WebhookIDKey := []\<rparr>\<rparr>,
      st_trace := st_trace s @ [SecretGet (om_Namespace (gs_meta (st_src s))) (sks_Name a), ListHooks (make_client tok base) p]
        @ replicate (count (\<lambda>hook. hook_ID hook = i) hooks) (DeleteHook (make_client tok base) p (sint i))\<rparr>)" (is "_ = (Ok (), ?t)")
proof -
  have src: "Status (removeFinalizer (st_src s)) = Status (st_src s)" "Spec (removeFinalizer (st_src s)) = Spec (st_src s)"
    by (simp_all add: removeFinalizer_def Let_def)
  have id: "Atoi (Itoa (sint i)) = Inr (sint i)" using int_bounds Atoi_Itoa by blast
  have same: "(\<lambda>hook. sint (hook_ID hook) = sint i) = (\<lambda>hook. hook_ID hook = i)" using signed_word_eqI by blast
  have "wpG (finalize (newReconciler env scheme img)) (\<lambda>_ t. t = ?t) (\<lambda>_ _. False) (\<lambda>_. False) s"
    using assms src
    by (simp add: finalize_def deleteWebhook_def gitLabWebhookClient_def empty_hook_options_def wp_simps wp_DeleteWebhook Let_def
        deleteLoop_ok id wanted_id same)
  then show ?thesis by (cases "finalize (newReconciler env scheme img) s") (auto simp: wpG_def split: outcome.splits)
qed



end
