(* ===== verification/ClientProperties.thy ===== *)
theory ClientProperties
  imports Demo
begin

text \<open>
  The properties of the webhook client and of the status operations.
\<close>

section \<open>Creating and deleting hooks\<close>

text \<open>\<open>Create\<close> for options that store no ID adds exactly one hook, with the options' URL,
  flags, token and verification; the ID it returns is not empty and is read back by
  \<open>strconv.Atoi\<close> as the ID GitLab assigned.\<close>

theorem Create_new:
  assumes "webhookID o' = []"
  shows "(let q = AddHook (make_client (accessToken o') base) (project o') (hook_options o');
              t = s\<lparr>st_trace := st_trace s @ [q]\<rparr>
          in Create env o' base s =
             (case env_AddHook env (st_trace t) of
                Inl e \<Rightarrow> (Err (PlainError (''Failed to add webhook to the project:'' @ project o' @ '' due to '' @ err_text e)), t)
              | Inr hook \<Rightarrow> (Ok (Itoa (sint (hook_ID hook))), t)))
         \<and> Atoi (Itoa (sint i)) = Inr (sint (i :: 64 word)) \<and> Itoa (sint i) \<noteq> []"
  using assms int_bounds [of i] Atoi_Itoa [of "sint i"]
  by (simp add: Create_def addHook_def onErr_def issue_def Let_def liftG_def failG_def retG_def split: sum.split)

theorem Create_new_witness:
  "fst (Create demo_env empty_hook_options ''https://gitlab.com/'' (demo_state demo_source)) = Ok (Itoa (sint (7 :: 64 word)))"
  using Create_new [of empty_hook_options "''https://gitlab.com/''" "demo_state demo_source" demo_env 7]
  by (simp add: empty_hook_options_def Let_def demo_env_def)

text \<open>\<open>Create\<close> for options with a stored ID that GitLab still lists returns that ID and only
  lists the hooks.\<close>

theorem Create_listed:
  assumes "webhookID o' \<noteq> []" and "Atoi (webhookID o') = Inr i"
    and "env_ListHooks env (st_trace s @ [ListHooks (make_client (accessToken o') base) (project o')]) = Inr hooks"
    and "\<exists>hook \<in> set hooks. sint (hook_ID hook) = i"
  shows "Create env o' base s =
    (Ok (webhookID o'), s\<lparr>st_trace := st_trace s @ [ListHooks (make_client (accessToken o') base) (project o')]\<rparr>)"
proof -
  have "list_ex (\<lambda>hook. sint (hook_ID hook) = i) hooks" using assms(4) by (simp add: list_ex_iff)
  then show ?thesis
    using assms(1-3) by (simp add: Create_def onErr_def issue_def Let_def liftG_def retG_def)
qed

lemma Atoi_7: "Atoi ''7'' = Inr 7"
proof -
  have "char_of (55 :: nat) = CHR ''7''" by code_simp
  then show ?thesis using Atoi_Itoa [of 7] by (simp add: Itoa_def utoa.simps digit_char_def int64_min_def int64_max_def)
qed

theorem Create_listed_witness:
  "fst (Create demo_env (empty_hook_options\<lparr>webhookID := ''7''\<rparr>) ''https://gitlab.com/'' (demo_state demo_source)) = Ok ''7''"
  using Create_listed [of "empty_hook_options\<lparr>webhookID := ''7''\<rparr>" 7 demo_env "demo_state demo_source" "''https://gitlab.com/''" "[\<lparr>hook_ID = 7\<rparr>]"] Atoi_7
  by (simp add: demo_env_def)

text \<open>\<open>Delete\<close> with a stored ID lists the hooks and then removes the hook with that ID, once
  for each time it is listed and no other; without error all of them are removed.  With no
  stored ID it does nothing.\<close>

theorem Delete_only_stored:
  "(let (res, t) = DeleteWebhook env o' base s; c = make_client (accessToken o') base;
        lst = ListHooks c (project o')
    in if webhookID o' = [] then res = Ok () \<and> t = s
       else case Atoi (webhookID o') of
         Inl e \<Rightarrow> res = Err (PlainError (''failed to convert hook id to int: '' @ err_text e)) \<and> t = s
       | Inr i \<Rightarrow>
           (case env_ListHooks env (st_trace s @ [lst]) of
              Inl e \<Rightarrow> res = Err (PlainError (''Failed to list project hooks for project: '' @ project o'))
                       \<and> t = s\<lparr>st_trace := st_trace s @ [lst]\<rparr>
            | Inr hooks \<Rightarrow>
                (\<exists>n. t = s\<lparr>st_trace := st_trace s @ lst # replicate n (DeleteHook c (project o') i)\<rparr>
                     \<and> (if res = Ok () then n = count (\<lambda>h. sint (hook_ID h) = i) hooks
                        else 0 < n \<and> n \<le> count (\<lambda>h. sint (hook_ID h) = i) hooks \<and> res \<noteq> Panic))))"
proof -
  let ?c = "make_client (accessToken o') base"
  let ?t = "s\<lparr>st_trace := st_trace s @ [ListHooks ?c (project o')]\<rparr>"
  obtain res t where run: "DeleteWebhook env o' base s = (res, t)" by (cases "DeleteWebhook env o' base s")
  have wp: "wpG (DeleteWebhook env o' base) (\<lambda>_ u. res = Ok () \<and> t = u) (\<lambda>e u. res = Err e \<and> t = u) (\<lambda>u. res = Panic \<and> t = u) s"
    using run by (cases res) (simp_all add: wpG_def)
  have loop: "(\<exists>n. t = s\<lparr>st_trace := st_trace s @ ListHooks ?c (project o') # replicate n (DeleteHook ?c (project o') i)\<rparr>
      \<and> (if res = Ok () then n = count (\<lambda>h. sint (hook_ID h) = i) hooks
         else 0 < n \<and> n \<le> count (\<lambda>h. sint (hook_ID h) = i) hooks \<and> res \<noteq> Panic))"
    if "wpG (deleteLoop env ?c o' i hooks) (\<lambda>_ u. res = Ok () \<and> t = u) (\<lambda>e u. res = Err e \<and> t = u) (\<lambda>u. res = Panic \<and> t = u) ?t" for i hooks
    using that deleteLoop_contract [of env ?c o' i hooks ?t]
    by (cases "deleteLoop env ?c o' i hooks ?t") (auto simp: wpG_def split: outcome.splits)
  show ?thesis
  proof (cases "webhookID o' = []")
    case True
    with wp run show ?thesis by (simp add: wp_DeleteWebhook)
  next
    case id: False
    show ?thesis
    proof (cases "Atoi (webhookID o')")
      case (Inl e)
      with wp run id show ?thesis by (simp add: wp_DeleteWebhook)
    next
      case i: (Inr i)
      show ?thesis
      proof (cases "env_ListHooks env (st_trace ?t)")
        case (Inl e)
        with wp run id i show ?thesis by (simp add: wp_DeleteWebhook Let_def)
      next
        case (Inr hooks)
        with wp id i have "wpG (deleteLoop env ?c o' i hooks) (\<lambda>_ u. res = Ok () \<and> t = u) (\<lambda>e u. res = Err e \<and> t = u)
            (\<lambda>u. res = Panic \<and> t = u) ?t"
          by (simp add: wp_DeleteWebhook Let_def)
        from loop [OF this] show ?thesis using run id i Inr by (simp only: Let_def split) simp
      qed
    qed
  qed
qed

lemma NewClient_base: "NewClient tok = \<lparr>gc_token = tok, gc_base = plain_url ''https'' ''gitlab.com'' ''/api/v4/''\<rparr>"
proof -
  have "url_Parse (''https'' @ ''://'' @ ''gitlab.com'' @ ''/'') = Inr (plain_url ''https'' ''gitlab.com'' ''/'')"
    by (rule url_Parse_plain)
      (simp_all add: web_scheme_def plain_authority_def plain_path_def plain_char_def is_alnum_def is_alpha_def is_digit_def rooted_def)
  then show ?thesis
    by (simp add: NewClient_def SetBaseURL_def defaultBaseURL_def apiVersionPath_def HasSuffix_def Let_def plain_url_def)
qed

text \<open>The client calls the server of the base URL, with a path that ends in \<open>api/v4/\<close>, and
  with the token it is given.  When \<open>SetBaseURL\<close> fails on the base URL its error is
  dropped, and the client calls the default server gitlab.com with that same token.\<close>

theorem make_client_server:
  "(case SetBaseURL base (NewClient tok) of
      Inl _ \<Rightarrow> url_Host (gc_base (make_client tok base)) = ''gitlab.com''
    | Inr c \<Rightarrow> make_client tok base = c)
   \<and> gc_token (make_client tok base) = tok
   \<and> HasSuffix (url_Path (gc_base (make_client tok base))) ''api/v4/''"
proof -
  have suffix: "HasSuffix (p @ ''api/v4/'') ''api/v4/''" for p by (rule HasSuffix_append)
  have new: "gc_token (NewClient tok) = tok" "HasSuffix (url_Path (gc_base (NewClient tok))) ''api/v4/''"
    "url_Host (gc_base (NewClient tok)) = ''gitlab.com''"
    using suffix [of "''/''"] by (simp_all add: NewClient_base plain_url_def)
  have set: "SetBaseURL base c = Inr c' \<Longrightarrow> gc_token c' = gc_token c \<and> HasSuffix (url_Path (gc_base c')) ''api/v4/''" for c c'
    using suffix by (auto simp: SetBaseURL_def Let_def apiVersionPath_def split: sum.splits if_splits)
  show ?thesis
    using new set [of "NewClient tok"] by (simp add: make_client_def Let_def split: sum.splits)
qed

section \<open>The status operations\<close>

text \<open>C29: every status operation, on a status with sorted and unique conditions, keeps them so,
  acts on the conditions (seen as a map from types, times aside) as its specification says,
  and changes nothing else but the sink URI of \<open>MarkSink\<close>.\<close>

theorem status_op_refines:
  assumes "wf_status st"
  shows "(let st' = fst (run_op op (st, clk))
          in wf_status st' \<and> conds_of st' = spec_op op (conds_of st) \<and> SinkURI st' = op_uri op (SinkURI st)
             \<and> WebhookIDKey st' = WebhookIDKey st \<and> ObservedGeneration st' = ObservedGeneration st)"
proof -
  have wf: "wf_status (fst (st, clk))" using assms by simp
  show ?thesis using run_op_good [OF wf, of op] run_op_other [OF wf, of op] by (simp add: Let_def)
qed

theorem status_op_refines_witness:
  "conds_of (fst (run_op (OpSink ''u'') (fresh_status, sconst 0))) = spec_op (OpSink ''u'') (conds_of fresh_status)"
  using status_op_refines [of fresh_status "OpSink ''u''" "sconst 0"]
  by (simp add: fresh_status_def wf_conds_def Let_def del: run_op.simps spec_op.simps)

text \<open>After any sequence of status operations on a new status, Ready is true exactly when
  the secrets and the sink are, the source is not ready with an empty sink URI, and the
  conditions are those the specification of the operations gives.\<close>

theorem status_ops_ready:
  "(let st = fst (fold run_op ops (fresh_status, clk))
    in good_status st
       \<and> (IsReady st \<longleftrightarrow> IsTrue (conds_of st GitLabSourceConditionSecretsProvided) \<and> IsTrue (conds_of st GitLabSourceConditionSinkProvided))
       \<and> (IsReady st \<longrightarrow> SinkURI st \<noteq> [])
       \<and> conds_of st = fold spec_op ops (conds_of fresh_status))"
proof -
  have run: "good_status (fst (fold run_op ops st)) \<and> conds_of (fst (fold run_op ops st)) = fold spec_op ops (conds_of (fst st))"
    if "good_status (fst st)" for st
    using that
  proof (induction ops arbitrary: st)
    case (Cons op ops)
    have "good_status (fst (run_op op st))" using Cons.prems good_run_op [of op] by (cases st) (simp add: good_op_def)
    moreover have "conds_of (fst (run_op op st)) = spec_op op (conds_of (fst st))"
      using Cons.prems run_op_good [of st op] by (simp add: good_status_def)
    ultimately show ?case using Cons.IH [of "run_op op st"] by simp
  qed simp
  from run [of "(fresh_status, clk)"] fresh_good show ?thesis
    using IsReady_good by (auto simp: Let_def good_status_def)
qed

theorem status_ops_ready_witness:
  "IsReady (fst (fold run_op [OpSecrets, OpSink ''u''] (fresh_status, sconst 0)))"
proof -
  have spec: "fold spec_op [OpSecrets, OpSink ''u''] (conds_of fresh_status) GitLabSourceConditionSecretsProvided = Some (mkCondition gitLabSourceCondSet GitLabSourceConditionSecretsProvided ConditionTrue [] [])"
    "fold spec_op [OpSecrets, OpSink ''u''] (conds_of fresh_status) GitLabSourceConditionSinkProvided = Some (mkCondition gitLabSourceCondSet GitLabSourceConditionSinkProvided ConditionTrue [] [])"
    by (simp_all add: spec_MarkTrue_def Let_def)
  show ?thesis
    using status_ops_ready [of "[OpSecrets, OpSink ''u'']" "sconst 0"]
    unfolding Let_def spec by (simp add: spec IsTrue_def mkCondition_def del: fold.simps spec_op.simps)
qed

end
