(* ===== verification/Adapter.thy ===== *)
theory Adapter
  imports Resources GoURL
begin

text \<open>
  The receive adapter: the webhook parser of go-playground
  (\<open>webhooks.v5/gitlab/gitlab.go\<close>), the conversion to CloudEvents
  (\<open>pkg/adapter/adapter.go\<close>) and the process around them
  (\<open>cmd/receive_adapter/main.go\<close>).

  A payload, a Go \<open>interface{}\<close>, is nil or a value of one of the payload types; of such a
  value only the URL the adapter reads is kept.  The JSON decoder is a parameter: for a
  type and a body it yields the URL it filled in and an error or none, so that a payload
  that is decoded in part and the error come together, as in Go.  Sending is a function
  of the events sent so far.
\<close>

section \<open>Headers\<close>

type_synonym header = "string \<rightharpoonup> string list"

definition validHeaderFieldByte :: "char \<Rightarrow> bool" where
  "validHeaderFieldByte c \<longleftrightarrow> is_alnum c \<or>
     c \<in> set [CHR ''!'', CHR ''#'', CHR ''$'', CHR ''%'', CHR ''&'', CHR 0x27, CHR ''*'', CHR ''+'', CHR ''-'',
              CHR ''.'', CHR ''^'', CHR ''_'', CHR 0x60, CHR ''|'', CHR ''~'']"

definition upper_char :: "char \<Rightarrow> char" where
  "upper_char c = (if 97 \<le> (of_char c :: nat) \<and> (of_char c :: nat) \<le> 122 then char_of ((of_char c :: nat) - 32) else c)"

fun canon_loop :: "bool \<Rightarrow> string \<Rightarrow> string" where
  "canon_loop upper [] = []"
| "canon_loop upper (c # cs) = (if upper then upper_char c else lower_char c) # canon_loop (c = CHR ''-'') cs"

definition CanonicalMIMEHeaderKey :: "string \<Rightarrow> string" where
  "CanonicalMIMEHeaderKey s = (if list_all validHeaderFieldByte s then canon_loop True s else s)"

definition Header_Get :: "header \<Rightarrow> string \<Rightarrow> string" where
  "Header_Get h key =
     (case h (CanonicalMIMEHeaderKey key) of
        None \<Rightarrow> []
      | Some vs \<Rightarrow> (case vs of [] \<Rightarrow> [] | v # _ \<Rightarrow> v))"

section \<open>Events and payloads\<close>

definition PushEvents_hook :: string where "PushEvents_hook = ''Push Hook''"
definition TagEvents :: string where "TagEvents = ''Tag Push Hook''"
definition IssuesEvents_hook :: string where "IssuesEvents_hook = ''Issue Hook''"
definition ConfidentialIssuesEvents_hook :: string where "ConfidentialIssuesEvents_hook = ''Confidential Issue Hook''"
definition CommentEvents :: string where "CommentEvents = ''Note Hook''"
definition MergeRequestEvents :: string where "MergeRequestEvents = ''Merge Request Hook''"
definition WikiPageEvents_hook :: string where "WikiPageEvents_hook = ''Wiki Page Hook''"
definition PipelineEvents_hook :: string where "PipelineEvents_hook = ''Pipeline Hook''"
definition BuildEvents :: string where "BuildEvents = ''Build Hook''"
definition JobEvents_hook :: string where "JobEvents_hook = ''Job Hook''"
definition SystemHookEvents :: string where "SystemHookEvents = ''System Hook''"

lemmas event_names = PushEvents_hook_def TagEvents_def IssuesEvents_hook_def ConfidentialIssuesEvents_hook_def
  CommentEvents_def MergeRequestEvents_def WikiPageEvents_hook_def PipelineEvents_hook_def BuildEvents_def
  JobEvents_hook_def SystemHookEvents_def

datatype payload_type =
    PushEventPayload | TagEventPayload | IssueEventPayload | ConfidentialIssueEventPayload | CommentEventPayload
  | MergeRequestEventPayload | WikiPageEventPayload | PipelineEventPayload | BuildEventPayload | JobEventPayload

datatype payload = PNil | PValue payload_type string

datatype parse_error =
    ErrEventNotSpecifiedToParse
  | ErrInvalidHTTPMethod
  | ErrMissingGitLabEventHeader
  | ErrGitLabTokenVerificationFailed
  | ErrEventNotFound
  | ErrParsingPayload
  | JSONError go_error
  | UnknownEvent string

text \<open>\<open>json.Unmarshal\<close> into a payload type, and into \<open>SystemHookPayload\<close> (its object kind).\<close>

record decoder =
  json_payload :: "payload_type \<Rightarrow> string \<Rightarrow> string \<times> go_error option"
  json_system :: "string \<Rightarrow> go_error + string"

section \<open>Parsing a hook\<close>

definition unmarshal :: "decoder \<Rightarrow> payload_type \<Rightarrow> string \<Rightarrow> payload \<times> parse_error option" where
  "unmarshal dec typ body = (let (url, err) = json_payload dec typ body in (PValue typ url, map_option JSONError err))"

function eventParsing :: "decoder \<Rightarrow> string \<Rightarrow> string list \<Rightarrow> string \<Rightarrow> payload \<times> parse_error option" where
  "eventParsing dec gitLabEvent events body =
     (if gitLabEvent \<notin> set events then (PNil, Some ErrEventNotFound)
      else if gitLabEvent = PushEvents_hook then unmarshal dec PushEventPayload body
      else if gitLabEvent = TagEvents then unmarshal dec TagEventPayload body
      else if gitLabEvent = ConfidentialIssuesEvents_hook then unmarshal dec ConfidentialIssueEventPayload body
      else if gitLabEvent = IssuesEvents_hook then unmarshal dec IssueEventPayload body
      else if gitLabEvent = CommentEvents then unmarshal dec CommentEventPayload body
      else if gitLabEvent = MergeRequestEvents then unmarshal dec MergeRequestEventPayload body
      else if gitLabEvent = WikiPageEvents_hook then unmarshal dec WikiPageEventPayload body
      else if gitLabEvent = PipelineEvents_hook then unmarshal dec PipelineEventPayload body
      else if gitLabEvent = BuildEvents then unmarshal dec BuildEventPayload body
      else if gitLabEvent = JobEvents_hook then unmarshal dec JobEventPayload body
      else if gitLabEvent = SystemHookEvents then
        (case json_system dec body of
           Inl e \<Rightarrow> (PNil, Some (JSONError e))
         | Inr objectKind \<Rightarrow>
             if objectKind = ''push'' then eventParsing dec PushEvents_hook events body
             else if objectKind = ''tag_push'' then eventParsing dec TagEvents events body
             else if objectKind = ''merge_request'' then eventParsing dec MergeRequestEvents events body
             else (PNil, Some (UnknownEvent gitLabEvent)))
      else (PNil, Some (UnknownEvent gitLabEvent)))"
  by pat_completeness auto
termination
  by (relation "measure (\<lambda>(dec, ev, events, body). if ev = SystemHookEvents then 1 else 0)") (auto simp: event_names)

declare eventParsing.simps [simp del]

record http_request =
  rq_Method :: string
  rq_Header :: header
  rq_Body :: "go_error + string"

text \<open>\<open>Webhook.Parse\<close> of a webhook with the given secret\<close>

definition Parse :: "decoder \<Rightarrow> string \<Rightarrow> http_request \<Rightarrow> string list \<Rightarrow> payload \<times> parse_error option" where
  "Parse dec secret rq events =
     (if length events = 0 then (PNil, Some ErrEventNotSpecifiedToParse)
      else if rq_Method rq \<noteq> ''POST'' then (PNil, Some ErrInvalidHTTPMethod)
      else if 0 < length secret \<and> Header_Get (rq_Header rq) ''X-Gitlab-Token'' \<noteq> secret
      then (PNil, Some ErrGitLabTokenVerificationFailed)
      else let event = Header_Get (rq_Header rq) ''X-Gitlab-Event'' in
        if length event = 0 then (PNil, Some ErrMissingGitLabEventHeader)
        else case rq_Body rq of
            Inl _ \<Rightarrow> (PNil, Some ErrParsingPayload)
          | Inr body \<Rightarrow> if length body = 0 then (PNil, Some ErrParsingPayload)
                        else eventParsing dec event events body)"

section \<open>The conversion\<close>

definition GLHeaderEvent :: string where "GLHeaderEvent = ''GitLab-Event''"
definition GLHeaderDelivery :: string where "GLHeaderDelivery = ''GitLab-Delivery''"

record cloud_event =
  ce_SpecVersion :: string
  ce_ID :: string
  ce_Type :: string
  ce_Source :: url
  ce_Extensions :: "string \<rightharpoonup> string"
  ce_Data :: payload

record adapter_state =
  ad_sent :: "cloud_event list"

type_synonym 'a adapter = "(adapter_state, 'a) go"

text \<open>The answer of the sink to the last event of a sequence.\<close>

type_synonym sink_response = "cloud_event list \<Rightarrow> go_error option"

definition Send :: "sink_response \<Rightarrow> cloud_event \<Rightarrow> unit adapter" where
  "Send sink ev = (\<lambda>s. let es = ad_sent s @ [ev] in
     ((case sink es of None \<Rightarrow> Ok () | Some e \<Rightarrow> Err e), s\<lparr>ad_sent := es\<rparr>))"

text \<open>\<open>payload.(T)\<close>, without the second result: panics on nil and on another type.\<close>

definition assertType :: "payload_type \<Rightarrow> payload \<Rightarrow> string outcome" where
  "assertType typ p = (case p of PValue typ' url \<Rightarrow> if typ' = typ then Ok url else Panic | PNil \<Rightarrow> Panic)"

definition ParseURLRef :: "string \<Rightarrow> url option" where
  "ParseURLRef u = (if u = [] then None else case url_Parse u of Inl _ \<Rightarrow> None | Inr pu \<Rightarrow> Some pu)"

text \<open>The rewriting of an SSH address to a web address.\<close>

definition web_address :: "string \<Rightarrow> string" where
  "web_address url =
     (if HasPrefix url ''git@''
      then ReplaceAll (ReplaceAll (ReplaceAll url '':'' ''/'') ''git@'' ''https://'') ''.git'' []
      else url)"

definition event_url :: "string \<Rightarrow> payload \<Rightarrow> string outcome" where
  "event_url gitLabEvent payload =
     (if gitLabEvent = PushEvents_hook then assertType PushEventPayload payload
      else if gitLabEvent = TagEvents then assertType TagEventPayload payload
      else if gitLabEvent = IssuesEvents_hook then assertType IssueEventPayload payload
      else if gitLabEvent = ConfidentialIssuesEvents_hook then assertType ConfidentialIssueEventPayload payload
      else if gitLabEvent = CommentEvents then assertType CommentEventPayload payload
      else if gitLabEvent = MergeRequestEvents then assertType MergeRequestEventPayload payload
      else if gitLabEvent = WikiPageEvents_hook then assertType WikiPageEventPayload payload
      else if gitLabEvent = PipelineEvents_hook then assertType PipelineEventPayload payload
      else if gitLabEvent = BuildEvents then assertType BuildEventPayload payload
      else Ok [])"

definition sourceFromGitLabEvent :: "string \<Rightarrow> payload \<Rightarrow> url outcome" where
  "sourceFromGitLabEvent gitLabEvent payload =
     (case event_url gitLabEvent payload of
        Panic \<Rightarrow> Panic
      | Err e \<Rightarrow> Err e
      | Ok url \<Rightarrow>
          (case (if url \<noteq> [] then ParseURLRef (web_address url) else None) of
             Some source \<Rightarrow> Ok source
           | None \<Rightarrow> Err (PlainError ''no source found in gitlab event'')))"

definition handleEvent :: "sink_response \<Rightarrow> payload \<Rightarrow> header \<Rightarrow> unit adapter" where
  "handleEvent sink payload hdr =
     (let gitLabEventType = Header_Get hdr (''X-'' @ GLHeaderEvent);
          eventID = Header_Get hdr (''X-'' @ GLHeaderDelivery);
          extensions = [GLHeaderEvent \<mapsto> gitLabEventType, GLHeaderDelivery \<mapsto> eventID];
          cloudEventType = GitLabSourceEventPrefix @ ''.'' @ gitLabEventType
      in thenG (liftO (sourceFromGitLabEvent gitLabEventType payload))
           (\<lambda>source. Send sink \<lparr>ce_SpecVersion = ''0.2'', ce_ID = eventID, ce_Type = cloudEventType, ce_Source = source,
                               ce_Extensions = extensions, ce_Data = payload\<rparr>))"

definition HandleEvent :: "sink_response \<Rightarrow> payload \<Rightarrow> header \<Rightarrow> unit adapter" where
  "HandleEvent sink payload hdr = onErr (handleEvent sink payload hdr) (\<lambda>_. retG ()) (\<lambda>_. retG ())"

section \<open>The process\<close>

definition envPort :: string where "envPort = ''PORT''"
definition envSecret :: string where "envSecret = ''GITLAB_SECRET_TOKEN''"

definition validEvents :: "string list" where
  "validEvents = [PushEvents_hook, TagEvents, IssuesEvents_hook, ConfidentialIssuesEvents_hook, CommentEvents,
     MergeRequestEvents, WikiPageEvents_hook, PipelineEvents_hook, BuildEvents]"

text \<open>The handler at \<open>/\<close>; its result is the status code of the response.\<close>

definition handle :: "decoder \<Rightarrow> string \<Rightarrow> sink_response \<Rightarrow> http_request \<Rightarrow> nat adapter" where
  "handle dec secret sink rq =
     (let (event, err) = Parse dec secret rq validEvents
      in if err = Some ErrEventNotFound then retG 404
         else seqG (HandleEvent sink event (rq_Header rq)) (retG 200))"

text \<open>
  \<open>flag.Parse\<close> with the one flag \<open>sink\<close>: \<open>None\<close> when the flag package exits the process.
\<close>

fun flag_Parse :: "string list \<Rightarrow> string \<Rightarrow> string option" where
  "flag_Parse [] v = Some v"
| "flag_Parse (s # args) v =
     (if length s < 2 \<or> hd s \<noteq> CHR ''-'' \<or> s = ''--'' then Some v
      else let name = (if s ! 1 = CHR ''-'' then drop 2 s else drop 1 s)
           in if name = [] \<or> hd name = CHR ''-'' \<or> hd name = CHR ''='' then None
              else case IndexByte (tl name) CHR ''='' of
                  Some i \<Rightarrow> if take (Suc i) name \<noteq> ''sink'' then None else flag_Parse args (drop (Suc (Suc i)) name)
                | None \<Rightarrow> if name \<noteq> ''sink'' then None
                          else (case args of [] \<Rightarrow> None | a # args' \<Rightarrow> flag_Parse args' a))"

text \<open>\<open>adapter.New\<close>: an adapter holds the CloudEvents client for its sink.\<close>

record 'c event_adapter =
  ad_client :: 'c

definition Adapter_New :: "(string \<Rightarrow> go_error + 'c) \<Rightarrow> string \<Rightarrow> go_error + 'c event_adapter" where
  "Adapter_New NewDefaultClient sinkURI =
     (case NewDefaultClient sinkURI of Inl err \<Rightarrow> Inl err | Inr c \<Rightarrow> Inr \<lparr>ad_client = c\<rparr>)"

datatype main_result = FlagExit | Fatal string | Serve string string string

text \<open>
  \<open>main\<close> up to the listener: the sink, the address and the secret it serves with.
  \<open>NewDefaultClient\<close> is the creation of the CloudEvents client.
\<close>

definition main_adapter :: "string list \<Rightarrow> (string \<rightharpoonup> string) \<Rightarrow> (string \<Rightarrow> go_error + 'c) \<Rightarrow> main_result" where
  "main_adapter args environ NewDefaultClient =
     (case flag_Parse args [] of
        None \<Rightarrow> FlagExit
      | Some sink \<Rightarrow>
          if sink = [] then Fatal ''No sink given''
          else let port = (case environ envPort of None \<Rightarrow> [] | Some v \<Rightarrow> v);
                   port' = (if port = [] then ''8080'' else port);
                   secretToken = (case environ envSecret of None \<Rightarrow> [] | Some v \<Rightarrow> v)
               in if secretToken = [] then Fatal ''No secret token given''
                  else case Adapter_New NewDefaultClient sink of
                      Inl e \<Rightarrow> Fatal (''Failed to create gitlab adapter: '' @ err_text e)
                    | Inr _ \<Rightarrow> Serve sink ('':'' @ port') secretToken)"

end
