(* ===== verification/AdapterProperties.thy ===== *)
theory AdapterProperties
  imports Adapter
begin

text \<open>
  The properties of the receive adapter: what reaches the sink, what an unauthentic
  request leads to, and the addresses events are attributed to.
\<close>

section \<open>Helper facts\<close>

lemma event_header_same: "Header_Get h ''X-GitLab-Event'' = Header_Get h ''X-Gitlab-Event''"
proof -
  have valid: "list_all validHeaderFieldByte ''X-GitLab-Event''" "list_all validHeaderFieldByte ''X-Gitlab-Event''"
    by (simp_all add: validHeaderFieldByte_def is_alnum_def is_alpha_def)
  have "canon_loop True ''X-GitLab-Event'' = ''X-Gitlab-Event''" "canon_loop True ''X-Gitlab-Event'' = ''X-Gitlab-Event''"
    by (simp_all add: upper_char_def lower_char_def char_of_def bit_0)
  with valid show ?thesis by (simp only: Header_Get_def CanonicalMIMEHeaderKey_def if_True)
qed

lemma event_header: "''X-'' @ GLHeaderEvent = ''X-GitLab-Event''"
  by (simp add: GLHeaderEvent_def)

lemma if_same_disj: "(if a then x else if b then x else y) = (if a \<or> b then x else y)"
  by simp

lemma event_url_nil: "event_url ev PNil = (if ev \<in> set validEvents then Panic else Ok [])"
proof -
  have nil: "assertType T PNil = Panic" for T by (simp add: assertType_def)
  show ?thesis unfolding event_url_def nil validEvents_def by (simp add: if_same_disj split del: if_split)
qed

lemma HandleEvent_nil:
  "HandleEvent sink PNil hdr s =
     (if Header_Get hdr ''X-Gitlab-Event'' \<in> set validEvents then (Panic, s) else (Ok (), s))"
  unfolding HandleEvent_def handleEvent_def Let_def event_header event_header_same sourceFromGitLabEvent_def event_url_nil
  by (simp add: onErr_def thenG_def liftO_def failG_def retG_def)

text \<open>The type of payload a valid event is decoded to.\<close>

definition event_type :: "string \<Rightarrow> payload_type" where
  "event_type ev =
     (if ev = PushEvents_hook then PushEventPayload else if ev = TagEvents then TagEventPayload
      else if ev = ConfidentialIssuesEvents_hook then ConfidentialIssueEventPayload
      else if ev = IssuesEvents_hook then IssueEventPayload else if ev = CommentEvents then CommentEventPayload
      else if ev = MergeRequestEvents then MergeRequestEventPayload else if ev = WikiPageEvents_hook then WikiPageEventPayload
      else if ev = PipelineEvents_hook then PipelineEventPayload else BuildEventPayload)"

lemma validEvents_cases:
  assumes "ev \<in> set validEvents"
  obtains "ev = PushEvents_hook" | "ev = TagEvents" | "ev = IssuesEvents_hook" | "ev = ConfidentialIssuesEvents_hook"
    | "ev = CommentEvents" | "ev = MergeRequestEvents" | "ev = WikiPageEvents_hook" | "ev = PipelineEvents_hook" | "ev = BuildEvents"
  using assms unfolding validEvents_def by auto

lemma eventParsing_valid:
  "eventParsing dec ev validEvents body =
     (if ev \<in> set validEvents then unmarshal dec (event_type ev) body else (PNil, Some ErrEventNotFound))"
proof (cases "ev \<in> set validEvents")
  case True
  then have "eventParsing dec ev validEvents body = unmarshal dec (event_type ev) body"
    by (subst eventParsing.simps, cases rule: validEvents_cases) (simp_all add: event_type_def event_names)
  with True show ?thesis by simp
next
  case False
  then show ?thesis by (subst eventParsing.simps) simp
qed

lemma event_url_valid: "ev \<in> set validEvents \<Longrightarrow> event_url ev (PValue (event_type ev) url) = Ok url"
  by (cases rule: validEvents_cases, assumption) (simp_all add: event_url_def event_type_def assertType_def event_names)

text \<open>A request the parser accepts as authentic and complete.\<close>

definition authentic :: "string \<Rightarrow> http_request \<Rightarrow> string \<Rightarrow> bool" where
  "authentic secret rq body \<longleftrightarrow>
     rq_Method rq = ''POST'' \<and> (secret = [] \<or> Header_Get (rq_Header rq) ''X-Gitlab-Token'' = secret)
     \<and> Header_Get (rq_Header rq) ''X-Gitlab-Event'' \<noteq> [] \<and> rq_Body rq = Inr body \<and> body \<noteq> []"

lemma validEvents_ne: "length validEvents \<noteq> 0"
  by (simp add: validEvents_def)

lemma Parse_authentic:
  "authentic secret rq body \<Longrightarrow>
   Parse dec secret rq validEvents = eventParsing dec (Header_Get (rq_Header rq) ''X-Gitlab-Event'') validEvents body"
  by (simp only: Parse_def authentic_def validEvents_ne Let_def) auto

lemma Parse_other:
  assumes "\<nexists>body. authentic secret rq body"
  shows "\<exists>e. Parse dec secret rq validEvents = (PNil, Some e) \<and> e \<noteq> ErrEventNotFound"
  using assms by (simp only: Parse_def authentic_def validEvents_ne Let_def) (auto split: sum.splits)

lemma handle_authentic:
  assumes "authentic secret rq body" and "Header_Get (rq_Header rq) ''X-Gitlab-Event'' \<in> set validEvents"
  shows "handle dec secret sink rq s =
    (let ev = Header_Get (rq_Header rq) ''X-Gitlab-Event'';
         pl = PValue (event_type ev) (fst (json_payload dec (event_type ev) body))
     in seqG (HandleEvent sink pl (rq_Header rq)) (retG 200) s)"
  using assms
  by (simp add: handle_def Parse_authentic eventParsing_valid unmarshal_def split_def Let_def)

lemma handle_other:
  assumes "\<nexists>body. authentic secret rq body"
  shows "handle dec secret sink rq s =
    ((if Header_Get (rq_Header rq) ''X-Gitlab-Event'' \<in> set validEvents then Panic else Ok 200), s)"
proof -
  from Parse_other [OF assms] obtain e where "Parse dec secret rq validEvents = (PNil, Some e)" "e \<noteq> ErrEventNotFound"
    by blast
  then show ?thesis
    by (simp add: handle_def seqG_def thenG_def onErr_def HandleEvent_nil retG_def)
qed

lemma handle_unknown:
  assumes "authentic secret rq body" and "Header_Get (rq_Header rq) ''X-Gitlab-Event'' \<notin> set validEvents"
  shows "handle dec secret sink rq s = (Ok 404, s)"
  using assms by (simp add: handle_def Parse_authentic eventParsing_valid retG_def)

section \<open>What reaches the sink\<close>

lemma handleEvent_sent:
  assumes "ev = Header_Get hdr ''X-Gitlab-Event''"
  shows "handleEvent sink pl hdr s =
    (case sourceFromGitLabEvent ev pl of
       Panic \<Rightarrow> (Panic, s)
     | Err e \<Rightarrow> (Err e, s)
     | Ok src \<Rightarrow> Send sink \<lparr>ce_SpecVersion = ''0.2'', ce_ID = Header_Get hdr (''X-'' @ GLHeaderDelivery),
          ce_Type = GitLabSourceEventPrefix @ ''.'' @ ev, ce_Source = src,
          ce_Extensions = [GLHeaderEvent \<mapsto> ev, GLHeaderDelivery \<mapsto> Header_Get hdr (''X-'' @ GLHeaderDelivery)], ce_Data = pl\<rparr> s)"
  unfolding handleEvent_def Let_def event_header event_header_same assms
  by (simp add: thenG_def onErr_def liftO_def failG_def split: outcome.split)

lemma sourceFromGitLabEvent_Ok:
  "ev \<in> set validEvents \<Longrightarrow> sourceFromGitLabEvent ev (PValue (event_type ev) url) = Ok src
     \<longleftrightarrow> url \<noteq> [] \<and> ParseURLRef (web_address url) = Some src"
  by (auto simp: sourceFromGitLabEvent_def event_url_valid split: option.splits)

lemma sourceFromGitLabEvent_total:
  "ev \<in> set validEvents \<Longrightarrow> sourceFromGitLabEvent ev (PValue (event_type ev) url) \<noteq> Panic"
  by (auto simp: sourceFromGitLabEvent_def event_url_valid split: option.splits)

text \<open>The event a request is turned into.\<close>

definition event_for :: "http_request \<Rightarrow> payload \<Rightarrow> url \<Rightarrow> cloud_event" where
  "event_for rq pl src =
     (let ev = Header_Get (rq_Header rq) ''X-Gitlab-Event''; i = Header_Get (rq_Header rq) (''X-'' @ GLHeaderDelivery)
      in \<lparr>ce_SpecVersion = ''0.2'', ce_ID = i, ce_Type = GitLabSourceEventPrefix @ ''.'' @ ev, ce_Source = src,
          ce_Extensions = [GLHeaderEvent \<mapsto> ev, GLHeaderDelivery \<mapsto> i], ce_Data = pl\<rparr>)"

lemma handle_valid:
  assumes "authentic secret rq body" and "Header_Get (rq_Header rq) ''X-Gitlab-Event'' \<in> set validEvents"
  shows "handle dec secret sink rq s =
    (let typ = event_type (Header_Get (rq_Header rq) ''X-Gitlab-Event''); url = fst (json_payload dec typ body)
     in (Ok 200,
         case (if url \<noteq> [] then ParseURLRef (web_address url) else None) of
           None \<Rightarrow> s
         | Some src \<Rightarrow> s\<lparr>ad_sent := ad_sent s @ [event_for rq (PValue typ url) src]\<rparr>))"
proof -
  let ?ev = "Header_Get (rq_Header rq) ''X-Gitlab-Event''"
  let ?url = "fst (json_payload dec (event_type ?ev) body)"
  have "sourceFromGitLabEvent ?ev (PValue (event_type ?ev) ?url) =
      (case (if ?url \<noteq> [] then ParseURLRef (web_address ?url) else None) of
         Some src \<Rightarrow> Ok src | None \<Rightarrow> Err (PlainError ''no source found in gitlab event''))"
    by (simp only: sourceFromGitLabEvent_def event_url_valid [OF assms(2)] outcome.case)
  then show ?thesis
    unfolding handle_authentic [OF assms] Let_def
    by (simp add: HandleEvent_def handleEvent_sent [OF refl] seqG_def thenG_def onErr_def Send_def Let_def retG_def
        event_for_def split: option.split)
qed


text \<open>A request without the token, with another method, without event or body is not
  forwarded, and not refused either: the parser's error is dropped and the nil payload
  handled, so the answer is 200, or, where the header names one of the nine events, the
  handler panics on the payload's type.\<close>

theorem unauthentic_not_refused:
  assumes "\<nexists>body. authentic secret rq body"
  shows "handle dec secret sink rq s =
    ((if Header_Get (rq_Header rq) ''X-Gitlab-Event'' \<in> set validEvents then Panic else Ok 200), s)"
  using assms by (rule handle_other)

definition demo_request :: "string \<Rightarrow> http_request" where
  "demo_request ev = \<lparr>rq_Method = ''POST'', rq_Header = [''X-Gitlab-Token'' \<mapsto> [''t''], ''X-Gitlab-Event'' \<mapsto> [ev]], rq_Body = Inr ''{}''\<rparr>"

definition demo_decoder :: "string \<Rightarrow> go_error option \<Rightarrow> decoder" where
  "demo_decoder url err = \<lparr>json_payload = (\<lambda>_ _. (url, err)), json_system = (\<lambda>_. Inr ''push'')\<rparr>"

lemma demo_headers:
  "Header_Get (rq_Header (demo_request ev)) ''X-Gitlab-Event'' = ev" "Header_Get (rq_Header (demo_request ev)) ''X-Gitlab-Token'' = ''t''"
proof -
  have valid: "list_all validHeaderFieldByte ''X-Gitlab-Event''" "list_all validHeaderFieldByte ''X-Gitlab-Token''"
    by (simp_all add: validHeaderFieldByte_def is_alnum_def is_alpha_def)
  have "canon_loop True ''X-Gitlab-Event'' = ''X-Gitlab-Event''" "canon_loop True ''X-Gitlab-Token'' = ''X-Gitlab-Token''"
    by (simp_all add: upper_char_def lower_char_def char_of_def bit_0)
  with valid show "Header_Get (rq_Header (demo_request ev)) ''X-Gitlab-Event'' = ev" "Header_Get (rq_Header (demo_request ev)) ''X-Gitlab-Token'' = ''t''"
    by (simp_all only: Header_Get_def CanonicalMIMEHeaderKey_def if_True) (simp_all add: demo_request_def)
qed

theorem unauthentic_not_refused_witness:
  "handle (demo_decoder [] None) ''other'' (\<lambda>_. None) (demo_request ''Push Hook'') \<lparr>ad_sent = []\<rparr> = (Panic, \<lparr>ad_sent = []\<rparr>)"
proof -
  have "\<nexists>body. authentic ''other'' (demo_request ''Push Hook'') body"
    by (simp add: authentic_def demo_headers)
  from unauthentic_not_refused [OF this, of "demo_decoder [] None" "\<lambda>_. None" "\<lparr>ad_sent = []\<rparr>"] show ?thesis
    by (simp add: demo_headers validEvents_def PushEvents_hook_def)
qed

text \<open>An authentic request for an event that is not one of the nine is answered with 404 and
  not forwarded; job events, which a source may subscribe to, are among them.\<close>

theorem unknown_event_not_found:
  assumes "authentic secret rq body" and "Header_Get (rq_Header rq) ''X-Gitlab-Event'' \<notin> set validEvents"
  shows "handle dec secret sink rq s = (Ok 404, s) \<and> JobEvents_hook \<notin> set validEvents \<and> SystemHookEvents \<notin> set validEvents"
  using handle_unknown [OF assms] by (simp add: validEvents_def event_names)

theorem unknown_event_not_found_witness:
  "handle (demo_decoder [] None) ''t'' (\<lambda>_. None) (demo_request JobEvents_hook) \<lparr>ad_sent = []\<rparr> = (Ok 404, \<lparr>ad_sent = []\<rparr>)"
proof -
  have "authentic ''t'' (demo_request JobEvents_hook) ''{}''"
    by (simp add: authentic_def demo_headers JobEvents_hook_def) (simp add: demo_request_def)
  moreover have "Header_Get (rq_Header (demo_request JobEvents_hook)) ''X-Gitlab-Event'' \<notin> set validEvents"
    by (simp only: demo_headers) (simp add: validEvents_def event_names)
  ultimately show ?thesis using unknown_event_not_found by blast
qed

text \<open>A JSON error does not stop an event: whatever URL the decoder filled in before it
  failed, if it parses the partial payload is sent and the request answered with 200.\<close>

theorem json_error_forwarded:
  assumes "authentic secret rq body" and "Header_Get (rq_Header rq) ''X-Gitlab-Event'' \<in> set validEvents"
    and "json_payload dec (event_type (Header_Get (rq_Header rq) ''X-Gitlab-Event'')) body = (url, Some e)"
    and "url \<noteq> []" and "url_Parse (web_address url) = Inr src" and "web_address url \<noteq> []"
  shows "handle dec secret sink rq s =
    (Ok 200, s\<lparr>ad_sent := ad_sent s @ [event_for rq (PValue (event_type (Header_Get (rq_Header rq) ''X-Gitlab-Event'')) url) src]\<rparr>)"
  using handle_valid [OF assms(1,2), of dec sink s] assms(3-6) by (simp add: Let_def ParseURLRef_def)

lemma demo_url: "url_Parse (web_address ''https://gitlab.com/a/b'') = Inr (plain_url ''https'' ''gitlab.com'' ''/a/b'')"
proof -
  have "url_Parse (''https'' @ ''://'' @ ''gitlab.com'' @ ''/a/b'') = Inr (plain_url ''https'' ''gitlab.com'' ''/a/b'')"
    by (rule url_Parse_plain)
      (simp_all add: web_scheme_def plain_authority_def plain_path_def plain_char_def is_alnum_def is_alpha_def is_digit_def rooted_def)
  then show ?thesis by (simp add: web_address_def HasPrefix_def)
qed

theorem json_error_forwarded_witness:
  "fst (handle (demo_decoder ''https://gitlab.com/a/b'' (Some (PlainError ''bad''))) ''t'' (\<lambda>_. None) (demo_request PushEvents_hook) \<lparr>ad_sent = []\<rparr>) = Ok 200"
proof -
  have "authentic ''t'' (demo_request PushEvents_hook) ''{}''"
    by (simp add: authentic_def demo_headers PushEvents_hook_def) (simp add: demo_request_def)
  moreover have "Header_Get (rq_Header (demo_request PushEvents_hook)) ''X-Gitlab-Event'' \<in> set validEvents"
    by (simp only: demo_headers) (simp add: validEvents_def)
  moreover have "json_payload (demo_decoder ''https://gitlab.com/a/b'' (Some (PlainError ''bad''))) T ''{}'' = (''https://gitlab.com/a/b'', Some (PlainError ''bad''))" for T
    by (simp add: demo_decoder_def)
  moreover have "web_address ''https://gitlab.com/a/b'' \<noteq> []" by (simp add: web_address_def HasPrefix_def)
  ultimately show ?thesis using json_error_forwarded [OF _ _ _ _ demo_url] by (metis fst_conv list.distinct(1))
qed

section \<open>SSH addresses\<close>

lemma map_absent: "c \<notin> set s \<Longrightarrow> map (\<lambda>x. if x = c then d else x) s = s"
  by (induction s) auto

lemma web_address_ssh:
  assumes "CHR ''@'' \<notin> set host" and "CHR ''@'' \<notin> set path" and "CHR '':'' \<notin> set host" and "CHR '':'' \<notin> set path"
  shows "web_address (''git@'' @ host @ '':'' @ path) = ''https://'' @ ReplaceAll (host @ ''/'' @ path) ''.git'' []"
proof -
  let ?x = "host @ ''/'' @ path"
  have colon: "ReplaceAll (''git@'' @ host @ '':'' @ path) '':'' ''/'' = ''git@'' @ ?x"
    using assms(3,4) by (simp add: ReplaceAll_byte map_absent)
  have "\<not> occurs ''git@'' ?x" by (rule not_occurs [of "CHR ''@''"]) (use assms(1,2) in auto)
  then have "ReplaceAll (''git@'' @ ?x) ''git@'' ''https://'' = ''https://'' @ ?x"
    by (subst ReplaceAll_hit) (simp_all add: ReplaceAll_none)
  moreover have "ReplaceAll (''https://'' @ ?x) ''.git'' [] = ''https://'' @ ReplaceAll ?x ''.git'' []"
    by (rule ReplaceAll_absent_append) simp
  moreover have "HasPrefix (''git@'' @ host @ '':'' @ path) ''git@''" by (rule HasPrefix_append)
  ultimately show ?thesis unfolding web_address_def colon by simp
qed

lemma git_suffix: "CHR ''.'' \<notin> set path \<Longrightarrow> ReplaceAll (path @ ''.git'') ''.git'' [] = path"
  using ReplaceAll_hit [of "''.git''" "[]" "[]"]
  by (subst ReplaceAll_absent_append) (simp_all add: ReplaceAll_Nil)

lemma plain_char_specials: "\<not> plain_char CHR ''@''" "\<not> plain_char CHR '':''"
  by (simp_all add: plain_char_def is_alnum_def is_alpha_def is_digit_def)

lemma plain_authority_host: "plain_authority a \<Longrightarrow> CHR '':'' \<notin> set a \<Longrightarrow> list_all plain_char a"
  by (auto simp: plain_authority_def IndexByte_None [THEN iffD2])

text \<open>An SSH clone address \<open>git@host:path.git\<close> becomes the web address of the project, with the
  host and the path as they are, if neither contains \<open>.git\<close> by itself (the path here has
  no dot).\<close>

theorem ssh_address_source:
  assumes "list_all plain_char host" and "plain_path path" and "CHR ''.'' \<notin> set path" and "\<not> occurs ''.git'' host"
  shows "sourceFromGitLabEvent PushEvents_hook (PValue PushEventPayload (''git@'' @ host @ '':'' @ path @ ''.git''))
    = Ok (plain_url ''https'' host (''/'' @ path))"
proof -
  have no: "CHR ''@'' \<notin> set host" "CHR '':'' \<notin> set host" "CHR ''@'' \<notin> set (path @ ''.git'')" "CHR '':'' \<notin> set (path @ ''.git'')"
    using assms(1,2) plain_char_specials by (auto simp: list_all_iff plain_path_def)
  have "ReplaceAll (host @ ''/'' @ path @ ''.git'') ''.git'' [] = host @ ''/'' @ path"
    using ReplaceAll_until [of "''.git''" "CHR ''/''" host "path @ ''.git''" "[]"] assms(4) git_suffix [OF assms(3)] by simp
  then have web: "web_address (''git@'' @ host @ '':'' @ path @ ''.git'') = ''https://'' @ host @ ''/'' @ path"
    using web_address_ssh [OF no(1,3,2,4)] by simp
  have "plain_authority host"
    using assms(1) no(2) by (simp add: plain_authority_def IndexByte_None [THEN iffD2])
  then have "url_Parse (''https'' @ ''://'' @ host @ ''/'' @ path) = Inr (plain_url ''https'' host (''/'' @ path))"
    using assms(2) by (intro url_Parse_plain) (simp_all add: web_scheme_def plain_path_def rooted_def)
  then show ?thesis
    unfolding sourceFromGitLabEvent_def event_url_def assertType_def
    by (simp add: ParseURLRef_def web [simplified])
qed

theorem ssh_address_source_witness:
  "sourceFromGitLabEvent PushEvents_hook (PValue PushEventPayload ''git@gitlab.com:a/b.git'') = Ok (plain_url ''https'' ''gitlab.com'' ''/a/b'')"
proof -
  have "list_all plain_char ''gitlab.com''" "plain_path ''a/b''"
    by (simp_all add: plain_path_def plain_char_def is_alnum_def is_alpha_def is_digit_def)
  moreover have "\<not> occurs ''.git'' ''gitlab.com''"
    by (auto simp: occurs_def Cons_eq_append_conv)
  ultimately show ?thesis using ssh_address_source [of "''gitlab.com''" "''a/b''"] by simp
qed

text \<open>Removing \<open>.git\<close> everywhere, not at the end, damages the host: for a host
  \<open>x.git...\<close> (such as \<open>code.gitlab.com\<close>) the event is attributed to another host, the one
  without those four characters.\<close>

theorem ssh_host_damaged:
  assumes "list_all plain_char (p @ q)" and "CHR ''.'' \<notin> set p" and "plain_path path" and "CHR ''.'' \<notin> set path"
    and "\<not> occurs ''.git'' q"
  shows "sourceFromGitLabEvent PushEvents_hook (PValue PushEventPayload (''git@'' @ (p @ ''.git'' @ q) @ '':'' @ path @ ''.git''))
    = Ok (plain_url ''https'' (p @ q) (''/'' @ path))"
proof -
  let ?host = "p @ ''.git'' @ q"
  have no: "CHR ''@'' \<notin> set ?host" "CHR '':'' \<notin> set ?host" "CHR ''@'' \<notin> set (path @ ''.git'')" "CHR '':'' \<notin> set (path @ ''.git'')"
    using assms(1,3) plain_char_specials by (auto simp: list_all_iff plain_path_def)
  have "ReplaceAll (p @ (''.git'' @ q @ ''/'' @ path @ ''.git'')) ''.git'' [] = p @ ReplaceAll (''.git'' @ q @ ''/'' @ path @ ''.git'') ''.git'' []"
    by (rule ReplaceAll_absent_append) (use assms(2) in simp)
  also have "ReplaceAll (''.git'' @ q @ ''/'' @ path @ ''.git'') ''.git'' [] = ReplaceAll (q @ ''/'' @ path @ ''.git'') ''.git'' []"
    by (subst ReplaceAll_hit) simp_all
  also have "\<dots> = q @ ''/'' @ path"
    using ReplaceAll_until [of "''.git''" "CHR ''/''" q "path @ ''.git''" "[]"] assms(5) git_suffix [OF assms(4)] by simp
  finally have web: "web_address (''git@'' @ ?host @ '':'' @ path @ ''.git'') = ''https://'' @ (p @ q) @ ''/'' @ path"
    using web_address_ssh [OF no(1,3,2,4)] by simp
  have "CHR '':'' \<notin> set (p @ q)" using no(2) by auto
  then have "plain_authority (p @ q)"
    using assms(1) by (simp add: plain_authority_def IndexByte_None [THEN iffD2])
  then have "url_Parse (''https'' @ ''://'' @ (p @ q) @ ''/'' @ path) = Inr (plain_url ''https'' (p @ q) (''/'' @ path))"
    using assms(3) by (intro url_Parse_plain) (simp_all add: web_scheme_def plain_path_def rooted_def)
  then show ?thesis
    unfolding sourceFromGitLabEvent_def event_url_def assertType_def
    by (simp add: ParseURLRef_def web [simplified])
qed

theorem ssh_host_damaged_witness:
  "sourceFromGitLabEvent PushEvents_hook (PValue PushEventPayload ''git@code.gitlab.com:a/b.git'') = Ok (plain_url ''https'' ''codelab.com'' ''/a/b'')"
proof -
  have "list_all plain_char (''code'' @ ''lab.com'')" "plain_path ''a/b''"
    by (simp_all add: plain_path_def plain_char_def is_alnum_def is_alpha_def is_digit_def)
  moreover have "\<not> occurs ''.git'' ''lab.com''"
    by (auto simp: occurs_def Cons_eq_append_conv)
  ultimately show ?thesis using ssh_host_damaged [of "''code''" "''lab.com''" "''a/b''"] by simp
qed

end
