(* ===== verification/RestClient.thy ===== *)
theory RestClient
  imports KubeObjects
begin

text \<open>
  The request builder of client-go (\<open>k8s.io/client-go/rest/request.go\<close>) with
  \<open>path.Join\<close> underneath: the parts of a request are set one by one, the first error is
  kept, and the path of the URL is put together at the end.
\<close>

section \<open>path.Join\<close>

text \<open>
  One step of \<open>path.Clean\<close> on the next element of a path, over the elements kept so far,
  the last one first.
\<close>

definition clean_step :: "bool \<Rightarrow> string list \<Rightarrow> string \<Rightarrow> string list" where
  "clean_step rooted kept e =
     (if e = [] \<or> e = ''.'' then kept
      else if e = ''..'' then
        (case kept of
           k # ks \<Rightarrow> if k \<noteq> ''..'' then ks else if rooted then kept else e # kept
         | [] \<Rightarrow> if rooted then kept else e # kept)
      else e # kept)"

fun join_slash :: "string list \<Rightarrow> string" where
  "join_slash [] = []"
| "join_slash [e] = e"
| "join_slash (e # es) = e @ CHR ''/'' # join_slash es"

definition Clean :: "string \<Rightarrow> string" where
  "Clean p =
     (if p = [] then ''.''
      else let rooted = (hd p = CHR ''/'');
               kept = rev (foldl (clean_step rooted) [] (SplitByte p CHR ''/''));
               out = (if rooted then ''/'' else []) @ join_slash kept
           in if out = [] then ''.'' else out)"

fun path_Join :: "string list \<Rightarrow> string" where
  "path_Join [] = []"
| "path_Join (e # es) = (if e \<noteq> [] then Clean (join_slash (e # es)) else path_Join es)"

section \<open>Requests\<close>

definition IsValidPathSegmentName :: "string \<Rightarrow> string list" where
  "IsValidPathSegmentName name =
     (if name = ''.'' then [''may not be '' @ [CHR 0x27] @ ''.'' @ [CHR 0x27]]
      else if name = ''..'' then [''may not be '' @ [CHR 0x27] @ ''..'' @ [CHR 0x27]]
      else (if CHR ''/'' \<in> set name then [''may not contain '' @ [CHR 0x27] @ ''/'' @ [CHR 0x27]] else [])
           @ (if CHR ''%'' \<in> set name then [''may not contain '' @ [CHR 0x27] @ ''%'' @ [CHR 0x27]] else []))"

text \<open>A list of messages under the verb \<open>%v\<close>\<close>

definition show_list :: "string list \<Rightarrow> string" where
  "show_list msgs = ''['' @ concat (map (\<lambda>(i, m). if i = 0 then m else CHR '' '' # m) (enumerate 0 msgs)) @ '']''"

record ('p, 'b) rest_request =
  rr_verb :: string
  rr_contentType :: string
  rr_pathPrefix :: string
  rr_namespace :: string
  rr_namespaceSet :: bool
  rr_resource :: string
  rr_resourceName :: string
  rr_subresource :: string
  rr_params :: "'p list"
  rr_body :: "'b option"
  rr_err :: "go_error option"

text \<open>\<open>NewRequest\<close> for a base URL with the given path\<close>

definition NewRequest :: "string \<Rightarrow> string \<Rightarrow> string \<Rightarrow> ('p, 'b) rest_request" where
  "NewRequest verb basePath versionedAPIPath =
     \<lparr>rr_verb = verb, rr_contentType = [], rr_pathPrefix = path_Join [path_Join [''/'', basePath], versionedAPIPath],
      rr_namespace = [], rr_namespaceSet = False, rr_resource = [], rr_resourceName = [], rr_subresource = [],
      rr_params = [], rr_body = None, rr_err = None\<rparr>"

definition rr_fail :: "string \<Rightarrow> ('p, 'b) rest_request \<Rightarrow> ('p, 'b) rest_request" where
  "rr_fail msg r = r\<lparr>rr_err := Some (PlainError msg)\<rparr>"

definition invalid_text :: "string \<Rightarrow> string \<Rightarrow> string \<Rightarrow> string" where
  "invalid_text what v msg = ''invalid '' @ what @ '' '' @ quote v @ '': '' @ msg"

definition Namespace :: "string \<Rightarrow> ('p, 'b) rest_request \<Rightarrow> ('p, 'b) rest_request" where
  "Namespace namespace r =
     (if rr_err r \<noteq> None then r
      else if rr_namespaceSet r
      then rr_fail (''namespace already set to '' @ quote (rr_namespace r) @ '', cannot change to '' @ quote namespace) r
      else if IsValidPathSegmentName namespace \<noteq> []
      then rr_fail (invalid_text ''namespace'' namespace (show_list (IsValidPathSegmentName namespace))) r
      else r\<lparr>rr_namespaceSet := True, rr_namespace := namespace\<rparr>)"

definition Resource :: "string \<Rightarrow> ('p, 'b) rest_request \<Rightarrow> ('p, 'b) rest_request" where
  "Resource res r =
     (if rr_err r \<noteq> None then r
      else if rr_resource r \<noteq> []
      then rr_fail (''resource already set to '' @ quote (rr_resource r) @ '', cannot change to '' @ quote res) r
      else if IsValidPathSegmentName res \<noteq> []
      then rr_fail (invalid_text ''resource'' res (show_list (IsValidPathSegmentName res))) r
      else r\<lparr>rr_resource := res\<rparr>)"

definition Name :: "string \<Rightarrow> ('p, 'b) rest_request \<Rightarrow> ('p, 'b) rest_request" where
  "Name resourceName r =
     (if rr_err r \<noteq> None then r
      else if resourceName = [] then rr_fail ''resource name may not be empty'' r
      else if rr_resourceName r \<noteq> []
      then rr_fail (''resource name already set to '' @ quote (rr_resourceName r) @ '', cannot change to '' @ quote resourceName) r
      else if IsValidPathSegmentName resourceName \<noteq> []
      then rr_fail (invalid_text ''resource name'' resourceName (show_list (IsValidPathSegmentName resourceName))) r
      else r\<lparr>rr_resourceName := resourceName\<rparr>)"

definition SubResource :: "string list \<Rightarrow> ('p, 'b) rest_request \<Rightarrow> ('p, 'b) rest_request" where
  "SubResource subresources r =
     (if rr_err r \<noteq> None then r
      else let subresource = path_Join subresources in
        if rr_subresource r \<noteq> []
        then rr_fail (''subresource already set to '' @ quote (rr_resource r) @ '', cannot change to '' @ quote subresource) r
        else case find (\<lambda>s. IsValidPathSegmentName s \<noteq> []) subresources of
            Some s \<Rightarrow> rr_fail (invalid_text ''subresource'' s (show_list (IsValidPathSegmentName s))) r
          | None \<Rightarrow> r\<lparr>rr_subresource := subresource\<rparr>)"

text \<open>\<open>VersionedParams\<close> keeps the options; how the codec writes them into the query is left open.\<close>

definition VersionedParams :: "'p \<Rightarrow> ('p, 'b) rest_request \<Rightarrow> ('p, 'b) rest_request" where
  "VersionedParams opts r = (if rr_err r \<noteq> None then r else r\<lparr>rr_params := rr_params r @ [opts]\<rparr>)"

text \<open>\<open>Body\<close> of a runtime object or bytes; a nil pointer leaves the request without one.\<close>

definition Body :: "'b option \<Rightarrow> ('p, 'b) rest_request \<Rightarrow> ('p, 'b) rest_request" where
  "Body obj r =
     (if rr_err r \<noteq> None then r else case obj of None \<Rightarrow> r | Some b \<Rightarrow> r\<lparr>rr_body := Some b\<rparr>)"

text \<open>The path of \<open>Request.URL\<close>\<close>

definition rest_path :: "('p, 'b) rest_request \<Rightarrow> string" where
  "rest_path r =
     (let p0 = rr_pathPrefix r;
          p1 = (if rr_namespaceSet r \<and> 0 < length (rr_namespace r) then path_Join [p0, ''namespaces'', rr_namespace r] else p0);
          p2 = (if length (rr_resource r) \<noteq> 0 then path_Join [p1, ToLower (rr_resource r)] else p1)
      in if length (rr_resourceName r) \<noteq> 0 \<or> length (rr_subresource r) \<noteq> 0
         then path_Join [p2, rr_resourceName r, rr_subresource r, []] else p2)"

text \<open>
  The checks of \<open>Request.request\<close> before anything is sent: an error, or the verb, the path,
  the options and the body that go out.
\<close>

definition rest_send :: "('p, 'b) rest_request \<Rightarrow> go_error + string \<times> string \<times> 'p list \<times> 'b option" where
  "rest_send r =
     (case rr_err r of
        Some e \<Rightarrow> Inl e
      | None \<Rightarrow>
          if rr_verb r \<in> set [''GET'', ''PUT'', ''DELETE''] \<and> rr_namespaceSet r \<and> 0 < length (rr_resourceName r) \<and> length (rr_namespace r) = 0
          then Inl (PlainError ''an empty namespace may not be set when a resource name is provided'')
          else if rr_verb r = ''POST'' \<and> rr_namespaceSet r \<and> length (rr_namespace r) = 0
          then Inl (PlainError ''an empty namespace may not be set during creation'')
          else Inr (rr_verb r, rest_path r, rr_params r, rr_body r))"

section \<open>Joining plain segments\<close>

text \<open>A path made of segments that \<open>path.Clean\<close> keeps.\<close>

definition plain_segment :: "string \<Rightarrow> bool" where
  "plain_segment e \<longleftrightarrow> e \<noteq> [] \<and> e \<noteq> ''.'' \<and> e \<noteq> ''..'' \<and> CHR ''/'' \<notin> set e"

lemma plain_segmentD: "plain_segment e \<Longrightarrow> e \<noteq> [] \<and> CHR ''/'' \<notin> set e"
  by (simp add: plain_segment_def)

definition path_of :: "string list \<Rightarrow> string" where
  "path_of es = concat (map (\<lambda>e. CHR ''/'' # e) es)"

lemma SplitByte_path_of:
  "list_all plain_segment es \<Longrightarrow> SplitByte (path_of es) CHR ''/'' = [] # es"
proof (induction es)
  case Nil
  show ?case by (simp add: path_of_def SplitByte_none)
next
  case (Cons e es)
  have rest: "SplitByte (path_of es) CHR ''/'' = [] # es" using Cons by simp
  have "SplitByte (e @ path_of es) CHR ''/'' = e # es"
  proof (cases es)
    case Nil
    then show ?thesis using Cons.prems by (simp add: path_of_def SplitByte_none plain_segment_def)
  next
    case (Cons f fs)
    then have p: "path_of es = CHR ''/'' # f @ path_of fs" by (simp add: path_of_def)
    have "SplitByte (f @ path_of fs) CHR ''/'' = es"
      using rest SplitByte_append [of "CHR ''/''" "[]" "f @ path_of fs"] by (simp add: p)
    then show ?thesis
      using SplitByte_append [of "CHR ''/''" e "f @ path_of fs"] \<open>list_all plain_segment (e # es)\<close>
      by (simp add: p plain_segment_def)
  qed
  then show ?case
    using SplitByte_append [of "CHR ''/''" "[]" "e @ path_of es"] by (simp add: path_of_def)
qed

lemma path_of_inj:
  "list_all plain_segment es \<Longrightarrow> list_all plain_segment fs \<Longrightarrow> path_of es = path_of fs \<Longrightarrow> es = fs"
  by (metis SplitByte_path_of list.inject)

lemma clean_plain:
  "list_all (\<lambda>e. e = [] \<or> plain_segment e) es \<Longrightarrow>
   foldl (clean_step rooted) kept es = rev (filter (\<lambda>e. e \<noteq> []) es) @ kept"
  by (induction es arbitrary: kept) (auto simp: clean_step_def plain_segment_def)

lemma join_slash_path_of: "es \<noteq> [] \<Longrightarrow> CHR ''/'' # join_slash es = path_of es"
  by (induction es rule: join_slash.induct) (auto simp: path_of_def)

lemma Clean_path_of:
  assumes "list_all (\<lambda>e. e = [] \<or> plain_segment e) es" and "filter (\<lambda>e. e \<noteq> []) es \<noteq> []"
    and "SplitByte p CHR ''/'' = [] # es" and "p \<noteq> []" and "hd p = CHR ''/''"
  shows "Clean p = path_of (filter (\<lambda>e. e \<noteq> []) es)"
  using assms clean_plain [of "[] # es" True "[]"] join_slash_path_of [OF assms(2)]
  by (simp add: Clean_def Let_def)

lemma SplitByte_join:
  assumes "es \<noteq> []" and "\<And>e. e \<in> set es \<Longrightarrow> CHR ''/'' \<notin> set e"
  shows "SplitByte (join_slash es) CHR ''/'' = es"
  using assms
proof (induction es rule: join_slash.induct)
  case (3 e f es)
  then show ?case using SplitByte_append [of "CHR ''/''" e "join_slash (f # es)"] by simp
qed (simp_all add: SplitByte_none)

lemma SplitByte_app:
  "SplitByte (p @ CHR ''/'' # q) CHR ''/'' = SplitByte p CHR ''/'' @ SplitByte q CHR ''/''"
  by (induction p) (auto split: list.splits)

lemma path_Join_plain:
  assumes "list_all plain_segment es" and "es \<noteq> []" and "fs \<noteq> []" and "list_all (\<lambda>e. e = [] \<or> plain_segment e) fs"
  shows "path_Join (path_of es # fs) = path_of (es @ filter (\<lambda>e. e \<noteq> []) fs)"
proof -
  let ?p = "path_of es @ CHR ''/'' # join_slash fs"
  have join: "join_slash (path_of es # fs) = ?p" using assms(3) by (cases fs) simp_all
  obtain g gs where g: "es = g # gs" using assms(2) by (cases es) simp_all
  have ne: "path_of es \<noteq> []" "hd (path_of es) = CHR ''/''" by (simp_all add: g path_of_def)
  have "SplitByte (join_slash fs) CHR ''/'' = fs"
    using assms(3,4) by (intro SplitByte_join) (fastforce simp: list_all_iff dest: plain_segmentD)+
  then have split: "SplitByte ?p CHR ''/'' = [] # es @ fs"
    using SplitByte_path_of [OF assms(1)] by (simp add: SplitByte_app)
  have es: "filter (\<lambda>e. e \<noteq> []) es = es"
    using assms(1) plain_segmentD by (simp only: filter_id_conv list_all_iff) blast
  have "Clean ?p = path_of (filter (\<lambda>e. e \<noteq> []) (es @ fs))"
  proof (rule Clean_path_of [OF _ _ split])
    show "list_all (\<lambda>e. e = [] \<or> plain_segment e) (es @ fs)" using assms(1,4) by (auto simp: list_all_iff)
    show "filter (\<lambda>e. e \<noteq> []) (es @ fs) \<noteq> []" using es assms(2) by simp
    show "?p \<noteq> []" "hd ?p = CHR ''/''" using ne by simp_all
  qed
  then show ?thesis using join ne es by simp
qed

lemma valid_segment: "IsValidPathSegmentName n = [] \<Longrightarrow> n \<noteq> [] \<Longrightarrow> plain_segment n"
  by (auto simp: IsValidPathSegmentName_def plain_segment_def split: if_splits)

end
