(* ===== verification/TypedClient.thy ===== *)
theory TypedClient
  imports RestClient SourceTypes
begin

text \<open>
  The generated client of GitLabSources
  (\<open>pkg/client/clientset/versioned/typed/sources/v1alpha1\<close>): each operation as the
  request it builds on the REST client for the group's API path.
\<close>

section \<open>Options and bodies\<close>

record ListOptions =
  lo_LabelSelector :: string
  lo_FieldSelector :: string
  lo_IncludeUninitialized :: bool
  lo_Watch :: bool
  lo_ResourceVersion :: string
  lo_TimeoutSeconds :: "int option"
  lo_Limit :: int
  lo_Continue :: string

record GetOptions =
  go_ResourceVersion :: string
  go_IncludeUninitialized :: bool

record DeleteOptions =
  do_GracePeriodSeconds :: "int option"
  do_Preconditions :: "string option"
  do_OrphanDependents :: "bool option"
  do_PropagationPolicy :: "string option"
  do_DryRun :: "string list"

datatype options = OptGet GetOptions | OptList ListOptions
datatype body = BodySource GitLabSource | BodyDelete DeleteOptions | BodyBytes string

type_synonym source_request = "(options, body) rest_request"

section \<open>The client\<close>

record rest_config =
  cfg_basePath :: string
  cfg_GroupVersion :: "GroupVersion option"
  cfg_APIPath :: string
  cfg_UserAgent :: string

definition setConfigDefaults :: "string \<Rightarrow> 'a rest_config_scheme \<Rightarrow> 'a rest_config_scheme" where
  "setConfigDefaults DefaultKubernetesUserAgent config =
     (let c = config\<lparr>cfg_GroupVersion := Some SchemeGroupVersion, cfg_APIPath := ''/apis''\<rparr>
      in if cfg_UserAgent c = [] then c\<lparr>cfg_UserAgent := DefaultKubernetesUserAgent\<rparr> else c)"

definition DefaultVersionedAPIPath :: "string \<Rightarrow> GroupVersion \<Rightarrow> string" where
  "DefaultVersionedAPIPath apiPath gv =
     (let versionedAPIPath = path_Join [''/'', apiPath]
      in if 0 < length (gv_Group gv) then path_Join [versionedAPIPath, gv_Group gv, gv_Version gv]
         else path_Join [versionedAPIPath, gv_Version gv])"

text \<open>The REST client of a configuration: the path of its base URL and its API path.\<close>

record rest_client =
  rc_basePath :: string
  rc_versionedAPIPath :: string

definition NewForConfig :: "string \<Rightarrow> rest_config \<Rightarrow> rest_client" where
  "NewForConfig userAgent c =
     (let config = setConfigDefaults userAgent c;
          gv = (case cfg_GroupVersion config of Some gv \<Rightarrow> gv | None \<Rightarrow> \<lparr>gv_Group = [], gv_Version = []\<rparr>)
      in \<lparr>rc_basePath = cfg_basePath config, rc_versionedAPIPath = DefaultVersionedAPIPath (cfg_APIPath config) gv\<rparr>)"

definition Verb :: "rest_client \<Rightarrow> string \<Rightarrow> source_request" where
  "Verb c verb = NewRequest verb (rc_basePath c) (rc_versionedAPIPath c)"

record gitLabSources =
  gls_client :: rest_client
  gls_ns :: string

definition newGitLabSources :: "rest_client \<Rightarrow> string \<Rightarrow> gitLabSources" where
  "newGitLabSources c namespace = \<lparr>gls_client = c, gls_ns = namespace\<rparr>"

section \<open>The operations\<close>

definition client_Get :: "gitLabSources \<Rightarrow> string \<Rightarrow> GetOptions \<Rightarrow> source_request" where
  "client_Get c name opts =
     VersionedParams (OptGet opts) (Name name (Resource ''gitlabsources'' (Namespace (gls_ns c) (Verb (gls_client c) ''GET''))))"

definition client_List :: "gitLabSources \<Rightarrow> ListOptions \<Rightarrow> source_request" where
  "client_List c opts =
     VersionedParams (OptList opts) (Resource ''gitlabsources'' (Namespace (gls_ns c) (Verb (gls_client c) ''GET'')))"

definition client_Watch :: "gitLabSources \<Rightarrow> ListOptions \<Rightarrow> source_request" where
  "client_Watch c opts =
     (let opts = opts\<lparr>lo_Watch := True\<rparr>
      in VersionedParams (OptList opts) (Resource ''gitlabsources'' (Namespace (gls_ns c) (Verb (gls_client c) ''GET''))))"

definition client_Create :: "gitLabSources \<Rightarrow> GitLabSource \<Rightarrow> source_request" where
  "client_Create c src =
     Body (Some (BodySource src)) (Resource ''gitlabsources'' (Namespace (gls_ns c) (Verb (gls_client c) ''POST'')))"

definition client_Update :: "gitLabSources \<Rightarrow> GitLabSource \<Rightarrow> source_request" where
  "client_Update c src =
     Body (Some (BodySource src)) (Name (om_Name (gs_meta src))
       (Resource ''gitlabsources'' (Namespace (gls_ns c) (Verb (gls_client c) ''PUT''))))"

definition client_UpdateStatus :: "gitLabSources \<Rightarrow> GitLabSource \<Rightarrow> source_request" where
  "client_UpdateStatus c src =
     Body (Some (BodySource src)) (SubResource [''status''] (Name (om_Name (gs_meta src))
       (Resource ''gitlabsources'' (Namespace (gls_ns c) (Verb (gls_client c) ''PUT'')))))"

definition client_Delete :: "gitLabSources \<Rightarrow> string \<Rightarrow> DeleteOptions option \<Rightarrow> source_request" where
  "client_Delete c name opts =
     Body (map_option BodyDelete opts) (Name name
       (Resource ''gitlabsources'' (Namespace (gls_ns c) (Verb (gls_client c) ''DELETE''))))"

definition client_DeleteCollection :: "gitLabSources \<Rightarrow> DeleteOptions option \<Rightarrow> ListOptions \<Rightarrow> source_request" where
  "client_DeleteCollection c opts lopts =
     Body (map_option BodyDelete opts) (VersionedParams (OptList lopts)
       (Resource ''gitlabsources'' (Namespace (gls_ns c) (Verb (gls_client c) ''DELETE''))))"

definition client_Patch :: "gitLabSources \<Rightarrow> string \<Rightarrow> string \<Rightarrow> string \<Rightarrow> string list \<Rightarrow> source_request" where
  "client_Patch c name pt data subresources =
     Body (Some (BodyBytes data)) (Name name (SubResource subresources
       (Resource ''gitlabsources'' (Namespace (gls_ns c) ((Verb (gls_client c) ''PATCH'')\<lparr>rr_contentType := pt\<rparr>)))))"

section \<open>Paths\<close>

text \<open>The base path of a server given by plain segments.\<close>

definition api_segments :: "string list \<Rightarrow> string list" where
  "api_segments base = base @ [''apis'', ''sources.eventing.knative.dev'', ''v1alpha1'']"

lemma api_path: "rc_versionedAPIPath (NewForConfig ua cfg) = path_of [''apis'', ''sources.eventing.knative.dev'', ''v1alpha1'']"
proof -
  have s: "Clean ''///apis'' = ''/apis''" 
    by (simp add: Clean_def Let_def clean_step_def)
  have "path_Join [path_of [''apis''], ''sources.eventing.knative.dev'', ''v1alpha1''] = path_of ([''apis''] @ filter (\<lambda>e. e \<noteq> []) [''sources.eventing.knative.dev'', ''v1alpha1''])"
    by (rule path_Join_plain) (simp_all add: plain_segment_def)
  then show ?thesis
    using s by (simp add: NewForConfig_def setConfigDefaults_def Let_def DefaultVersionedAPIPath_def SchemeGroupVersion_def path_of_def)
qed

lemma api_segments_plain: "list_all plain_segment base \<Longrightarrow> list_all plain_segment (api_segments base)"
  by (simp add: api_segments_def plain_segment_def)

lemma path_of_append: "path_of (es @ fs) = path_of es @ path_of fs"
  by (simp add: path_of_def)

lemma prefix_path:
  assumes "list_all plain_segment base" and "list_all plain_segment api" and "api \<noteq> []"
  shows "path_Join [path_Join [''/'', path_of base], path_of api] = path_of (base @ api)"
proof -
  obtain a as where a: "api = a # as" using assms(3) by (cases api) simp_all
  have slash: "SplitByte (''/'' @ CHR ''/'' # q) CHR ''/'' = [] # [] # SplitByte q CHR ''/''" for q by simp
  have ne: "filter (\<lambda>e. e \<noteq> []) es = es" if "list_all plain_segment es" for es
    using that plain_segmentD by (simp only: filter_id_conv list_all_iff) blast
  have wide: "list_all (\<lambda>e. e = [] \<or> plain_segment e) es" if "list_all plain_segment es" for es
    using that by (auto simp: list_all_iff)
  show ?thesis
  proof (cases base)
    case Nil
    have "path_Join [''/'', []] = ''/''" by (simp add: Clean_def Let_def clean_step_def)
    moreover have "Clean (''/'' @ CHR ''/'' # path_of api) = path_of (filter (\<lambda>e. e \<noteq> []) ([] # [] # api))"
      by (rule Clean_path_of) (use assms a slash [of "path_of api"] SplitByte_path_of [OF assms(2)] ne [OF assms(2)] wide [OF assms(2)] in simp_all)
    ultimately show ?thesis using Nil ne [OF assms(2)] by (simp add: path_of_def)
  next
    case (Cons b bs)
    have "Clean (''/'' @ CHR ''/'' # path_of base) = path_of (filter (\<lambda>e. e \<noteq> []) ([] # [] # base))"
      by (rule Clean_path_of) (use assms Cons slash [of "path_of base"] SplitByte_path_of [OF assms(1)] ne [OF assms(1)] wide [OF assms(1)] in simp_all)
    then have inner: "path_Join [''/'', path_of base] = path_of base" using ne [OF assms(1)] by simp
    have hd: "path_of base \<noteq> []" "hd (path_of base) = CHR ''/''" by (simp_all add: Cons path_of_def)
    have all: "list_all (\<lambda>e. e = [] \<or> plain_segment e) (base @ [] # api)"
      using wide [OF assms(1)] wide [OF assms(2)] by simp
    have flt: "filter (\<lambda>e. e \<noteq> []) (base @ [] # api) = base @ api" using ne [OF assms(1)] ne [OF assms(2)] by simp
    have sp: "SplitByte (path_of base @ CHR ''/'' # path_of api) CHR ''/'' = [] # base @ [] # api"
      using SplitByte_path_of [OF assms(1)] SplitByte_path_of [OF assms(2)] by (simp add: SplitByte_app)
    have "Clean (path_of base @ CHR ''/'' # path_of api) = path_of (filter (\<lambda>e. e \<noteq> []) (base @ [] # api))"
      by (rule Clean_path_of [OF all _ sp]) (use flt Cons hd in simp_all)
    then show ?thesis using inner flt hd by simp
  qed
qed

lemma Verb_prefix:
  assumes "list_all plain_segment base" and "cfg_basePath cfg = path_of base"
  shows "rr_pathPrefix (Verb (NewForConfig ua cfg) verb) = path_of (api_segments base)"
proof -
  have base: "rc_basePath (NewForConfig ua cfg) = path_of base"
    using assms(2) by (simp add: NewForConfig_def setConfigDefaults_def Let_def)
  have api: "list_all plain_segment [''apis'', ''sources.eventing.knative.dev'', ''v1alpha1'']" by (simp add: plain_segment_def)
  show ?thesis
    using prefix_path [OF assms(1) api] unfolding Verb_def NewRequest_def base api_path api_segments_def by simp
qed

lemma segments:
  "plain_segment ''namespaces''" "plain_segment ''gitlabsources''" "plain_segment ''status''"
  "ToLower ''gitlabsources'' = ''gitlabsources''" "IsValidPathSegmentName ''gitlabsources'' = []" "IsValidPathSegmentName ''status'' = []"
  by (simp_all add: plain_segment_def ToLower_def lower_char_def IsValidPathSegmentName_def)

text \<open>The path of a request with the given parts.\<close>

lemma rest_path_parts:
  assumes "list_all plain_segment pre" and "pre \<noteq> []" and "rr_pathPrefix q = path_of pre"
    and "rr_namespaceSet q" and "plain_segment (rr_namespace q)" and "rr_resource q = ''gitlabsources''"
    and "plain_segment (rr_resourceName q)" and "rr_subresource q = [] \<or> plain_segment (rr_subresource q)"
  shows "rest_path q = path_of (pre @ [''namespaces'', rr_namespace q, ''gitlabsources'', rr_resourceName q]
           @ filter (\<lambda>e. e \<noteq> []) [rr_subresource q])"
proof -
  let ?ns = "rr_namespace q" and ?n = "rr_resourceName q" and ?sub = "rr_subresource q"
  have ne: "?ns \<noteq> []" "?n \<noteq> []" using assms(5,7) plain_segmentD by blast+
  have ns: "path_Join (path_of pre # [''namespaces'', ?ns]) = path_of (pre @ filter (\<lambda>e. e \<noteq> []) [''namespaces'', ?ns])"
    using assms(5) segments(1) by (intro path_Join_plain [OF assms(1,2)]) simp_all
  have res: "path_Join (path_of (pre @ [''namespaces'', ?ns]) # [''gitlabsources'']) = path_of ((pre @ [''namespaces'', ?ns]) @ filter (\<lambda>e. e \<noteq> []) [''gitlabsources''])"
    using assms(1,5) segments(1,2) by (intro path_Join_plain) simp_all
  have nm: "path_Join (path_of (pre @ [''namespaces'', ?ns, ''gitlabsources'']) # [?n, ?sub, []])
      = path_of ((pre @ [''namespaces'', ?ns, ''gitlabsources'']) @ filter (\<lambda>e. e \<noteq> []) [?n, ?sub, []])"
    using assms(1,5,7,8) segments(1,2) by (intro path_Join_plain) simp_all
  show ?thesis
    unfolding rest_path_def Let_def assms(3) assms(6) segments(4) using assms(4) ne ns res nm
    by (simp del: path_Join.simps)
qed

lemma Verb_fields [simp]:
  "rr_err (Verb cl v) = None" "rr_namespaceSet (Verb cl v) = False" "rr_resource (Verb cl v) = []" "rr_resourceName (Verb cl v) = []"
  "rr_subresource (Verb cl v) = []" "rr_params (Verb cl v) = []" "rr_body (Verb cl v) = None" "rr_verb (Verb cl v) = v"
  by (simp_all add: Verb_def NewRequest_def)

lemma status_path: "path_Join [''status''] = ''status''"
  by (simp add: Clean_def Let_def clean_step_def)

lemma written_requests:
  assumes "IsValidPathSegmentName ns = []" and "IsValidPathSegmentName (om_Name (gs_meta src)) = []" and "om_Name (gs_meta src) \<noteq> []"
  shows "client_Update (newGitLabSources cl ns) src = (Verb cl ''PUT'')\<lparr>rr_namespaceSet := True, rr_namespace := ns,
            rr_resource := ''gitlabsources'', rr_resourceName := om_Name (gs_meta src), rr_body := Some (BodySource src)\<rparr>"
    and "client_UpdateStatus (newGitLabSources cl ns) src = (Verb cl ''PUT'')\<lparr>rr_namespaceSet := True, rr_namespace := ns,
            rr_resource := ''gitlabsources'', rr_resourceName := om_Name (gs_meta src), rr_subresource := ''status'', rr_body := Some (BodySource src)\<rparr>"
  using assms segments(5,6) status_path
  by (simp_all add: client_Update_def client_UpdateStatus_def newGitLabSources_def Namespace_def Resource_def Name_def SubResource_def
      Body_def Let_def del: path_Join.simps)

text \<open>C37: where the writes of a source go.  With a namespace and a name that are valid path
  segments, \<open>Update\<close> and \<open>UpdateStatus\<close> are PUTs of the object to its path under the
  group's API path, \<open>UpdateStatus\<close> to the \<open>status\<close> below it; the path tells namespace and
  name, so no write of one source reaches another.\<close>

theorem write_paths:
  assumes "list_all plain_segment base" and "cfg_basePath cfg = path_of base"
    and "IsValidPathSegmentName ns = []" and "ns \<noteq> []"
    and "IsValidPathSegmentName (om_Name (gs_meta src)) = []" and "om_Name (gs_meta src) \<noteq> []"
  shows "(let c = newGitLabSources (NewForConfig ua cfg) ns;
              path = api_segments base @ [''namespaces'', ns, ''gitlabsources'', om_Name (gs_meta src)]
          in rest_send (client_Update c src) = Inr (''PUT'', path_of path, [], Some (BodySource src))
             \<and> rest_send (client_UpdateStatus c src) = Inr (''PUT'', path_of (path @ [''status'']), [], Some (BodySource src))
             \<and> (\<forall>ns' n'. plain_segment ns' \<longrightarrow> plain_segment n' \<longrightarrow>
                  path_of path = path_of (api_segments base @ [''namespaces'', ns', ''gitlabsources'', n']) \<longrightarrow> ns = ns' \<and> om_Name (gs_meta src) = n'))"
proof -
  let ?cl = "NewForConfig ua cfg" and ?n = "om_Name (gs_meta src)"
  have pre: "rr_pathPrefix (Verb ?cl ''PUT'') = path_of (api_segments base)" by (rule Verb_prefix [OF assms(1,2)])
  have api: "list_all plain_segment (api_segments base)" "api_segments base \<noteq> []"
    using api_segments_plain [OF assms(1)] by (simp_all add: api_segments_def)
  have pl: "plain_segment ns" "plain_segment ?n" by (rule valid_segment [OF assms(3,4)]) (rule valid_segment [OF assms(5,6)])
  note w = written_requests [OF assms(3,5,6), of ?cl]
  have p1: "rest_path (client_Update (newGitLabSources ?cl ns) src) = path_of (api_segments base @ [''namespaces'', ns, ''gitlabsources'', ?n])"
    using rest_path_parts [OF api, of "client_Update (newGitLabSources ?cl ns) src"] pre pl by (simp add: w)
  have p2: "rest_path (client_UpdateStatus (newGitLabSources ?cl ns) src) = path_of (api_segments base @ [''namespaces'', ns, ''gitlabsources'', ?n, ''status''])"
    using rest_path_parts [OF api, of "client_UpdateStatus (newGitLabSources ?cl ns) src"] pre pl segments(3) by (simp add: w)
  have inj: "ns = ns' \<and> ?n = n'"
    if "plain_segment ns'" "plain_segment n'"
      "path_of (api_segments base @ [''namespaces'', ns, ''gitlabsources'', ?n]) = path_of (api_segments base @ [''namespaces'', ns', ''gitlabsources'', n'])"
    for ns' n'
    using path_of_inj [OF _ _ that(3)] that(1,2) pl api(1) segments by simp
  show ?thesis
    using p1 p2 inj assms(4) unfolding Let_def rest_send_def by (simp add: w)
qed

definition demo_config :: rest_config where
  "demo_config = \<lparr>cfg_basePath = [], cfg_GroupVersion = None, cfg_APIPath = [], cfg_UserAgent = []\<rparr>"

definition named_source :: "string \<Rightarrow> GitLabSource" where
  "named_source n = \<lparr>gs_APIVersion = [], gs_Kind = [], gs_meta = empty_meta\<lparr>om_Name := n\<rparr>,
     Spec = \<lparr>ServiceAccountName = [], ProjectURL = [], EventTypes = [], AccessToken = \<lparr>SecretKeyRef = None\<rparr>,
             SecretToken = \<lparr>SecretKeyRef = None\<rparr>, Sink = None, URI = None, Secure = False\<rparr>,
     Status = \<lparr>ObservedGeneration = 0, Conditions = [], WebhookIDKey = [], SinkURI = []\<rparr>\<rparr>"

theorem write_paths_witness:
  "rest_send (client_UpdateStatus (newGitLabSources (NewForConfig [] demo_config) ''ns'') (named_source ''src''))
     = Inr (''PUT'', ''/apis/sources.eventing.knative.dev/v1alpha1/namespaces/ns/gitlabsources/src/status'', [], Some (BodySource (named_source ''src'')))"
  using write_paths [of "[]" demo_config "''ns''" "named_source ''src''" "[]"]
  by (simp add: demo_config_def path_of_def named_source_def empty_meta_def IsValidPathSegmentName_def api_segments_def Let_def)

text \<open>What a request without an error tells of the steps that built it.\<close>

lemma Body_err [simp]:
  "rr_err (Body b q) = rr_err q" "rr_verb (Body b q) = rr_verb q" "rr_namespaceSet (Body b q) = rr_namespaceSet q"
  "rr_namespace (Body b q) = rr_namespace q" "rr_resourceName (Body b q) = rr_resourceName q"
  by (simp_all add: Body_def split: option.splits)

lemma Name_ok:
  "rr_err (Name n q) = None \<Longrightarrow> rr_err q = None \<and> n \<noteq> [] \<and> IsValidPathSegmentName n = [] \<and> Name n q = q\<lparr>rr_resourceName := n\<rparr>"
  by (auto simp: Name_def rr_fail_def Let_def split: if_splits)

lemma Resource_ok:
  "rr_err (Resource k q) = None \<Longrightarrow> rr_err q = None \<and> Resource k q = q\<lparr>rr_resource := k\<rparr>"
  by (auto simp: Resource_def rr_fail_def Let_def split: if_splits)

lemma Namespace_ok:
  "rr_err (Namespace n q) = None \<Longrightarrow> rr_err q = None \<and> IsValidPathSegmentName n = []
     \<and> Namespace n q = q\<lparr>rr_namespaceSet := True, rr_namespace := n\<rparr>"
  by (auto simp: Namespace_def rr_fail_def Let_def split: if_splits)

lemma SubResource_ok:
  "rr_err (SubResource ss q) = None \<Longrightarrow> rr_err q = None \<and> SubResource ss q = q\<lparr>rr_subresource := path_Join ss\<rparr>"
  by (auto simp: SubResource_def rr_fail_def Let_def simp del: path_Join.simps split: if_splits option.splits)

lemma named_put_sent:
  assumes "rr_err (Name n (Resource k (Namespace ns (Verb cl ''PUT'')))) = None"
  shows "n \<noteq> [] \<and> IsValidPathSegmentName n = [] \<and> IsValidPathSegmentName ns = []
    \<and> Name n (Resource k (Namespace ns (Verb cl ''PUT''))) = (Verb cl ''PUT'')\<lparr>rr_namespaceSet := True, rr_namespace := ns, rr_resource := k, rr_resourceName := n\<rparr>"
  using Name_ok [OF assms] Resource_ok [of k "Namespace ns (Verb cl ''PUT'')"] Namespace_ok [of ns "Verb cl ''PUT''"] by simp

lemma sent_ok:
  "rest_send q = Inr out \<Longrightarrow> rr_err q = None \<and> (rr_verb q = ''PUT'' \<and> rr_namespaceSet q \<and> rr_resourceName q \<noteq> [] \<longrightarrow> rr_namespace q \<noteq> [])"
  by (auto simp: rest_send_def split: option.splits if_splits)

text \<open>When a write of a source is sent at all: exactly if the namespace is given and neither it
  nor the object's name, which must not be empty, is a dot, two dots or has a slash or a
  percent sign in it.  Every other write is refused by the client, before the server sees it.\<close>

theorem writes_sent_iff:
  "(let c = newGitLabSources cl ns; n = om_Name (gs_meta src);
        named = (ns \<noteq> [] \<and> IsValidPathSegmentName ns = [] \<and> n \<noteq> [] \<and> IsValidPathSegmentName n = [])
    in ((\<exists>out. rest_send (client_Update c src) = Inr out) \<longleftrightarrow> named)
       \<and> ((\<exists>out. rest_send (client_UpdateStatus c src) = Inr out) \<longleftrightarrow> named))"
proof -
  let ?n = "om_Name (gs_meta src)" and ?c = "newGitLabSources cl ns"
  let ?q = "Name ?n (Resource ''gitlabsources'' (Namespace ns (Verb cl ''PUT'')))"
  let ?named = "ns \<noteq> [] \<and> IsValidPathSegmentName ns = [] \<and> ?n \<noteq> [] \<and> IsValidPathSegmentName ?n = []"
  have sent: "?named \<Longrightarrow> \<exists>out. rest_send (client_Update ?c src) = Inr out"
    "?named \<Longrightarrow> \<exists>out. rest_send (client_UpdateStatus ?c src) = Inr out"
    by (simp_all add: written_requests rest_send_def)
  have named: "?named" if "rr_err ?q = None" "ns \<noteq> []" using named_put_sent [OF that(1)] that(2) by simp
  have update: "?named" if "rest_send (client_Update ?c src) = Inr out" for out
  proof (rule named)
    have u: "client_Update ?c src = Body (Some (BodySource src)) ?q" by (simp add: client_Update_def newGitLabSources_def)
    show q: "rr_err ?q = None" using sent_ok [OF that] by (simp add: u)
    show "ns \<noteq> []" using sent_ok [OF that] named_put_sent [OF q] by (simp add: u)
  qed
  have status: "?named" if "rest_send (client_UpdateStatus ?c src) = Inr out" for out
  proof (rule named)
    have u: "client_UpdateStatus ?c src = Body (Some (BodySource src)) (SubResource [''status''] ?q)"
      by (simp add: client_UpdateStatus_def newGitLabSources_def)
    have s: "rr_err (SubResource [''status''] ?q) = None" using sent_ok [OF that] by (simp add: u)
    show q: "rr_err ?q = None" using SubResource_ok [OF s] by simp
    show "ns \<noteq> []" using sent_ok [OF that] named_put_sent [OF q] SubResource_ok [OF s] by (simp add: u del: path_Join.simps)
  qed
  show ?thesis unfolding Let_def using sent update status by blast
qed

end
