(* ===== verification/WorkQueue.thy ===== *)
theory WorkQueue
  imports Prelude
begin

text \<open>
  The work queue of the controller (\<open>k8s.io/client-go/util/workqueue\<close>): the queue with its
  dirty and processing sets, the entries that wait for their time, and the rate limiter
  that gives a failed key its delay.  Locks make each operation one step.  Times are
  nanoseconds; metrics are left out.
\<close>

section \<open>The queue\<close>

record 'k wqueue =
  q_queue :: "'k list"
  q_dirty :: "'k set"
  q_processing :: "'k set"
  q_shuttingDown :: bool

definition q_New :: "'k wqueue" where
  "q_New = \<lparr>q_queue = [], q_dirty = {}, q_processing = {}, q_shuttingDown = False\<rparr>"

definition q_Add :: "'k \<Rightarrow> 'k wqueue \<Rightarrow> 'k wqueue" where
  "q_Add item q =
     (if q_shuttingDown q then q
      else if item \<in> q_dirty q then q
      else let q1 = q\<lparr>q_dirty := insert item (q_dirty q)\<rparr>
           in if item \<in> q_processing q1 then q1
              else q1\<lparr>q_queue := q_queue q1 @ [item]\<rparr>)"

definition q_Len :: "'k wqueue \<Rightarrow> nat" where
  "q_Len q = length (q_queue q)"

text \<open>\<open>Get\<close> blocks on an empty queue until there is an item or the queue shuts down.\<close>

datatype 'k got = Blocked | Shutdown | Got 'k

definition q_Get :: "'k wqueue \<Rightarrow> 'k got \<times> 'k wqueue" where
  "q_Get q =
     (case q_queue q of
        [] \<Rightarrow> (if q_shuttingDown q then Shutdown else Blocked, q)
      | item # rest \<Rightarrow>
          (Got item, q\<lparr>q_queue := rest, q_processing := insert item (q_processing q), q_dirty := q_dirty q - {item}\<rparr>))"

definition q_Done :: "'k \<Rightarrow> 'k wqueue \<Rightarrow> 'k wqueue" where
  "q_Done item q =
     (let q1 = q\<lparr>q_processing := q_processing q - {item}\<rparr>
      in if item \<in> q_dirty q1 then q1\<lparr>q_queue := q_queue q1 @ [item]\<rparr> else q1)"

definition q_ShutDown :: "'k wqueue \<Rightarrow> 'k wqueue" where
  "q_ShutDown q = q\<lparr>q_shuttingDown := True\<rparr>"

text \<open>What the comment on the field \<open>queue\<close> promises, and that no item is in it twice.\<close>

definition wq_inv :: "'k wqueue \<Rightarrow> bool" where
  "wq_inv q \<longleftrightarrow> distinct (q_queue q) \<and> set (q_queue q) = q_dirty q - q_processing q \<and> finite (q_dirty q)"

lemma wq_inv_New [simp]: "wq_inv q_New"
  by (simp add: wq_inv_def q_New_def)

lemma wq_inv_Add [simp]: "wq_inv q \<Longrightarrow> wq_inv (q_Add k q)"
  by (auto simp: wq_inv_def q_Add_def Let_def)

lemma wq_inv_Get:
  assumes "wq_inv q"
  shows "wq_inv (snd (q_Get q))"
  using assms by (cases "q_queue q") (auto simp: wq_inv_def q_Get_def)

lemma wq_inv_Done: "wq_inv q \<Longrightarrow> k \<in> q_processing q \<Longrightarrow> wq_inv (q_Done k q)"
  by (auto simp: wq_inv_def q_Done_def Let_def)

lemma wq_inv_ShutDown [simp]: "wq_inv q \<Longrightarrow> wq_inv (q_ShutDown q)"
  by (simp add: wq_inv_def q_ShutDown_def)

lemma q_Add_fields [simp]:
  "q_processing (q_Add k q) = q_processing q" "q_shuttingDown (q_Add k q) = q_shuttingDown q"
  by (simp_all add: q_Add_def Let_def)

lemma q_Add_dirty: "q_dirty (q_Add k q) = (if q_shuttingDown q then q_dirty q else insert k (q_dirty q))"
  by (auto simp: q_Add_def Let_def)

lemma q_Done_fields [simp]:
  "q_processing (q_Done k q) = q_processing q - {k}" "q_dirty (q_Done k q) = q_dirty q" "q_shuttingDown (q_Done k q) = q_shuttingDown q"
  by (simp_all add: q_Done_def Let_def)

lemma q_ShutDown_fields [simp]:
  "q_processing (q_ShutDown q) = q_processing q" "q_dirty (q_ShutDown q) = q_dirty q" "q_queue (q_ShutDown q) = q_queue q"
  "q_shuttingDown (q_ShutDown q)"
  by (simp_all add: q_ShutDown_def)

lemma q_Get_Got:
  "q_Get q = (Got k, q') \<Longrightarrow>
   (\<exists>rest. q_queue q = k # rest \<and> q' = q\<lparr>q_queue := rest, q_processing := insert k (q_processing q), q_dirty := q_dirty q - {k}\<rparr>)"
  by (auto simp: q_Get_def split: list.splits if_splits)

lemma q_Get_Shutdown: "q_Get q = (Shutdown, q') \<Longrightarrow> q' = q \<and> q_queue q = [] \<and> q_shuttingDown q"
  by (auto simp: q_Get_def split: list.splits if_splits)

lemma q_Get_Blocked: "q_Get q = (Blocked, q') \<Longrightarrow> q' = q \<and> q_queue q = [] \<and> \<not> q_shuttingDown q"
  by (auto simp: q_Get_def split: list.splits if_splits)

lemma wq_inv_got: "wq_inv q \<Longrightarrow> q_Get q = (Got k, q') \<Longrightarrow> wq_inv q' \<and> k \<in> q_dirty q \<and> k \<notin> q_processing q"
  using wq_inv_Get [of q] q_Get_Got [of q k q'] by (auto simp: wq_inv_def)

lemma fold_q_Add_fields [simp]:
  "q_processing (fold q_Add ks q) = q_processing q" "q_shuttingDown (fold q_Add ks q) = q_shuttingDown q"
  by (induction ks arbitrary: q) simp_all

lemma fold_q_Add_dirty: "q_dirty (fold q_Add ks q) = (if q_shuttingDown q then q_dirty q else q_dirty q \<union> set ks)"
  by (induction ks arbitrary: q) (auto simp: q_Add_dirty)

lemma wq_inv_fold_Add [simp]: "wq_inv q \<Longrightarrow> wq_inv (fold q_Add ks q)"
  by (induction ks arbitrary: q) simp_all

section \<open>Entries that wait\<close>

text \<open>
  The delaying queue keeps a heap of entries ordered by their time and a map from items to
  entries; here the heap is the list of its entries, in no order, and the map is the lookup
  in it.  A caller hands an entry over on a channel of 1000 places.
\<close>

record 'k waitFor =
  wf_data :: 'k
  wf_readyAt :: nat

definition waitingCap :: nat where "waitingCap = 1000"

text \<open>\<open>insert\<close>: an item that waits already keeps the earlier of the two times.\<close>

fun insert_wait :: "'k waitFor list \<Rightarrow> 'k waitFor \<Rightarrow> 'k waitFor list" where
  "insert_wait [] entry = [entry]"
| "insert_wait (existing # ws) entry =
     (if wf_data existing = wf_data entry
      then (if wf_readyAt entry < wf_readyAt existing then existing\<lparr>wf_readyAt := wf_readyAt entry\<rparr> else existing) # ws
      else existing # insert_wait ws entry)"

text \<open>The loop over the ready entries: popped by time, each is added to the queue.\<close>

definition add_ready :: "nat \<Rightarrow> 'k waitFor list \<times> 'k wqueue \<Rightarrow> 'k waitFor list \<times> 'k wqueue" where
  "add_ready now = (\<lambda>(ws, q).
     (filter (\<lambda>w. now < wf_readyAt w) ws,
      fold q_Add (map wf_data (sort_key wf_readyAt (filter (\<lambda>w. wf_readyAt w \<le> now) ws))) q))"

text \<open>One entry from the channel.\<close>

definition receive :: "nat \<Rightarrow> 'k waitFor \<Rightarrow> 'k waitFor list \<times> 'k wqueue \<Rightarrow> 'k waitFor list \<times> 'k wqueue" where
  "receive now entry = (\<lambda>(ws, q).
     if now < wf_readyAt entry then (insert_wait ws entry, q) else (ws, q_Add (wf_data entry) q))"

lemma insert_wait_data [simp]: "wf_data ` set (insert_wait ws e) = insert (wf_data e) (wf_data ` set ws)"
  by (induction ws) auto

lemma insert_wait_distinct: "distinct (map wf_data ws) \<Longrightarrow> distinct (map wf_data (insert_wait ws e))"
proof (induction ws)
  case (Cons w ws)
  have "set (map wf_data (insert_wait ws e)) = insert (wf_data e) (set (map wf_data ws))"
    using insert_wait_data [of ws e] by simp
  then show ?case using Cons by auto
qed simp

text \<open>An item waits for the earliest of the times asked for it.\<close>

lemma insert_wait_earliest:
  assumes "distinct (map wf_data ws)" and "w \<in> set (insert_wait ws e)"
  shows "(wf_data w \<noteq> wf_data e \<longrightarrow> w \<in> set ws) \<and> (wf_data w = wf_data e \<longrightarrow> wf_readyAt w \<le> wf_readyAt e)"
  using assms
proof (induction ws)
  case (Cons a ws)
  have "w \<in> set ws \<Longrightarrow> wf_data a = wf_data e \<Longrightarrow> wf_data w \<noteq> wf_data e"
    using Cons.prems(1) by (metis distinct.simps(2) image_eqI list.set_map list.simps(9))
  then show ?case using Cons by (auto split: if_splits)
qed simp

lemma add_ready_facts:
  assumes "add_ready now (ws, q) = (ws', q')"
  shows "q_processing q' = q_processing q" "q_shuttingDown q' = q_shuttingDown q" "wq_inv q \<Longrightarrow> wq_inv q'"
    "distinct (map wf_data ws) \<Longrightarrow> distinct (map wf_data ws')" "q_dirty q \<subseteq> q_dirty q'"
    "\<not> q_shuttingDown q \<Longrightarrow> q_dirty q' \<union> wf_data ` set ws' = q_dirty q \<union> wf_data ` set ws"
    "\<not> q_shuttingDown q \<Longrightarrow> w \<in> set ws \<Longrightarrow> wf_readyAt w \<le> now \<Longrightarrow> wf_data w \<in> q_dirty q'"
  using assms by (force simp: add_ready_def fold_q_Add_dirty distinct_map_filter)+

lemma receive_facts:
  assumes "receive now e (ws, q) = (ws', q')"
  shows "q_processing q' = q_processing q" "q_shuttingDown q' = q_shuttingDown q" "wq_inv q \<Longrightarrow> wq_inv q'"
    "distinct (map wf_data ws) \<Longrightarrow> distinct (map wf_data ws')" "q_dirty q \<subseteq> q_dirty q'"
    "\<not> q_shuttingDown q \<Longrightarrow> q_dirty q' \<union> wf_data ` set ws' = insert (wf_data e) (q_dirty q \<union> wf_data ` set ws)"
proof -
  have ws: "now < wf_readyAt e \<Longrightarrow> ws' = insert_wait ws e \<and> q' = q" "\<not> now < wf_readyAt e \<Longrightarrow> ws' = ws \<and> q' = q_Add (wf_data e) q"
    using assms by (auto simp: receive_def split: if_splits)
  show "q_processing q' = q_processing q" "q_shuttingDown q' = q_shuttingDown q" "wq_inv q \<Longrightarrow> wq_inv q'"
    "distinct (map wf_data ws) \<Longrightarrow> distinct (map wf_data ws')" "q_dirty q \<subseteq> q_dirty q'"
    using ws by (cases "now < wf_readyAt e"; simp add: q_Add_dirty insert_wait_distinct subset_insertI)+
  show "q_dirty q' \<union> wf_data ` set ws' = insert (wf_data e) (q_dirty q \<union> wf_data ` set ws)" if "\<not> q_shuttingDown q"
    using ws that by (cases "now < wf_readyAt e") (simp_all add: q_Add_dirty)
qed

text \<open>One turn of \<open>waitingLoop\<close>: the ready entries, then all the channel holds.\<close>

definition loop_turn :: "nat \<Rightarrow> 'k waitFor list \<Rightarrow> 'k waitFor list \<times> 'k wqueue \<Rightarrow> 'k waitFor list \<times> 'k wqueue" where
  "loop_turn now chan st = fold (receive now) chan (add_ready now st)"

lemma fold_receive_facts:
  assumes "fold (receive now) es (ws, q) = (ws', q')"
  shows "q_processing q' = q_processing q \<and> q_shuttingDown q' = q_shuttingDown q \<and> (wq_inv q \<longrightarrow> wq_inv q')
    \<and> (distinct (map wf_data ws) \<longrightarrow> distinct (map wf_data ws')) \<and> q_dirty q \<subseteq> q_dirty q'
    \<and> (\<not> q_shuttingDown q \<longrightarrow> q_dirty q' \<union> wf_data ` set ws' = wf_data ` set es \<union> (q_dirty q \<union> wf_data ` set ws))"
  using assms
proof (induction es arbitrary: ws q)
  case (Cons e es)
  obtain ws1 q1 where r: "receive now e (ws, q) = (ws1, q1)" by (cases "receive now e (ws, q)")
  then have f: "fold (receive now) es (ws1, q1) = (ws', q')" using Cons.prems by simp
  show ?case using Cons.IH [OF f] receive_facts [OF r] by auto
qed simp

lemma loop_turn_facts:
  assumes "loop_turn now chan (ws, q) = (ws', q')"
  shows "q_processing q' = q_processing q \<and> q_shuttingDown q' = q_shuttingDown q \<and> (wq_inv q \<longrightarrow> wq_inv q')
    \<and> (distinct (map wf_data ws) \<longrightarrow> distinct (map wf_data ws')) \<and> q_dirty q \<subseteq> q_dirty q'
    \<and> (\<not> q_shuttingDown q \<longrightarrow> q_dirty q' \<union> wf_data ` set ws' = q_dirty q \<union> wf_data ` set ws \<union> wf_data ` set chan)"
proof -
  obtain ws1 q1 where a: "add_ready now (ws, q) = (ws1, q1)" by (cases "add_ready now (ws, q)")
  then have f: "fold (receive now) chan (ws1, q1) = (ws', q')" using assms by (simp add: loop_turn_def)
  show ?thesis using fold_receive_facts [OF f] add_ready_facts(1-6) [OF a] by auto
qed

section \<open>The rate limiter\<close>

text \<open>
  \<open>DefaultControllerRateLimiter\<close>: the larger of an exponential delay per item and the delay
  of a token bucket for all items.  The bucket (\<open>golang.org/x/time/rate\<close>) depends on the
  clock; its delay is an argument.  The product of the base delay and the power of two is
  exact in \<open>float64\<close>, as the base has fewer than 53 bits, until it overflows to infinity,
  which is above the bound as well.
\<close>

definition baseDelay :: nat where "baseDelay = 5000000"
definition maxDelay :: nat where "maxDelay = 1000000000000"
definition maxInt64 :: nat where "maxInt64 = 2 ^ 63 - 1"

definition exp_delay :: "nat \<Rightarrow> nat \<Rightarrow> nat \<Rightarrow> nat" where
  "exp_delay base mx failures =
     (let backoff = base * 2 ^ failures
      in if maxInt64 < backoff then mx
         else if mx < backoff then mx
         else backoff)"

text \<open>The failures counted for each item, 0 where the map has no entry.\<close>

type_synonym 'k limiter = "'k \<Rightarrow> nat"

definition exp_When :: "'k \<Rightarrow> 'k limiter \<Rightarrow> nat \<times> 'k limiter" where
  "exp_When item failures = (exp_delay baseDelay maxDelay (failures item), failures(item := failures item + 1))"

definition limiter_When :: "nat \<Rightarrow> 'k \<Rightarrow> 'k limiter \<Rightarrow> nat \<times> 'k limiter" where
  "limiter_When bucket item failures =
     (let (d, failures') = exp_When item failures
      in (foldl (\<lambda>ret curr. if ret < curr then curr else ret) 0 [d, bucket], failures'))"

definition limiter_Forget :: "'k \<Rightarrow> 'k limiter \<Rightarrow> 'k limiter" where
  "limiter_Forget item failures = failures(item := 0)"

definition limiter_NumRequeues :: "'k \<Rightarrow> 'k limiter \<Rightarrow> nat" where
  "limiter_NumRequeues item failures = (foldl (\<lambda>ret curr. if ret < curr then curr else ret) 0 [failures item, 0])"

lemma exp_delay_min: "exp_delay base maxDelay n = min maxDelay (base * 2 ^ n)"
  by (simp add: exp_delay_def Let_def maxDelay_def maxInt64_def)

lemma limiter_When_eq:
  "limiter_When bucket k f = (max (min maxDelay (baseDelay * 2 ^ f k)) bucket, f(k := f k + 1))"
  by (simp add: limiter_When_def exp_When_def exp_delay_min max_def)

end
