(* ===== verification/Controller.thy ===== *)
theory Controller
  imports WorkQueue Prelude
begin

text \<open>
  The controller that feeds keys to a reconciler (\<open>knative.dev/pkg/controller/controller.go\<close>):
  its workers, the work queue they share with the event handlers and the loop of the
  delaying queue, as a step relation.  A step is one operation under the lock of the queue,
  one turn of the loop, or one run of the reconciler; which comes next is not determined.
  A run is one step: the model interleaves whole runs of different keys.
\<close>

section \<open>State\<close>

text \<open>
  A worker waits in \<open>Get\<close>, has a key and calls the reconciler, has called it and comes to
  the deferred \<open>Done\<close>, or has left its loop.
\<close>

datatype 'k worker = Idle | Busy 'k | Finishing 'k | Exited

fun held :: "'k worker \<Rightarrow> 'k option" where
  "held (Busy k) = Some k"
| "held (Finishing k) = Some k"
| "held _ = None"

record ('k, 'w) controller =
  c_queue :: "'k wqueue"
  c_waiting :: "'k waitFor list"
  c_chan :: "'k waitFor list"
  c_limiter :: "'k limiter"
  c_workers :: "nat \<Rightarrow> 'k worker"
  c_now :: nat
  c_world :: 'w
  c_crashed :: bool

text \<open>\<open>NewImpl\<close> and the start of \<open>Run\<close> with \<open>threadiness\<close> workers\<close>

definition ctl_init :: "nat \<Rightarrow> 'w \<Rightarrow> ('k, 'w) controller" where
  "ctl_init threadiness w =
     \<lparr>c_queue = q_New, c_waiting = [], c_chan = [], c_limiter = (\<lambda>_. 0),
      c_workers = (\<lambda>i. if i < threadiness then Idle else Exited), c_now = 0, c_world = w, c_crashed = False\<rparr>"

section \<open>Operations\<close>

definition EnqueueKey :: "'k \<Rightarrow> ('k, 'w) controller \<Rightarrow> ('k, 'w) controller" where
  "EnqueueKey key s = s\<lparr>c_queue := q_Add key (c_queue s)\<rparr>"

text \<open>Whether \<open>AddAfter\<close> has to wait for a place in the channel.\<close>

definition chan_full :: "('k, 'w) controller \<Rightarrow> bool" where
  "chan_full s \<longleftrightarrow> \<not> q_shuttingDown (c_queue s) \<and> waitingCap \<le> length (c_chan s)"

definition AddAfter :: "'k \<Rightarrow> nat \<Rightarrow> ('k, 'w) controller \<Rightarrow> ('k, 'w) controller" where
  "AddAfter item duration s =
     (if q_shuttingDown (c_queue s) then s
      else if duration = 0 then EnqueueKey item s
      else s\<lparr>c_chan := c_chan s @ [\<lparr>wf_data = item, wf_readyAt = c_now s + duration\<rparr>]\<rparr>)"

definition AddRateLimited :: "nat \<Rightarrow> 'k \<Rightarrow> ('k, 'w) controller \<Rightarrow> ('k, 'w) controller" where
  "AddRateLimited bucket item s =
     (let (d, limiter) = limiter_When bucket item (c_limiter s)
      in AddAfter item d (s\<lparr>c_limiter := limiter\<rparr>))"

definition Forget :: "'k \<Rightarrow> ('k, 'w) controller \<Rightarrow> ('k, 'w) controller" where
  "Forget item s = s\<lparr>c_limiter := limiter_Forget item (c_limiter s)\<rparr>"

text \<open>
  Only an error wrapped by \<open>NewPermanentError\<close> is permanent; the errors of this model are
  those of the reconciler, which wraps none.
\<close>

definition IsPermanentError :: "go_error \<Rightarrow> bool" where
  "IsPermanentError err = (case err of StatusError _ _ \<Rightarrow> False | PlainError _ \<Rightarrow> False | URLError _ \<Rightarrow> False | NumError _ \<Rightarrow> False)"

definition handleErr :: "nat \<Rightarrow> go_error \<Rightarrow> 'k \<Rightarrow> ('k, 'w) controller \<Rightarrow> ('k, 'w) controller" where
  "handleErr bucket err key s = (if \<not> IsPermanentError err then AddRateLimited bucket key s else Forget key s)"

text \<open>
  \<open>processNextWorkItem\<close> after the call of the reconciler.  No function between the
  reconciler and the goroutine recovers from a panic, so one ends the process.
\<close>

definition after_run :: "nat \<Rightarrow> 'k \<Rightarrow> unit outcome \<Rightarrow> ('k, 'w) controller \<Rightarrow> ('k, 'w) controller" where
  "after_run bucket key res s =
     (case res of
        Ok _ \<Rightarrow> Forget key s
      | Err err \<Rightarrow> handleErr bucket err key s
      | Panic \<Rightarrow> s\<lparr>c_crashed := True\<rparr>)"

definition set_worker :: "nat \<Rightarrow> 'k worker \<Rightarrow> ('k, 'w) controller \<Rightarrow> ('k, 'w) controller" where
  "set_worker i w s = s\<lparr>c_workers := (c_workers s)(i := w)\<rparr>"

section \<open>Steps\<close>

datatype 'k label =
    Enqueued 'k | Started nat 'k | Ran nat 'k "unit outcome" | Finished nat 'k | Left nat
  | Looped | Ticked | Stopped | Changed

text \<open>
  \<open>run\<close> is the reconciler and \<open>env\<close> what others do to the world it works on: the event
  handlers enqueue keys, the informers and the services change the world.
\<close>

inductive ctl_step :: "('k \<Rightarrow> ('w, unit) go) \<Rightarrow> ('w \<Rightarrow> 'w \<Rightarrow> bool) \<Rightarrow> ('k, 'w) controller \<Rightarrow> 'k label \<Rightarrow> ('k, 'w) controller \<Rightarrow> bool"
  for run env
where
  enqueue: "\<not> c_crashed s \<Longrightarrow> ctl_step run env s (Enqueued k) (EnqueueKey k s)"
| start: "\<not> c_crashed s \<Longrightarrow> c_workers s i = Idle \<Longrightarrow> q_Get (c_queue s) = (Got k, q)
    \<Longrightarrow> ctl_step run env s (Started i k) (set_worker i (Busy k) (s\<lparr>c_queue := q\<rparr>))"
| leave: "\<not> c_crashed s \<Longrightarrow> c_workers s i = Idle \<Longrightarrow> q_Get (c_queue s) = (Shutdown, q)
    \<Longrightarrow> ctl_step run env s (Left i) (set_worker i Exited (s\<lparr>c_queue := q\<rparr>))"
| run: "\<not> c_crashed s \<Longrightarrow> c_workers s i = Busy k \<Longrightarrow> run k (c_world s) = (res, w) \<Longrightarrow> \<not> chan_full s
    \<Longrightarrow> ctl_step run env s (Ran i k res) (after_run bucket k res (set_worker i (Finishing k) (s\<lparr>c_world := w\<rparr>)))"
| finish: "\<not> c_crashed s \<Longrightarrow> c_workers s i = Finishing k
    \<Longrightarrow> ctl_step run env s (Finished i k) (set_worker i Idle (s\<lparr>c_queue := q_Done k (c_queue s)\<rparr>))"
| loop: "\<not> c_crashed s \<Longrightarrow> \<not> q_shuttingDown (c_queue s) \<Longrightarrow> loop_turn (c_now s) (c_chan s) (c_waiting s, c_queue s) = (ws, q)
    \<Longrightarrow> ctl_step run env s Looped (s\<lparr>c_waiting := ws, c_queue := q, c_chan := []\<rparr>)"
| tick: "\<not> c_crashed s \<Longrightarrow> c_now s \<le> t \<Longrightarrow> ctl_step run env s Ticked (s\<lparr>c_now := t\<rparr>)"
| stop: "\<not> c_crashed s \<Longrightarrow> ctl_step run env s Stopped (s\<lparr>c_queue := q_ShutDown (c_queue s)\<rparr>)"
| change: "\<not> c_crashed s \<Longrightarrow> env (c_world s) w \<Longrightarrow> ctl_step run env s Changed (s\<lparr>c_world := w\<rparr>)"

inductive_cases ctl_stepE: "ctl_step run env s l t"
inductive_cases ctl_runE: "ctl_step run env s (Ran i k res) t"

inductive ctl_reach :: "('k \<Rightarrow> ('w, unit) go) \<Rightarrow> ('w \<Rightarrow> 'w \<Rightarrow> bool) \<Rightarrow> ('k, 'w) controller \<Rightarrow> ('k, 'w) controller \<Rightarrow> bool"
  for run env s\<^sub>0
where
  reach_init: "ctl_reach run env s\<^sub>0 s\<^sub>0"
| reach_step: "ctl_reach run env s\<^sub>0 s \<Longrightarrow> ctl_step run env s l t \<Longrightarrow> ctl_reach run env s\<^sub>0 t"

section \<open>The invariant of the queue and the workers\<close>

text \<open>Which worker holds which key.\<close>

definition holders :: "(nat \<Rightarrow> 'k worker) \<Rightarrow> nat \<rightharpoonup> 'k" where
  "holders ws = (\<lambda>i. held (ws i))"

definition one_holder :: "(nat \<rightharpoonup> 'k) \<Rightarrow> bool" where
  "one_holder h \<longleftrightarrow> (\<forall>i j k. h i = Some k \<longrightarrow> h j = Some k \<longrightarrow> i = j)"

definition workers_inv :: "'k wqueue \<Rightarrow> (nat \<Rightarrow> 'k worker) \<Rightarrow> bool" where
  "workers_inv q ws \<longleftrightarrow> wq_inv q \<and> q_processing q = ran (holders ws) \<and> one_holder (holders ws)"

lemma holders_upd [simp]: "holders (ws(i := w)) = (holders ws)(i := held w)"
  by (auto simp: holders_def)

lemma holders_same: "held w = held (ws i) \<Longrightarrow> (holders ws)(i := held w) = holders ws"
  by (auto simp: holders_def)

lemma one_holder_add: "one_holder h \<Longrightarrow> k \<notin> ran h \<Longrightarrow> one_holder (h(i \<mapsto> k))"
  by (auto simp: one_holder_def ran_def)

lemma one_holder_drop: "one_holder h \<Longrightarrow> one_holder (h(i := None))"
  by (auto simp: one_holder_def)

lemma ran_drop: "one_holder h \<Longrightarrow> h i = Some k \<Longrightarrow> ran (h(i := None)) = ran h - {k}"
  by (auto simp: one_holder_def ran_def) (metis option.inject)+

definition ctl_inv :: "('k, 'w) controller \<Rightarrow> bool" where
  "ctl_inv s \<longleftrightarrow> workers_inv (c_queue s) (c_workers s) \<and> distinct (map wf_data (c_waiting s))"

lemma ctl_fields [simp]:
  "c_queue (EnqueueKey k s) = q_Add k (c_queue s)" "c_workers (EnqueueKey k s) = c_workers s" "c_waiting (EnqueueKey k s) = c_waiting s"
  "c_chan (EnqueueKey k s) = c_chan s" "c_crashed (EnqueueKey k s) = c_crashed s" "c_world (EnqueueKey k s) = c_world s"
  "c_queue (Forget k s) = c_queue s" "c_workers (Forget k s) = c_workers s" "c_waiting (Forget k s) = c_waiting s"
  "c_chan (Forget k s) = c_chan s" "c_crashed (Forget k s) = c_crashed s" "c_world (Forget k s) = c_world s"
  "c_queue (set_worker i w s) = c_queue s" "c_workers (set_worker i w s) = (c_workers s)(i := w)" "c_waiting (set_worker i w s) = c_waiting s"
  "c_chan (set_worker i w s) = c_chan s" "c_crashed (set_worker i w s) = c_crashed s" "c_world (set_worker i w s) = c_world s"
  "c_limiter (set_worker i w s) = c_limiter s" "c_now (set_worker i w s) = c_now s"
  by (simp_all add: EnqueueKey_def Forget_def set_worker_def)

lemma handleErr_eq: "handleErr bucket e k s = AddRateLimited bucket k s"
  by (simp add: handleErr_def IsPermanentError_def split: go_error.split)

text \<open>The delay of a failed key is never zero, so it always goes through the channel.\<close>

lemma AddRateLimited_eq:
  "AddRateLimited bucket k s =
     (let d = max (min maxDelay (baseDelay * 2 ^ c_limiter s k)) bucket;
          s1 = s\<lparr>c_limiter := (c_limiter s)(k := c_limiter s k + 1)\<rparr>
      in if q_shuttingDown (c_queue s) then s1
         else s1\<lparr>c_chan := c_chan s @ [\<lparr>wf_data = k, wf_readyAt = c_now s + d\<rparr>]\<rparr>)"
proof -
  define d where "d = max (min maxDelay (baseDelay * 2 ^ c_limiter s k)) bucket"
  have "0 < d" by (simp add: d_def maxDelay_def baseDelay_def less_max_iff_disj)
  then show ?thesis
    unfolding AddRateLimited_def limiter_When_eq AddAfter_def Let_def prod.case d_def [symmetric] by simp
qed

lemma after_run_fields [simp]:
  "c_queue (after_run b k res s) = c_queue s" "c_workers (after_run b k res s) = c_workers s"
  "c_waiting (after_run b k res s) = c_waiting s" "c_world (after_run b k res s) = c_world s"
  by (simp_all add: after_run_def handleErr_eq AddRateLimited_eq Let_def split: outcome.split)

lemma workers_inv_start:
  assumes "workers_inv q ws" and "ws i = Idle" and "q_Get q = (Got k, q')"
  shows "workers_inv q' (ws(i := Busy k))"
proof -
  from assms(1) have q: "wq_inv q" by (simp add: workers_inv_def)
  note got = wq_inv_got [OF q assms(3)]
  obtain rest where q': "q' = q\<lparr>q_queue := rest, q_processing := insert k (q_processing q), q_dirty := q_dirty q - {k}\<rparr>"
    using q_Get_Got [OF assms(3)] by blast
  have "holders ws i = None" by (simp add: holders_def assms(2))
  then show ?thesis
    using assms(1) got one_holder_add [of "holders ws" k i] by (simp add: workers_inv_def q')
qed

lemma workers_inv_finish:
  assumes "workers_inv q ws" and "ws i = Finishing k"
  shows "workers_inv (q_Done k q) (ws(i := Idle))"
proof -
  have h: "holders ws i = Some k" by (simp add: holders_def assms(2))
  then have "k \<in> q_processing q" using assms(1) by (auto simp: workers_inv_def ran_def)
  then show ?thesis
    using assms(1) wq_inv_Done [of q k] ran_drop [where h = "holders ws", OF _ h] one_holder_drop [of "holders ws" i] by (simp add: workers_inv_def)
qed

lemma workers_inv_same:
  "workers_inv q ws \<Longrightarrow> wq_inv q' \<Longrightarrow> q_processing q' = q_processing q \<Longrightarrow> held w = held (ws i) \<Longrightarrow> workers_inv q' (ws(i := w))"
  using holders_same [of w ws i] by (simp add: workers_inv_def)

lemma ctl_inv_step:
  assumes "ctl_step run env s l t" and "ctl_inv s"
  shows "ctl_inv t"
  using assms
proof (induction rule: ctl_step.induct)
  case (enqueue s k)
  then show ?case by (auto simp: ctl_inv_def workers_inv_def)
next
  case (start s i k q)
  then show ?case using workers_inv_start by (fastforce simp: ctl_inv_def)
next
  case (leave s i q)
  then have "q = c_queue s" using q_Get_Shutdown by blast
  then show ?case
    using leave workers_inv_same [of "c_queue s" "c_workers s" q Exited i] by (simp add: ctl_inv_def workers_inv_def)
next
  case (run s i k res w bucket)
  then show ?case
    using workers_inv_same [of "c_queue s" "c_workers s" "c_queue s" "Finishing k" i] by (simp add: ctl_inv_def workers_inv_def)
next
  case (finish s i k)
  then show ?case using workers_inv_finish by (fastforce simp: ctl_inv_def)
next
  case (loop s ws q)
  have w: "workers_inv (c_queue s) (c_workers s)" "wq_inv (c_queue s)" using loop.prems by (simp_all add: ctl_inv_def workers_inv_def)
  have "workers_inv q (c_workers s)"
    using w loop_turn_facts [OF loop(3)] by (simp add: workers_inv_def)
  then show ?case using loop loop_turn_facts [OF loop(3)] by (simp add: ctl_inv_def)
qed (auto simp: ctl_inv_def workers_inv_def)

lemma ctl_inv_init: "ctl_inv (ctl_init n w :: ('k, 'w) controller)"
proof -
  have "holders (c_workers (ctl_init n w :: ('k, 'w) controller)) = Map.empty" by (auto simp: holders_def ctl_init_def)
  moreover have "c_queue (ctl_init n w :: ('k, 'w) controller) = q_New" "c_waiting (ctl_init n w :: ('k, 'w) controller) = []"
    by (simp_all add: ctl_init_def)
  moreover have "q_processing q_New = {}" by (simp add: q_New_def)
  ultimately show ?thesis by (simp add: ctl_inv_def workers_inv_def one_holder_def)
qed

lemma ctl_inv_reach: "ctl_reach run env (ctl_init n w) s \<Longrightarrow> ctl_inv s"
  by (induction rule: ctl_reach.induct) (auto intro: ctl_inv_step ctl_inv_init)

text \<open>No step follows a crash.\<close>

lemma crashed_stuck: "c_crashed s \<Longrightarrow> \<not> ctl_step run env s l t"
  by (auto elim: ctl_step.cases)

section \<open>No key is lost\<close>

text \<open>A key is due if some later run of it is to come: it is dirty, waits for its time, or is
  on its way to the waiting list.\<close>

definition due :: "('k, 'w) controller \<Rightarrow> 'k \<Rightarrow> bool" where
  "due s k \<longleftrightarrow> k \<in> q_dirty (c_queue s) \<or> k \<in> wf_data ` set (c_waiting s) \<or> k \<in> wf_data ` set (c_chan s)"

lemma due_step:
  assumes "ctl_step run env s l t" and "due s k" and "\<not> q_shuttingDown (c_queue t)" and "\<And>i. l \<noteq> Started i k"
  shows "due t k"
  using assms
proof (induction rule: ctl_step.induct)
  case (start s i k' q)
  then have "k' \<noteq> k" by blast
  then show ?case using start q_Get_Got [OF start(3)] by (auto simp: due_def)
next
  case (loop s ws q)
  then show ?case using loop_turn_facts [OF loop(3)] by (auto simp: due_def)
next
  case (run s i k' res w bucket)
  then show ?case
    by (auto simp: due_def after_run_def handleErr_eq AddRateLimited_eq Let_def split: outcome.splits)
qed (auto simp: due_def q_Add_dirty dest: q_Get_Shutdown)

lemma enqueued_due: "ctl_step run env s (Enqueued k) t \<Longrightarrow> \<not> q_shuttingDown (c_queue t) \<Longrightarrow> due t k"
  by (auto elim!: ctl_step.cases simp: due_def q_Add_dirty)

lemma failed_due: "ctl_step run env s (Ran i k (Err e)) t \<Longrightarrow> \<not> q_shuttingDown (c_queue t) \<Longrightarrow> due t k"
  by (erule ctl_runE) (auto simp: due_def after_run_def handleErr_eq AddRateLimited_eq Let_def split: if_splits)

text \<open>A due key whose time has come gets to the queue with the next turn of the loop.\<close>

section \<open>Coming to rest\<close>

text \<open>The steps of the workers alone, with runs that return nil.\<close>

inductive work :: "('k \<Rightarrow> ('w, unit) go) \<Rightarrow> ('k, 'w) controller \<Rightarrow> ('k, 'w) controller \<Rightarrow> bool" for run where
  work_start: "ctl_step run (\<lambda>_ _. False) s (Started i k) t \<Longrightarrow> work run s t"
| work_run: "ctl_step run (\<lambda>_ _. False) s (Ran i k (Ok u)) t \<Longrightarrow> work run s t"
| work_finish: "ctl_step run (\<lambda>_ _. False) s (Finished i k) t \<Longrightarrow> work run s t"

fun worker_load :: "'k worker \<Rightarrow> nat" where
  "worker_load (Busy k) = 2"
| "worker_load (Finishing k) = 1"
| "worker_load _ = 0"

definition load :: "nat \<Rightarrow> ('k, 'w) controller \<Rightarrow> nat" where
  "load n s = 3 * card (q_dirty (c_queue s)) + (\<Sum>i<n. worker_load (c_workers s i))"

lemma sum_update:
  fixes i n :: nat
  assumes "i < n"
  shows "(\<Sum>j<n. worker_load ((ws(i := w)) j)) + worker_load (ws i) = (\<Sum>j<n. worker_load (ws j)) + worker_load w"
proof -
  have fin: "finite {..<n}" by simp
  have "(\<Sum>j\<in>{..<n} - {i}. worker_load ((ws(i := w)) j)) = (\<Sum>j\<in>{..<n} - {i}. worker_load (ws j))"
    by (rule sum.cong) simp_all
  then show ?thesis
    using assms sum.remove [OF fin, of i "\<lambda>j. worker_load ((ws(i := w)) j)"] sum.remove [OF fin, of i "\<lambda>j. worker_load (ws j)"]
    by simp
qed

lemma work_load:
  assumes "work run s t" and "ctl_inv s" and "\<And>i. n \<le> i \<Longrightarrow> c_workers s i = Exited"
  shows "load n t < load n s" and "\<And>i. n \<le> i \<Longrightarrow> c_workers t i = Exited"
proof -
  have small: "c_workers s i \<noteq> Exited \<Longrightarrow> i < n" for i using assms(3) by (meson not_le)
  have "load n t < load n s \<and> (\<forall>i \<ge> n. c_workers t i = Exited)"
    using assms(1)
  proof (cases rule: work.cases)
    case (work_start i k)
    then show ?thesis
    proof (cases rule: ctl_step.cases)
      case (start q)
      have q: "wq_inv (c_queue s)" using assms(2) by (simp add: ctl_inv_def workers_inv_def)
      obtain rest where rest: "q = (c_queue s)\<lparr>q_queue := rest, q_processing := insert k (q_processing (c_queue s)), q_dirty := q_dirty (c_queue s) - {k}\<rparr>"
        using q_Get_Got [OF start(4)] by blast
      have "k \<in> q_dirty (c_queue s)" "finite (q_dirty (c_queue s))" using wq_inv_got [OF q start(4)] q by (simp_all add: wq_inv_def)
      then have c: "card (q_dirty (c_queue s)) = Suc (card (q_dirty (c_queue s) - {k}))" by (rule card.remove [OF _ , rotated])
      show ?thesis using sum_update [OF small, of i "c_workers s" "Busy k"] start small [of i] assms(3) c by (auto simp: load_def rest)
    qed
  next
    case (work_run i k u)
    then show ?thesis
    proof (cases rule: ctl_step.cases)
      case (run w bucket)
      show ?thesis using sum_update [OF small, of i "c_workers s" "Finishing k"] run small [of i] assms(3) by (auto simp: load_def)
    qed
  next
    case (work_finish i k)
    then show ?thesis
    proof (cases rule: ctl_step.cases)
      case finish
      show ?thesis using sum_update [OF small, of i "c_workers s" Idle] finish small [of i] assms(3) by (auto simp: load_def)
    qed
  qed
  then show "load n t < load n s" and "\<And>i. n \<le> i \<Longrightarrow> c_workers t i = Exited" by blast+
qed

text \<open>What the workers need to go on, and that it stays while they work.\<close>

definition resting_inv :: "nat \<Rightarrow> ('k, 'w) controller \<Rightarrow> bool" where
  "resting_inv n s \<longleftrightarrow> ctl_inv s \<and> (\<forall>i\<ge>n. c_workers s i = Exited) \<and> \<not> c_crashed s \<and> length (c_chan s) < waitingCap"

lemma work_inv: "work run s t \<Longrightarrow> ctl_inv s \<Longrightarrow> ctl_inv t"
  by (auto elim!: work.cases intro: ctl_inv_step)

lemma work_quiet: "work run s t \<Longrightarrow> c_crashed t = c_crashed s \<and> c_chan t = c_chan s"
  by (auto elim!: work.cases ctl_step.cases simp: after_run_def)

lemma resting_inv_work:
  assumes "work run s t" and "resting_inv n s"
  shows "resting_inv n t \<and> load n t < load n s"
  using assms work_inv [OF assms(1)] work_quiet [OF assms(1)] work_load [OF assms(1), of n] by (simp add: resting_inv_def)

lemma work_run_bound:
  "(work run ^^ m) s t \<Longrightarrow> resting_inv n s \<Longrightarrow> m + load n t \<le> load n s \<and> resting_inv n t"
proof (induction m arbitrary: t)
  case (Suc m)
  then obtain u where u: "(work run ^^ m) s u" "work run u t" by auto
  then have "m + load n u \<le> load n s \<and> resting_inv n u" using Suc by blast
  then show ?case using resting_inv_work [OF u(2), of n] by auto
qed simp

lemma load_le: "load n s \<le> 3 * card (q_dirty (c_queue s)) + 2 * n"
proof -
  have "worker_load w \<le> 2" for w :: "'a worker" by (cases w) simp_all
  then have "(\<Sum>i<n. worker_load (c_workers s i)) \<le> (\<Sum>i<n. 2)" by (intro sum_mono) simp
  then show ?thesis by (simp add: load_def)
qed

lemma reach_exited: "ctl_reach run env (ctl_init n w) s \<Longrightarrow> \<forall>i\<ge>n. c_workers s i = Exited"
proof (induction rule: ctl_reach.induct)
  case (reach_step s l t)
  from reach_step(2,3) show ?case by (induction rule: ctl_step.induct) auto
qed (simp add: ctl_init_def)

text \<open>Where they cannot go on: no deferred \<open>Done\<close> is left, a busy worker has a run that does not
  return nil, and the queue is empty if a worker waits for it.\<close>

lemma work_stuck:
  assumes "resting_inv n t" and "\<nexists>u. work run t u"
  shows "c_workers t i \<noteq> Finishing k" and "c_workers t i = Busy k \<Longrightarrow> fst (run k (c_world t)) \<noteq> Ok ()"
    and "c_workers t i = Idle \<Longrightarrow> q_queue (c_queue t) = []"
proof -
  from assms(1) have up: "\<not> c_crashed t" "\<not> chan_full t" by (simp_all add: resting_inv_def chan_full_def)
  show "c_workers t i \<noteq> Finishing k"
    using ctl_step.finish [of t i k run "\<lambda>_ _. False", OF up(1)] assms(2) by (blast intro: work.intros)
  show "fst (run k (c_world t)) \<noteq> Ok ()" if "c_workers t i = Busy k"
  proof
    assume "fst (run k (c_world t)) = Ok ()"
    then have "run k (c_world t) = (Ok (), snd (run k (c_world t)))" by (simp add: prod_eq_iff)
    from ctl_step.run [of t i k run "Ok ()" _ "\<lambda>_ _. False", OF up(1) that this up(2)] show False
      using assms(2) by (blast intro: work.intros)
  qed
  show "q_queue (c_queue t) = []" if "c_workers t i = Idle"
  proof (rule ccontr)
    assume "q_queue (c_queue t) \<noteq> []"
    then obtain k' rest where "q_queue (c_queue t) = k' # rest" by (cases "q_queue (c_queue t)") auto
    then obtain q' where "q_Get (c_queue t) = (Got k', q')" by (simp add: q_Get_def)
    from ctl_step.start [of t i k' q' run "\<lambda>_ _. False", OF up(1) that this] show False using assms(2) by (blast intro: work.intros)
  qed
qed

end
