(* ===== verification/Indexer.thy ===== *)
theory Indexer
  imports KubeObjects SourceTypes StringSet "HOL-Library.AList"
begin

text \<open>
  The cache of the informer: the store with indices of client-go
  (\<open>tools/cache/thread_safe_store.go\<close>, \<open>store.go\<close>, \<open>index.go\<close>) for sources.  Each operation
  runs under the store's lock, so it is one step.  Maps Go ranges over are association
  lists, whose order stands for the order of the iteration; what is proved does not depend
  on it.  An index function takes the metadata of an object, and may fail, at which the
  store panics.
\<close>

section \<open>Store\<close>

type_synonym IndexFunc = "ObjectMeta \<Rightarrow> go_error + string list"
type_synonym Index = "string \<rightharpoonup> String"
type_synonym Indices = "string \<rightharpoonup> Index"

record threadSafeMap =
  tsm_items :: "(string \<times> GitLabSource) list"
  tsm_indexers :: "(string \<times> IndexFunc) list"
  tsm_indices :: Indices

definition NewThreadSafeStore :: "(string \<times> IndexFunc) list \<Rightarrow> threadSafeMap" where
  "NewThreadSafeStore indexers = \<lparr>tsm_items = [], tsm_indexers = indexers, tsm_indices = Map.empty\<rparr>"

definition NamespaceIndex :: string where "NamespaceIndex = ''namespace''"

text \<open>\<open>meta.Accessor\<close> succeeds on the metadata of a source.\<close>

definition MetaNamespaceIndexFunc :: IndexFunc where
  "MetaNamespaceIndexFunc m = Inr [om_Namespace m]"

section \<open>Indices\<close>

definition del_value :: "string \<Rightarrow> string \<Rightarrow> Index \<Rightarrow> Index" where
  "del_value key indexValue index =
     (case index indexValue of None \<Rightarrow> index | Some s \<Rightarrow> index(indexValue \<mapsto> Delete s [key]))"

definition ins_value :: "string \<Rightarrow> string \<Rightarrow> Index \<Rightarrow> Index" where
  "ins_value key indexValue index =
     (let s = (case index indexValue of None \<Rightarrow> NewString [] | Some s \<Rightarrow> s)
      in index(indexValue \<mapsto> Insert s [key]))"

fun deleteFromIndices :: "(string \<times> IndexFunc) list \<Rightarrow> GitLabSource \<Rightarrow> string \<Rightarrow> (Indices, unit) go" where
  "deleteFromIndices [] obj key = retG ()"
| "deleteFromIndices ((name, indexFunc) # fs) obj key =
     (case indexFunc (gs_meta obj) of
        Inl _ \<Rightarrow> panicG
      | Inr indexValues \<Rightarrow>
          seqG (modG (\<lambda>indices. case indices name of
                        None \<Rightarrow> indices
                      | Some index \<Rightarrow> indices(name \<mapsto> fold (del_value key) indexValues index)))
               (deleteFromIndices fs obj key))"

fun addToIndices :: "(string \<times> IndexFunc) list \<Rightarrow> GitLabSource \<Rightarrow> string \<Rightarrow> (Indices, unit) go" where
  "addToIndices [] obj key = retG ()"
| "addToIndices ((name, indexFunc) # fs) obj key =
     (case indexFunc (gs_meta obj) of
        Inl _ \<Rightarrow> panicG
      | Inr indexValues \<Rightarrow>
          seqG (modG (\<lambda>indices.
                  let index = (case indices name of None \<Rightarrow> Map.empty | Some index \<Rightarrow> index)
                  in indices(name \<mapsto> fold (ins_value key) indexValues index)))
               (addToIndices fs obj key))"

definition onIndices :: "((string \<times> IndexFunc) list \<Rightarrow> (Indices, unit) go) \<Rightarrow> (threadSafeMap, unit) go" where
  "onIndices f = (\<lambda>c. let (r, indices) = f (tsm_indexers c) (tsm_indices c) in (r, c\<lparr>tsm_indices := indices\<rparr>))"

definition updateIndices :: "GitLabSource option \<Rightarrow> GitLabSource \<Rightarrow> string \<Rightarrow> (threadSafeMap, unit) go" where
  "updateIndices oldObj newObj key =
     seqG (case oldObj of None \<Rightarrow> retG () | Some obj \<Rightarrow> onIndices (\<lambda>fs. deleteFromIndices fs obj key))
          (onIndices (\<lambda>fs. addToIndices fs newObj key))"

section \<open>Operations\<close>

definition tsm_Add :: "string \<Rightarrow> GitLabSource \<Rightarrow> (threadSafeMap, unit) go" where
  "tsm_Add key obj =
     thenG (getG (\<lambda>c. map_of (tsm_items c) key)) (\<lambda>oldObject.
     seqG (modG (\<lambda>c. c\<lparr>tsm_items := AList.update key obj (tsm_items c)\<rparr>))
     (updateIndices oldObject obj key))"

definition tsm_Update :: "string \<Rightarrow> GitLabSource \<Rightarrow> (threadSafeMap, unit) go" where
  "tsm_Update key obj =
     thenG (getG (\<lambda>c. map_of (tsm_items c) key)) (\<lambda>oldObject.
     seqG (modG (\<lambda>c. c\<lparr>tsm_items := AList.update key obj (tsm_items c)\<rparr>))
     (updateIndices oldObject obj key))"

definition tsm_Delete :: "string \<Rightarrow> (threadSafeMap, unit) go" where
  "tsm_Delete key =
     thenG (getG (\<lambda>c. map_of (tsm_items c) key)) (\<lambda>item.
     case item of
       None \<Rightarrow> retG ()
     | Some obj \<Rightarrow>
         seqG (onIndices (\<lambda>fs. deleteFromIndices fs obj key))
              (modG (\<lambda>c. c\<lparr>tsm_items := AList.delete key (tsm_items c)\<rparr>)))"

definition tsm_Get :: "string \<Rightarrow> threadSafeMap \<Rightarrow> GitLabSource option" where
  "tsm_Get key c = map_of (tsm_items c) key"

definition tsm_List :: "threadSafeMap \<Rightarrow> GitLabSource list" where
  "tsm_List c = map snd (tsm_items c)"

definition tsm_ListKeys :: "threadSafeMap \<Rightarrow> string list" where
  "tsm_ListKeys c = map fst (tsm_items c)"

fun rebuild :: "(string \<times> GitLabSource) list \<Rightarrow> (threadSafeMap, unit) go" where
  "rebuild [] = retG ()"
| "rebuild ((key, item) # items) = seqG (updateIndices None item key) (rebuild items)"

definition tsm_Replace :: "(string \<times> GitLabSource) list \<Rightarrow> (threadSafeMap, unit) go" where
  "tsm_Replace items =
     seqG (modG (\<lambda>c. c\<lparr>tsm_items := items, tsm_indices := Map.empty\<rparr>)) (rebuild items)"

text \<open>The objects of the keys, nil for a key the store does not have.\<close>

definition items_at :: "threadSafeMap \<Rightarrow> string list \<Rightarrow> GitLabSource option list" where
  "items_at c = map (map_of (tsm_items c))"

definition index_set :: "Indices \<Rightarrow> string \<Rightarrow> string \<Rightarrow> String" where
  "index_set indices name v =
     (case indices name of None \<Rightarrow> {||} | Some index \<Rightarrow> (case index v of None \<Rightarrow> {||} | Some s \<Rightarrow> s))"

definition no_index :: "string \<Rightarrow> go_error" where
  "no_index name = PlainError (''Index with name '' @ name @ '' does not exist'')"

definition tsm_Index :: "string \<Rightarrow> ObjectMeta \<Rightarrow> threadSafeMap \<Rightarrow> go_error + GitLabSource option list" where
  "tsm_Index indexName obj c =
     (case map_of (tsm_indexers c) indexName of
        None \<Rightarrow> Inl (no_index indexName)
      | Some indexFunc \<Rightarrow>
          (case indexFunc obj of
             Inl e \<Rightarrow> Inl e
           | Inr indexKeys \<Rightarrow>
               (let returnKeySet = fold (\<lambda>indexKey s. Insert s (List (index_set (tsm_indices c) indexName indexKey))) indexKeys (NewString [])
                in Inr (items_at c (List returnKeySet)))))"

definition tsm_ByIndex :: "string \<Rightarrow> string \<Rightarrow> threadSafeMap \<Rightarrow> go_error + GitLabSource option list" where
  "tsm_ByIndex indexName indexKey c =
     (case map_of (tsm_indexers c) indexName of
        None \<Rightarrow> Inl (no_index indexName)
      | Some _ \<Rightarrow> Inr (items_at c (List (index_set (tsm_indices c) indexName indexKey))))"

definition tsm_IndexKeys :: "string \<Rightarrow> string \<Rightarrow> threadSafeMap \<Rightarrow> go_error + string list" where
  "tsm_IndexKeys indexName indexKey c =
     (case map_of (tsm_indexers c) indexName of
        None \<Rightarrow> Inl (no_index indexName)
      | Some _ \<Rightarrow> Inr (List (index_set (tsm_indices c) indexName indexKey)))"

text \<open>How \<open>fmt\<close> prints the members of a set of strings.\<close>

fun set_text :: "string list \<Rightarrow> string" where
  "set_text [] = []"
| "set_text [k] = k @ '':{}''"
| "set_text (k # ks) = k @ '':{} '' @ set_text ks"

definition tsm_AddIndexers :: "(string \<times> IndexFunc) list \<Rightarrow> (threadSafeMap, unit) go" where
  "tsm_AddIndexers newIndexers =
     thenG (getG id) (\<lambda>c.
     if 0 < length (tsm_items c) then failG (PlainError ''cannot add indexers to running index'')
     else let conflicts = List (NewString (filter (\<lambda>k. k \<in> set (map fst (tsm_indexers c))) (map fst newIndexers)))
     in if conflicts \<noteq> [] then failG (PlainError (''indexer conflict: map['' @ set_text conflicts @ '']''))
     else modG (\<lambda>c. c\<lparr>tsm_indexers := tsm_indexers c @ newIndexers\<rparr>))"

section \<open>The index tells where every object is\<close>

declare map_of_eq_Some_iff [simp del]

definition has_value :: "IndexFunc \<Rightarrow> GitLabSource \<Rightarrow> string \<Rightarrow> bool" where
  "has_value f obj v \<longleftrightarrow> (case f (gs_meta obj) of Inl _ \<Rightarrow> False | Inr vs \<Rightarrow> v \<in> set vs)"

definition indexable :: "(string \<times> IndexFunc) list \<Rightarrow> GitLabSource \<Rightarrow> bool" where
  "indexable fs obj \<longleftrightarrow> (\<forall>(n, f)\<in>set fs. \<exists>vs. f (gs_meta obj) = Inr vs)"

definition indexed :: "(string \<times> IndexFunc) list \<Rightarrow> (string \<rightharpoonup> GitLabSource) \<Rightarrow> Indices \<Rightarrow> bool" where
  "indexed fs items indices \<longleftrightarrow>
     (\<forall>n f v k. map_of fs n = Some f \<longrightarrow>
        (k |\<in>| index_set indices n v \<longleftrightarrow> (\<exists>obj. items k = Some obj \<and> has_value f obj v)))"

definition tsm_inv :: "threadSafeMap \<Rightarrow> bool" where
  "tsm_inv c \<longleftrightarrow> distinct (map fst (tsm_items c)) \<and> distinct (map fst (tsm_indexers c))
     \<and> (\<forall>obj\<in>set (map snd (tsm_items c)). indexable (tsm_indexers c) obj)
     \<and> indexed (tsm_indexers c) (map_of (tsm_items c)) (tsm_indices c)"

lemma Delete_one [simp]: "x |\<in>| Delete s [k] \<longleftrightarrow> x |\<in>| s \<and> x \<noteq> k"
  by (auto simp: Delete_def)

lemma Insert_one [simp]: "x |\<in>| Insert s [k] \<longleftrightarrow> x |\<in>| s \<or> x = k"
  by (auto simp: Insert_def)

definition value_set :: "Index \<Rightarrow> string \<Rightarrow> String" where
  "value_set index v = (case index v of None \<Rightarrow> {||} | Some s \<Rightarrow> s)"

lemma del_values: "k |\<in>| value_set (fold (del_value key) vs index) v \<longleftrightarrow> k |\<in>| value_set index v \<and> \<not> (k = key \<and> v \<in> set vs)"
proof (induction vs arbitrary: index)
  case (Cons u us)
  have "k |\<in>| value_set (del_value key u index) v \<longleftrightarrow> k |\<in>| value_set index v \<and> \<not> (k = key \<and> v = u)"
    by (auto simp: del_value_def value_set_def split: option.splits)
  then show ?case using Cons by auto
qed simp

lemma ins_values: "k |\<in>| value_set (fold (ins_value key) vs index) v \<longleftrightarrow> k |\<in>| value_set index v \<or> k = key \<and> v \<in> set vs"
proof (induction vs arbitrary: index)
  case (Cons u us)
  have "k |\<in>| value_set (ins_value key u index) v \<longleftrightarrow> k |\<in>| value_set index v \<or> k = key \<and> v = u"
    by (auto simp: ins_value_def value_set_def NewString_def Insert_def Let_def split: option.splits)
  then show ?case using Cons by auto
qed simp

lemma index_set_upd [simp]:
  "index_set (indices(n \<mapsto> index)) m v = (if m = n then value_set index v else index_set indices m v)"
  by (simp add: index_set_def value_set_def)

lemma index_set_value: "indices n = Some index \<Longrightarrow> index_set indices n v = value_set index v"
  by (simp add: index_set_def value_set_def)

lemma value_set_empty [simp]: "value_set Map.empty v = {||}"
  by (simp add: value_set_def)

lemma index_set_none: "indices n = None \<Longrightarrow> index_set indices n v = {||}"
  by (simp add: index_set_def)

definition fun_value :: "(string \<times> IndexFunc) list \<Rightarrow> string \<Rightarrow> GitLabSource \<Rightarrow> string \<Rightarrow> bool" where
  "fun_value fs n obj v \<longleftrightarrow> (case map_of fs n of None \<Rightarrow> False | Some f \<Rightarrow> has_value f obj v)"

lemma deleteFromIndices_ok:
  assumes "indexable fs obj" and "distinct (map fst fs)"
  shows "\<exists>I'. deleteFromIndices fs obj key I = (Ok (), I')
    \<and> (\<forall>n v k. k |\<in>| index_set I' n v \<longleftrightarrow> k |\<in>| index_set I n v \<and> \<not> (k = key \<and> fun_value fs n obj v))"
  using assms
proof (induction fs arbitrary: I)
  case Nil
  then show ?case by (simp add: retG_def fun_value_def)
next
  case (Cons p fs)
  obtain n f where p: "p = (n, f)" by (cases p)
  with Cons.prems obtain vs where vs: "f (gs_meta obj) = Inr vs" by (auto simp: indexable_def)
  define J where "J = (case I n of None \<Rightarrow> I | Some index \<Rightarrow> I(n \<mapsto> fold (del_value key) vs index))"
  have J: "k |\<in>| index_set J m v \<longleftrightarrow> k |\<in>| index_set I m v \<and> \<not> (k = key \<and> m = n \<and> v \<in> set vs)" for k m v
    by (cases "I n") (auto simp: J_def del_values index_set_value index_set_none)
  have fresh: "map_of fs n = None" using Cons.prems(2) by (simp add: p map_of_eq_None_iff)
  from Cons.IH [of J] Cons.prems obtain I' where
    I': "deleteFromIndices fs obj key J = (Ok (), I')"
      "\<And>m v k. k |\<in>| index_set I' m v \<longleftrightarrow> k |\<in>| index_set J m v \<and> \<not> (k = key \<and> fun_value fs m obj v)"
    by (auto simp: indexable_def)
  moreover have "deleteFromIndices (p # fs) obj key I = deleteFromIndices fs obj key J"
    by (simp add: p vs seqG_def thenG_def onErr_def modG_def J_def)
  moreover have "fun_value (p # fs) m obj v \<longleftrightarrow> m = n \<and> v \<in> set vs \<or> fun_value fs m obj v" for m v
    using fresh by (auto simp: fun_value_def p has_value_def vs)
  ultimately show ?case using J by auto
qed

lemma addToIndices_ok:
  assumes "indexable fs obj" and "distinct (map fst fs)"
  shows "\<exists>I'. addToIndices fs obj key I = (Ok (), I')
    \<and> (\<forall>n v k. k |\<in>| index_set I' n v \<longleftrightarrow> k |\<in>| index_set I n v \<or> k = key \<and> fun_value fs n obj v)"
  using assms
proof (induction fs arbitrary: I)
  case Nil
  then show ?case by (simp add: retG_def fun_value_def)
next
  case (Cons p fs)
  obtain n f where p: "p = (n, f)" by (cases p)
  with Cons.prems obtain vs where vs: "f (gs_meta obj) = Inr vs" by (auto simp: indexable_def)
  define J where "J = I(n \<mapsto> fold (ins_value key) vs (case I n of None \<Rightarrow> Map.empty | Some index \<Rightarrow> index))"
  have J: "k |\<in>| index_set J m v \<longleftrightarrow> k |\<in>| index_set I m v \<or> k = key \<and> m = n \<and> v \<in> set vs" for k m v
    by (cases "I n") (auto simp: J_def ins_values index_set_value index_set_none)
  have fresh: "map_of fs n = None" using Cons.prems(2) by (simp add: p map_of_eq_None_iff)
  from Cons.IH [of J] Cons.prems obtain I' where
    I': "addToIndices fs obj key J = (Ok (), I')"
      "\<And>m v k. k |\<in>| index_set I' m v \<longleftrightarrow> k |\<in>| index_set J m v \<or> k = key \<and> fun_value fs m obj v"
    by (auto simp: indexable_def)
  moreover have "addToIndices (p # fs) obj key I = addToIndices fs obj key J"
    by (simp add: p vs seqG_def thenG_def onErr_def modG_def J_def Let_def)
  moreover have "fun_value (p # fs) m obj v \<longleftrightarrow> m = n \<and> v \<in> set vs \<or> fun_value fs m obj v" for m v
    using fresh by (auto simp: fun_value_def p has_value_def vs)
  ultimately show ?case using J by auto
qed

lemma indexed_iff: "indexed fs items I \<longleftrightarrow>
    (\<forall>n v k. map_of fs n \<noteq> None \<longrightarrow> (k |\<in>| index_set I n v \<longleftrightarrow> (\<exists>obj. items k = Some obj \<and> fun_value fs n obj v)))"
  by (auto simp: indexed_def fun_value_def)

lemma updateIndices_ok:
  assumes "distinct (map fst (tsm_indexers c))" and "indexable (tsm_indexers c) new"
    and "\<And>old'. old = Some old' \<Longrightarrow> indexable (tsm_indexers c) old'"
  shows "\<exists>I'. updateIndices old new key c = (Ok (), c\<lparr>tsm_indices := I'\<rparr>)
    \<and> (\<forall>n v k. k |\<in>| index_set I' n v \<longleftrightarrow>
          k |\<in>| index_set (tsm_indices c) n v \<and> \<not> (k = key \<and> (\<exists>old'. old = Some old' \<and> fun_value (tsm_indexers c) n old' v))
          \<or> k = key \<and> fun_value (tsm_indexers c) n new v)"
proof (cases old)
  case None
  from addToIndices_ok [OF assms(2,1), of key "tsm_indices c"] obtain I' where
    "addToIndices (tsm_indexers c) new key (tsm_indices c) = (Ok (), I')"
    "\<And>n v k. k |\<in>| index_set I' n v \<longleftrightarrow> k |\<in>| index_set (tsm_indices c) n v \<or> k = key \<and> fun_value (tsm_indexers c) n new v" by blast
  then show ?thesis
    by (intro exI [of _ I']) (simp add: None updateIndices_def seqG_def thenG_def onErr_def retG_def onIndices_def)
next
  case (Some old')
  from deleteFromIndices_ok [OF assms(3) [OF Some] assms(1), of key "tsm_indices c"] obtain J where
    J: "deleteFromIndices (tsm_indexers c) old' key (tsm_indices c) = (Ok (), J)"
    "\<And>n v k. k |\<in>| index_set J n v \<longleftrightarrow> k |\<in>| index_set (tsm_indices c) n v \<and> \<not> (k = key \<and> fun_value (tsm_indexers c) n old' v)" by blast
  from addToIndices_ok [OF assms(2,1), of key J] obtain I' where
    "addToIndices (tsm_indexers c) new key J = (Ok (), I')"
    "\<And>n v k. k |\<in>| index_set I' n v \<longleftrightarrow> k |\<in>| index_set J n v \<or> k = key \<and> fun_value (tsm_indexers c) n new v" by blast
  with J show ?thesis
    by (intro exI [of _ I']) (simp add: Some updateIndices_def seqG_def thenG_def onErr_def onIndices_def)
qed

lemma indexed_update:
  assumes "indexed fs items I" and "items key = old"
    and "\<And>n v k. k |\<in>| index_set I' n v \<longleftrightarrow>
          k |\<in>| index_set I n v \<and> \<not> (k = key \<and> (\<exists>old'. old = Some old' \<and> fun_value fs n old' v)) \<or> k = key \<and> fun_value fs n new v"
  shows "indexed fs (items(key \<mapsto> new)) I'"
  using assms(1,2) unfolding indexed_iff assms(3) by auto

lemma indexable_item: "tsm_inv c \<Longrightarrow> map_of (tsm_items c) key = Some obj \<Longrightarrow> indexable (tsm_indexers c) obj"
  by (auto simp: tsm_inv_def dest!: map_of_SomeD)

text \<open>What the operations do to the objects, and that they keep the indices right.\<close>

lemma tsm_Add_ok:
  assumes "tsm_inv c" and "indexable (tsm_indexers c) obj"
  shows "\<exists>c'. tsm_Add key obj c = (Ok (), c') \<and> tsm_inv c' \<and> tsm_indexers c' = tsm_indexers c
    \<and> tsm_items c' = AList.update key obj (tsm_items c)"
proof -
  let ?old = "map_of (tsm_items c) key" and ?c = "c\<lparr>tsm_items := AList.update key obj (tsm_items c)\<rparr>"
  have "\<And>old'. ?old = Some old' \<Longrightarrow> indexable (tsm_indexers ?c) old'" using indexable_item [OF assms(1)] by simp
  with updateIndices_ok [of ?c obj ?old key] assms obtain I' where
    I': "updateIndices ?old obj key ?c = (Ok (), ?c\<lparr>tsm_indices := I'\<rparr>)"
    "\<And>n v k. k |\<in>| index_set I' n v \<longleftrightarrow>
        k |\<in>| index_set (tsm_indices c) n v \<and> \<not> (k = key \<and> (\<exists>old'. ?old = Some old' \<and> fun_value (tsm_indexers c) n old' v))
        \<or> k = key \<and> fun_value (tsm_indexers c) n obj v"
    by (auto simp: tsm_inv_def)
  have "indexed (tsm_indexers c) ((map_of (tsm_items c))(key \<mapsto> obj)) I'"
    using assms(1) I'(2) by (intro indexed_update [of _ _ "tsm_indices c"]) (simp_all add: tsm_inv_def)
  moreover have "indexable (tsm_indexers c) x" if "x \<in> set (map snd (AList.update key obj (tsm_items c)))" for x
  proof -
    have d: "distinct (map fst (AList.update key obj (tsm_items c)))" using assms(1) by (simp add: tsm_inv_def AList.distinct_update)
    from that obtain k where "(k, x) \<in> set (AList.update key obj (tsm_items c))" by auto
    then have "map_of (AList.update key obj (tsm_items c)) k = Some x" using d by simp
    then show ?thesis using assms(2) indexable_item [OF assms(1)] by (auto simp: AList.update_conv split: if_splits)
  qed
  ultimately have "tsm_inv (?c\<lparr>tsm_indices := I'\<rparr>)"
    using assms(1) by (auto simp: tsm_inv_def AList.distinct_update AList.update_conv')
  moreover have "tsm_Add key obj c = (Ok (), ?c\<lparr>tsm_indices := I'\<rparr>)"
    using I'(1) by (simp add: tsm_Add_def seqG_def thenG_def onErr_def getG_def modG_def)
  ultimately show ?thesis by auto
qed

lemma in_set_delete: "p \<in> set (AList.delete k al) \<Longrightarrow> p \<in> set al"
  by (auto simp: AList.delete_eq)

lemma tsm_Update_Add: "tsm_Update = tsm_Add"
  by (intro ext) (simp add: tsm_Update_def tsm_Add_def)

lemma tsm_Delete_ok:
  assumes "tsm_inv c"
  shows "\<exists>c'. tsm_Delete key c = (Ok (), c') \<and> tsm_inv c' \<and> tsm_indexers c' = tsm_indexers c
    \<and> tsm_items c' = AList.delete key (tsm_items c)"
proof (cases "map_of (tsm_items c) key")
  case None
  then have "AList.delete key (tsm_items c) = tsm_items c" by (simp add: map_of_eq_None_iff)
  then show ?thesis using assms None by (simp add: tsm_Delete_def thenG_def onErr_def getG_def retG_def)
next
  case (Some obj)
  have ix: "indexable (tsm_indexers c) obj" "distinct (map fst (tsm_indexers c))"
    using indexable_item [OF assms Some] assms by (simp_all add: tsm_inv_def)
  from deleteFromIndices_ok [OF this, of key "tsm_indices c"] obtain I' where
    I': "deleteFromIndices (tsm_indexers c) obj key (tsm_indices c) = (Ok (), I')"
    "\<And>n v k. k |\<in>| index_set I' n v \<longleftrightarrow> k |\<in>| index_set (tsm_indices c) n v \<and> \<not> (k = key \<and> fun_value (tsm_indexers c) n obj v)" by blast
  have "indexed (tsm_indexers c) ((map_of (tsm_items c))(key := None)) I'"
    using assms Some unfolding tsm_inv_def indexed_iff I'(2) by auto
  then have "tsm_inv (c\<lparr>tsm_indices := I', tsm_items := AList.delete key (tsm_items c)\<rparr>)"
    using assms by (auto simp: tsm_inv_def AList.distinct_delete AList.delete_conv' dest!: in_set_delete)
  moreover have "tsm_Delete key c = (Ok (), c\<lparr>tsm_indices := I', tsm_items := AList.delete key (tsm_items c)\<rparr>)"
    using Some I'(1) by (simp add: tsm_Delete_def seqG_def thenG_def onErr_def getG_def modG_def onIndices_def)
  ultimately show ?thesis by auto
qed

lemma rebuild_ok:
  assumes "distinct (map fst kvs)" and "\<forall>obj\<in>set (map snd kvs). indexable (tsm_indexers c) obj" and "distinct (map fst (tsm_indexers c))"
    and "indexed (tsm_indexers c) items (tsm_indices c)" and "\<forall>k\<in>set (map fst kvs). items k = None"
  shows "\<exists>I'. rebuild kvs c = (Ok (), c\<lparr>tsm_indices := I'\<rparr>) \<and> indexed (tsm_indexers c) (items ++ map_of kvs) I'"
  using assms
proof (induction kvs arbitrary: c items)
  case Nil
  then show ?case by (auto simp: retG_def intro!: exI [of _ "tsm_indices c"])
next
  case (Cons p kvs)
  obtain key obj where p: "p = (key, obj)" by (cases p)
  have "indexable (tsm_indexers c) obj" using Cons.prems(2) by (simp add: p)
  from updateIndices_ok [OF Cons.prems(3) this, where old = None and key = key] obtain J where
    J: "updateIndices None obj key c = (Ok (), c\<lparr>tsm_indices := J\<rparr>)"
    "\<And>n v k. k |\<in>| index_set J n v \<longleftrightarrow> k |\<in>| index_set (tsm_indices c) n v \<or> k = key \<and> fun_value (tsm_indexers c) n obj v"
    by auto
  let ?c = "c\<lparr>tsm_indices := J\<rparr>"
  have "indexed (tsm_indexers ?c) (items(key \<mapsto> obj)) (tsm_indices ?c)"
    by (simp, rule indexed_update [OF Cons.prems(4) refl]) (use Cons.prems(5) J(2) in \<open>auto simp: p\<close>)
  moreover have "\<forall>k\<in>set (map fst kvs). (items(key \<mapsto> obj)) k = None" using Cons.prems(1,5) by (auto simp: p)
  moreover have "items(key \<mapsto> obj) ++ map_of kvs = items ++ map_of (p # kvs)"
    using Cons.prems(1) by (auto simp: p map_add_def fun_eq_iff map_of_eq_None_iff image_iff split: option.split dest!: map_of_SomeD)
  moreover have "distinct (map fst kvs)" "\<forall>obj\<in>set (map snd kvs). indexable (tsm_indexers ?c) obj" "distinct (map fst (tsm_indexers ?c))"
    using Cons.prems(1-3) by simp_all
  ultimately have "\<exists>I'. rebuild kvs ?c = (Ok (), ?c\<lparr>tsm_indices := I'\<rparr>) \<and> indexed (tsm_indexers ?c) (items ++ map_of (p # kvs)) I'"
    using Cons.IH [of ?c "items(key \<mapsto> obj)"] by (simp only:)
  then obtain I' where I': "rebuild kvs ?c = (Ok (), ?c\<lparr>tsm_indices := I'\<rparr>)" "indexed (tsm_indexers ?c) (items ++ map_of (p # kvs)) I'"
    by blast
  have "rebuild (p # kvs) c = (Ok (), c\<lparr>tsm_indices := I'\<rparr>)" using I'(1) by (simp add: p J(1) seqG_def thenG_def onErr_def)
  moreover have "tsm_indexers ?c = tsm_indexers c" by simp
  ultimately show ?case using I'(2) by metis
qed

lemma tsm_Replace_ok:
  assumes "tsm_inv c" and "distinct (map fst kvs)" and "\<forall>obj\<in>set (map snd kvs). indexable (tsm_indexers c) obj"
  shows "\<exists>c'. tsm_Replace kvs c = (Ok (), c') \<and> tsm_inv c' \<and> tsm_indexers c' = tsm_indexers c \<and> tsm_items c' = kvs"
proof -
  let ?c = "c\<lparr>tsm_items := kvs, tsm_indices := Map.empty\<rparr>"
  have "indexed (tsm_indexers ?c) Map.empty (tsm_indices ?c)" by (auto simp: indexed_def index_set_def)
  from rebuild_ok [OF assms(2) _ _ this] assms obtain I' where
    "rebuild kvs ?c = (Ok (), ?c\<lparr>tsm_indices := I'\<rparr>)" "indexed (tsm_indexers c) (map_of kvs) I'" by (auto simp: tsm_inv_def)
  then show ?thesis using assms
    by (intro exI [of _ "?c\<lparr>tsm_indices := I'\<rparr>"]) (simp add: tsm_Replace_def tsm_inv_def seqG_def thenG_def onErr_def modG_def)
qed

lemma NewThreadSafeStore_inv: "distinct (map fst indexers) \<Longrightarrow> tsm_inv (NewThreadSafeStore indexers)"
  by (simp add: NewThreadSafeStore_def tsm_inv_def indexed_def index_set_def)

text \<open>What an index returns: the objects with the value, none of them nil, each once.\<close>

lemma items_at_index:
  assumes "tsm_inv c" and "map_of (tsm_indexers c) name = Some f" and "\<And>k. k |\<in>| s \<longleftrightarrow> k |\<in>| index_set (tsm_indices c) name v"
  shows "\<exists>keys. items_at c (List s) = map (\<lambda>k. Some (the (map_of (tsm_items c) k))) keys \<and> distinct keys
    \<and> set keys = {k. \<exists>obj. map_of (tsm_items c) k = Some obj \<and> has_value f obj v}"
proof (intro exI [of _ "List s"] conjI)
  have s: "k \<in> set (List s) \<longleftrightarrow> (\<exists>obj. map_of (tsm_items c) k = Some obj \<and> has_value f obj v)" for k
    using assms by (simp add: strings.set_lst Has_def tsm_inv_def indexed_def)
  then show "set (List s) = {k. \<exists>obj. map_of (tsm_items c) k = Some obj \<and> has_value f obj v}" by blast
  show "items_at c (List s) = map (\<lambda>k. Some (the (map_of (tsm_items c) k))) (List s)"
    using s by (auto simp: items_at_def)
  show "distinct (List s)" by (rule strings.distinct_lst)
qed

end
