(* ===== verification/SourceCache.thy ===== *)
theory SourceCache
  imports Indexer
begin

text \<open>
  The informer's side of the cache: keys of objects (\<open>tools/cache/store.go\<close>,
  \<open>controller.go\<close>), the keyed store, how a batch of changes from the watch is put into it
  and announced (\<open>HandleDeltas\<close> of \<open>shared_informer.go\<close>), and the generated lister of
  GitLabSources that reads it (\<open>pkg/client/listers\<close>).
\<close>

section \<open>Keys\<close>

definition MetaNamespaceKeyFunc :: "ObjectMeta \<Rightarrow> string" where
  "MetaNamespaceKeyFunc m =
     (if 0 < length (om_Namespace m) then om_Namespace m @ ''/'' @ om_Name m else om_Name m)"

text \<open>An object the informer saw deleted, or the tombstone of one whose deletion it missed.\<close>

datatype notified = Object GitLabSource | DeletedFinalStateUnknown string

definition DeletionHandlingMetaNamespaceKeyFunc :: "notified \<Rightarrow> string" where
  "DeletionHandlingMetaNamespaceKeyFunc obj =
     (case obj of DeletedFinalStateUnknown key \<Rightarrow> key | Object src \<Rightarrow> MetaNamespaceKeyFunc (gs_meta src))"

section \<open>Keyed store\<close>

definition source_key :: "GitLabSource \<Rightarrow> string" where
  "source_key src = DeletionHandlingMetaNamespaceKeyFunc (Object src)"

definition NewIndexer :: "(string \<times> IndexFunc) list \<Rightarrow> threadSafeMap" where
  "NewIndexer indexers = NewThreadSafeStore indexers"

definition cache_Add :: "GitLabSource \<Rightarrow> (threadSafeMap, unit) go" where
  "cache_Add obj = tsm_Add (source_key obj) obj"

definition cache_Update :: "GitLabSource \<Rightarrow> (threadSafeMap, unit) go" where
  "cache_Update obj = tsm_Update (source_key obj) obj"

definition cache_Delete :: "notified \<Rightarrow> (threadSafeMap, unit) go" where
  "cache_Delete obj = tsm_Delete (DeletionHandlingMetaNamespaceKeyFunc obj)"

definition GetByKey :: "string \<Rightarrow> threadSafeMap \<Rightarrow> GitLabSource option" where
  "GetByKey key c = tsm_Get key c"

definition cache_Get :: "GitLabSource \<Rightarrow> threadSafeMap \<Rightarrow> GitLabSource option" where
  "cache_Get obj c = GetByKey (source_key obj) c"

definition cache_Replace :: "GitLabSource list \<Rightarrow> (threadSafeMap, unit) go" where
  "cache_Replace list = tsm_Replace (foldl (\<lambda>items item. AList.update (source_key item) item items) [] list)"

section \<open>Changes from the watch\<close>

datatype notification = OnAdd GitLabSource | OnUpdate GitLabSource GitLabSource | OnDelete notified

fun notified_key :: "notification \<Rightarrow> string" where
  "notified_key (OnAdd obj) = MetaNamespaceKeyFunc (gs_meta obj)"
| "notified_key (OnUpdate old new) = MetaNamespaceKeyFunc (gs_meta new)"
| "notified_key (OnDelete obj) = DeletionHandlingMetaNamespaceKeyFunc obj"

text \<open>
  A change the watch delivers; every change of a source but a deletion comes with the object.
  The state is the store and what has been announced to the event handlers.
\<close>

datatype delta = Sync GitLabSource | Added GitLabSource | Updated GitLabSource | Deleted notified

type_synonym informed = "threadSafeMap \<times> notification list"

definition onStore :: "(threadSafeMap, unit) go \<Rightarrow> (informed, unit) go" where
  "onStore m = (\<lambda>(c, ns). let (r, c') = m c in (r, (c', ns)))"

definition distribute :: "notification \<Rightarrow> (informed, unit) go" where
  "distribute n = modG (\<lambda>(c, ns). (c, ns @ [n]))"

definition upsert :: "GitLabSource \<Rightarrow> (informed, unit) go" where
  "upsert obj =
     thenG (getG (\<lambda>(c, ns). cache_Get obj c)) (\<lambda>old.
     case old of
       Some old' \<Rightarrow> seqG (onStore (cache_Update obj)) (distribute (OnUpdate old' obj))
     | None \<Rightarrow> seqG (onStore (cache_Add obj)) (distribute (OnAdd obj)))"

fun handle_delta :: "delta \<Rightarrow> (informed, unit) go" where
  "handle_delta (Sync obj) = upsert obj"
| "handle_delta (Added obj) = upsert obj"
| "handle_delta (Updated obj) = upsert obj"
| "handle_delta (Deleted obj) = seqG (onStore (cache_Delete obj)) (distribute (OnDelete obj))"

fun HandleDeltas :: "delta list \<Rightarrow> (informed, unit) go" where
  "HandleDeltas [] = retG ()"
| "HandleDeltas (d # ds) = seqG (handle_delta d) (HandleDeltas ds)"

section \<open>Lister\<close>

definition errNotObject :: go_error where
  "errNotObject = PlainError ''object does not implement the Object interfaces''"

text \<open>
  The loops of \<open>cache.ListAll\<close> and \<open>cache.ListAllByNamespace\<close>: what has been appended, and
  the error at an object without metadata.
\<close>

fun list_loop :: "(ObjectMeta \<Rightarrow> bool) \<Rightarrow> GitLabSource option list \<Rightarrow> GitLabSource list \<Rightarrow> GitLabSource list \<times> go_error option" where
  "list_loop P [] ret = (ret, None)"
| "list_loop P (None # ms) ret = (ret, Some errNotObject)"
| "list_loop P (Some m # ms) ret = list_loop P ms (if P (gs_meta m) then ret @ [m] else ret)"

definition ListAll :: "threadSafeMap \<Rightarrow> (labels \<Rightarrow> bool) \<Rightarrow> GitLabSource list \<times> go_error option" where
  "ListAll c selector = list_loop (\<lambda>m. selector (om_Labels m)) (map Some (tsm_List c)) []"

definition ListAllByNamespace :: "threadSafeMap \<Rightarrow> string \<Rightarrow> (labels \<Rightarrow> bool) \<Rightarrow> GitLabSource list \<times> go_error option" where
  "ListAllByNamespace c namespace selector =
     (if namespace = [] then list_loop (\<lambda>m. selector (om_Labels m)) (map Some (tsm_List c)) []
      else case tsm_Index NamespaceIndex (empty_meta\<lparr>om_Namespace := namespace\<rparr>) c of
        Inl _ \<Rightarrow> list_loop (\<lambda>m. om_Namespace m = namespace \<and> selector (om_Labels m)) (map Some (tsm_List c)) []
      | Inr items \<Rightarrow> list_loop (\<lambda>m. selector (om_Labels m)) items [])"

record gitLabSourceNamespaceLister =
  nl_indexer :: threadSafeMap
  nl_namespace :: string

definition lister_List :: "threadSafeMap \<Rightarrow> (labels \<Rightarrow> bool) \<Rightarrow> GitLabSource list \<times> go_error option" where
  "lister_List indexer selector = ListAll indexer selector"

definition lister_GitLabSources :: "threadSafeMap \<Rightarrow> string \<Rightarrow> gitLabSourceNamespaceLister" where
  "lister_GitLabSources indexer namespace = \<lparr>nl_indexer = indexer, nl_namespace = namespace\<rparr>"

definition ns_lister_List :: "gitLabSourceNamespaceLister \<Rightarrow> (labels \<Rightarrow> bool) \<Rightarrow> GitLabSource list \<times> go_error option" where
  "ns_lister_List s selector = ListAllByNamespace (nl_indexer s) (nl_namespace s) selector"

definition ns_lister_Get :: "gitLabSourceNamespaceLister \<Rightarrow> string \<Rightarrow> go_error + GitLabSource" where
  "ns_lister_Get s name =
     (case GetByKey (nl_namespace s @ ''/'' @ name) (nl_indexer s) of
        None \<Rightarrow> Inl (StatusError StatusReasonNotFound (''gitlabsource.sources.eventing.knative.dev '' @ quote name @ '' not found''))
      | Some obj \<Rightarrow> Inr obj)"

section \<open>Lemmas\<close>

lemma list_loop_Some: "list_loop P (map Some ms) ret = (ret @ filter (\<lambda>m. P (gs_meta m)) ms, None)"
  by (induction ms arbitrary: ret) simp_all

text \<open>The cache of the informer the sources use: indexed by namespace, each object under its key.\<close>

definition source_indexers :: "(string \<times> IndexFunc) list" where
  "source_indexers = [(NamespaceIndex, MetaNamespaceIndexFunc)]"

definition cache_ok :: "threadSafeMap \<Rightarrow> bool" where
  "cache_ok c \<longleftrightarrow> tsm_inv c \<and> tsm_indexers c = source_indexers \<and> (\<forall>(k, obj)\<in>set (tsm_items c). k = source_key obj)"

lemma indexable_source [simp]: "indexable source_indexers obj"
  by (simp add: indexable_def source_indexers_def MetaNamespaceIndexFunc_def)

lemma NewIndexer_ok: "cache_ok (NewIndexer source_indexers)"
  unfolding cache_ok_def NewIndexer_def
  by (intro conjI NewThreadSafeStore_inv) (simp_all add: NewThreadSafeStore_def source_indexers_def)

lemma in_set_update: "p \<in> set (AList.update k v al) \<Longrightarrow> p = (k, v) \<or> p \<in> set al"
  by (induction al) (auto split: if_splits)

lemma cache_Add_ok:
  assumes "cache_ok c"
  shows "\<exists>c'. cache_Add obj c = (Ok (), c') \<and> cache_ok c' \<and> map_of (tsm_items c') = (map_of (tsm_items c))(source_key obj \<mapsto> obj)"
proof -
  have "tsm_inv c" "indexable (tsm_indexers c) obj" using assms by (simp_all add: cache_ok_def)
  from tsm_Add_ok [OF this, of "source_key obj"] obtain c' where
    "tsm_Add (source_key obj) obj c = (Ok (), c')" "tsm_inv c'" "tsm_indexers c' = tsm_indexers c"
    "tsm_items c' = AList.update (source_key obj) obj (tsm_items c)" by blast
  then show ?thesis using assms by (auto simp: cache_Add_def cache_ok_def AList.update_conv' dest!: in_set_update)
qed

lemma cache_Update_Add: "cache_Update = cache_Add"
  by (intro ext) (simp add: cache_Update_def cache_Add_def tsm_Update_Add)

lemma cache_Delete_ok:
  assumes "cache_ok c"
  shows "\<exists>c'. cache_Delete obj c = (Ok (), c') \<and> cache_ok c'
    \<and> map_of (tsm_items c') = (map_of (tsm_items c))(DeletionHandlingMetaNamespaceKeyFunc obj := None)"
proof -
  have "tsm_inv c" using assms by (simp add: cache_ok_def)
  from tsm_Delete_ok [OF this, of "DeletionHandlingMetaNamespaceKeyFunc obj"] obtain c' where
    "tsm_Delete (DeletionHandlingMetaNamespaceKeyFunc obj) c = (Ok (), c')" "tsm_inv c'" "tsm_indexers c' = tsm_indexers c"
    "tsm_items c' = AList.delete (DeletionHandlingMetaNamespaceKeyFunc obj) (tsm_items c)" by blast
  then show ?thesis using assms by (auto simp: cache_Delete_def cache_ok_def AList.delete_conv' dest!: in_set_delete)
qed

lemma replaced_items:
  "distinct (map fst al) \<Longrightarrow> (\<forall>(k, obj)\<in>set al. k = source_key obj) \<Longrightarrow>
    (let items = foldl (\<lambda>items item. AList.update (source_key item) item items) al objs
     in distinct (map fst items) \<and> (\<forall>(k, obj)\<in>set items. k = source_key obj)
        \<and> map_of items = map_of al ++ map_of (rev (map (\<lambda>obj. (source_key obj, obj)) objs)))"
proof (induction objs arbitrary: al)
  case (Cons obj objs)
  have "\<forall>(k, x)\<in>set (AList.update (source_key obj) obj al). k = source_key x"
    using Cons.prems(2) by (auto dest!: in_set_update)
  with Cons.IH [of "AList.update (source_key obj) obj al"] Cons.prems(1) show ?case
    by (simp add: AList.distinct_update AList.update_conv' Let_def map_add_def fun_eq_iff split: option.split)
qed simp

lemma cache_Replace_ok:
  assumes "cache_ok c"
  shows "\<exists>c'. cache_Replace objs c = (Ok (), c') \<and> cache_ok c'
    \<and> map_of (tsm_items c') = map_of (rev (map (\<lambda>obj. (source_key obj, obj)) objs))"
proof -
  let ?items = "foldl (\<lambda>items item. AList.update (source_key item) item items) [] objs"
  have i: "distinct (map fst ?items)" "\<forall>(k, obj)\<in>set ?items. k = source_key obj"
    "map_of ?items = map_of (rev (map (\<lambda>obj. (source_key obj, obj)) objs))"
    using replaced_items [of "[]" objs] by (simp_all add: Let_def)
  have "\<forall>obj\<in>set (map snd ?items). indexable (tsm_indexers c) obj" using assms by (simp add: cache_ok_def)
  from tsm_Replace_ok [OF _ i(1) this] assms show ?thesis using i(2,3) by (auto simp: cache_Replace_def cache_ok_def)
qed

section \<open>The cache as a map from keys\<close>

fun delta_key :: "delta \<Rightarrow> string" where
  "delta_key (Sync obj) = source_key obj"
| "delta_key (Added obj) = source_key obj"
| "delta_key (Updated obj) = source_key obj"
| "delta_key (Deleted obj) = DeletionHandlingMetaNamespaceKeyFunc obj"

fun delta_value :: "delta \<Rightarrow> GitLabSource option" where
  "delta_value (Sync obj) = Some obj"
| "delta_value (Added obj) = Some obj"
| "delta_value (Updated obj) = Some obj"
| "delta_value (Deleted obj) = None"

definition apply_delta :: "delta \<Rightarrow> (string \<rightharpoonup> GitLabSource) \<Rightarrow> (string \<rightharpoonup> GitLabSource)" where
  "apply_delta d m = m(delta_key d := delta_value d)"

text \<open>What the event handlers are told of a change to a map.\<close>

definition announced :: "(string \<rightharpoonup> GitLabSource) \<Rightarrow> delta \<Rightarrow> notification" where
  "announced m d = (case d of
      Deleted obj \<Rightarrow> OnDelete obj
    | _ \<Rightarrow> (case m (delta_key d) of None \<Rightarrow> OnAdd (the (delta_value d)) | Some old \<Rightarrow> OnUpdate old (the (delta_value d))))"

fun announcements :: "(string \<rightharpoonup> GitLabSource) \<Rightarrow> delta list \<Rightarrow> notification list" where
  "announcements m [] = []"
| "announcements m (d # ds) = announced m d # announcements (apply_delta d m) ds"

lemma announced_simps [simp]:
  "announced m (Sync obj) = (case m (source_key obj) of None \<Rightarrow> OnAdd obj | Some old \<Rightarrow> OnUpdate old obj)"
  "announced m (Added obj) = (case m (source_key obj) of None \<Rightarrow> OnAdd obj | Some old \<Rightarrow> OnUpdate old obj)"
  "announced m (Updated obj) = (case m (source_key obj) of None \<Rightarrow> OnAdd obj | Some old \<Rightarrow> OnUpdate old obj)"
  "announced m (Deleted gone) = OnDelete gone"
  by (simp_all add: announced_def split: option.split)

lemma notified_announced: "notified_key (announced m d) = delta_key d"
  by (cases d) (simp_all add: source_key_def DeletionHandlingMetaNamespaceKeyFunc_def split: option.split)

lemma notified_announcements: "map notified_key (announcements m ds) = map delta_key ds"
  by (induction ds arbitrary: m) (simp_all add: notified_announced)

lemma upsert_ok:
  assumes "cache_ok c"
  shows "\<exists>c'. upsert obj (c, ns) = (Ok (), (c', ns @ [case map_of (tsm_items c) (source_key obj) of
        None \<Rightarrow> OnAdd obj | Some old \<Rightarrow> OnUpdate old obj]))
    \<and> cache_ok c' \<and> map_of (tsm_items c') = (map_of (tsm_items c))(source_key obj \<mapsto> obj)"
proof -
  from cache_Add_ok [OF assms] obtain c' where c': "cache_Add obj c = (Ok (), c')" "cache_ok c'"
    "map_of (tsm_items c') = (map_of (tsm_items c))(source_key obj \<mapsto> obj)" by blast
  then show ?thesis
    by (intro exI [of _ c']) (simp add: upsert_def thenG_def seqG_def onErr_def getG_def cache_Get_def GetByKey_def tsm_Get_def
        onStore_def cache_Update_Add distribute_def modG_def split: option.split)
qed

lemma handle_delta_ok:
  assumes "cache_ok c"
  shows "\<exists>c'. handle_delta d (c, ns) = (Ok (), (c', ns @ [announced (map_of (tsm_items c)) d]))
    \<and> cache_ok c' \<and> map_of (tsm_items c') = apply_delta d (map_of (tsm_items c))"
proof (cases d)
  case (Deleted obj)
  from cache_Delete_ok [OF assms] obtain c' where "cache_Delete obj c = (Ok (), c')" "cache_ok c'"
    "map_of (tsm_items c') = (map_of (tsm_items c))(DeletionHandlingMetaNamespaceKeyFunc obj := None)" by blast
  then show ?thesis
    by (intro exI [of _ c']) (simp add: Deleted apply_delta_def seqG_def thenG_def onErr_def onStore_def distribute_def modG_def)
qed (use upsert_ok [OF assms] in \<open>simp_all add: apply_delta_def\<close>)

lemma HandleDeltas_ok:
  "cache_ok c \<Longrightarrow> \<exists>c'. HandleDeltas ds (c, ns) = (Ok (), (c', ns @ announcements (map_of (tsm_items c)) ds))
    \<and> cache_ok c' \<and> map_of (tsm_items c') = fold apply_delta ds (map_of (tsm_items c))"
proof (induction ds arbitrary: c ns)
  case Nil
  then show ?case by (simp add: retG_def)
next
  case (Cons d ds)
  from handle_delta_ok [OF Cons.prems, of d ns] obtain c1 where
    1: "handle_delta d (c, ns) = (Ok (), (c1, ns @ [announced (map_of (tsm_items c)) d]))" "cache_ok c1"
      "map_of (tsm_items c1) = apply_delta d (map_of (tsm_items c))" by blast
  from Cons.IH [OF 1(2), of "ns @ [announced (map_of (tsm_items c)) d]"] 1 show ?case
    by (auto simp: seqG_def thenG_def onErr_def)
qed

text \<open>A key whose object changed is that of a change.\<close>

lemma changed_key: "fold apply_delta ds m k \<noteq> m k \<Longrightarrow> k \<in> delta_key ` set ds"
proof (induction ds arbitrary: m)
  case (Cons d ds)
  show ?case
  proof (cases "k = delta_key d")
    case False
    then have "apply_delta d m k = m k" by (simp add: apply_delta_def)
    with Cons.prems have "fold apply_delta ds (apply_delta d m) k \<noteq> apply_delta d m k" by simp
    from Cons.IH [OF this] show ?thesis by simp
  qed simp
qed simp

text \<open>The objects under distinct keys are the objects of the store that satisfy what the keys were chosen by.\<close>

lemma items_by_keys:
  assumes "distinct (map fst al)" and "distinct keys" and "set keys = {k. \<exists>v. map_of al k = Some v \<and> P v}"
  shows "mset (map (\<lambda>k. the (map_of al k)) keys) = mset (filter P (map snd al))"
proof -
  let ?al = "filter (\<lambda>(k, v). P v) al"
  have d: "distinct (map fst ?al)" using assms(1) by (rule distinct_map_filter)
  have "set (map fst ?al) = set keys" using assms(1,3) by (auto simp: image_iff map_of_eq_Some_iff Bex_def)
  then have "mset keys = mset (map fst ?al)" using set_eq_iff_mset_eq_distinct [OF assms(2) d] by simp
  then have "mset (map (\<lambda>k. the (map_of al k)) keys) = mset (map (\<lambda>k. the (map_of al k)) (map fst ?al))" by (simp add: multiset.map_comp)
  also have "map (\<lambda>k. the (map_of al k)) (map fst ?al) = map snd ?al" using assms(1) by (auto simp: map_of_eq_Some_iff)
  also have "\<dots> = filter P (map snd al)" by (induction al) auto
  finally show ?thesis .
qed

lemma has_namespace: "has_value MetaNamespaceIndexFunc obj ns \<longleftrightarrow> om_Namespace (gs_meta obj) = ns"
  by (auto simp: has_value_def MetaNamespaceIndexFunc_def)

lemma source_Index:
  assumes "cache_ok c"
  shows "\<exists>objs. tsm_Index NamespaceIndex (empty_meta\<lparr>om_Namespace := ns\<rparr>) c = Inr (map Some objs)
    \<and> mset objs = mset (filter (\<lambda>obj. om_Namespace (gs_meta obj) = ns) (tsm_List c))"
proof -
  have f: "map_of (tsm_indexers c) NamespaceIndex = Some MetaNamespaceIndexFunc"
    using assms by (simp add: cache_ok_def source_indexers_def)
  define s where "s = Insert (NewString []) (List (index_set (tsm_indices c) NamespaceIndex ns))"
  have s: "k |\<in>| s \<longleftrightarrow> k |\<in>| index_set (tsm_indices c) NamespaceIndex ns" for k
    using strings.has_ins strings.has_new strings.set_lst by (simp add: s_def Has_def)
  have inv: "tsm_inv c" using assms by (simp add: cache_ok_def)
  from items_at_index [OF inv f s] obtain keys where
    keys: "items_at c (List s) = map (\<lambda>k. Some (the (map_of (tsm_items c) k))) keys" "distinct keys"
      "set keys = {k. \<exists>obj. map_of (tsm_items c) k = Some obj \<and> has_value MetaNamespaceIndexFunc obj ns}" by blast
  have "tsm_Index NamespaceIndex (empty_meta\<lparr>om_Namespace := ns\<rparr>) c = Inr (items_at c (List s))"
    by (simp add: tsm_Index_def f MetaNamespaceIndexFunc_def s_def)
  moreover have "mset (map (\<lambda>k. the (map_of (tsm_items c) k)) keys) = mset (filter (\<lambda>obj. has_value MetaNamespaceIndexFunc obj ns) (tsm_List c))"
    unfolding tsm_List_def by (rule items_by_keys [OF _ keys(2,3)]) (use inv in \<open>simp add: tsm_inv_def\<close>)
  ultimately show ?thesis
    by (intro exI [of _ "map (\<lambda>k. the (map_of (tsm_items c) k)) keys"]) (simp add: keys(1) has_namespace comp_def)
qed

end
