(* ===== verification/ControllerLoop.thy ===== *)
theory ControllerLoop
  imports Controller ReconcileLoop Demo SourceCache
begin

text \<open>
  The controller of GitLabSources: the event handlers \<open>NewController\<close> installs and the keys
  they enqueue, and what holds of \<open>Reconcile\<close> when the workers of the controller run it.
\<close>

section \<open>Event handlers\<close>

definition Enqueue :: "notified \<Rightarrow> (string, 'w) controller \<Rightarrow> (string, 'w) controller" where
  "Enqueue obj = EnqueueKey (DeletionHandlingMetaNamespaceKeyFunc obj)"

text \<open>\<open>AddFunc: impl.Enqueue, UpdateFunc: controller.PassNew(impl.Enqueue), DeleteFunc: impl.Enqueue\<close>\<close>

fun event_handler :: "notification \<Rightarrow> (string, 'w) controller \<Rightarrow> (string, 'w) controller" where
  "event_handler (OnAdd obj) = Enqueue (Object obj)"
| "event_handler (OnUpdate old new) = Enqueue (Object new)"
| "event_handler (OnDelete obj) = Enqueue obj"

lemma event_handler_enqueues: "event_handler n s = EnqueueKey (notified_key n) s"
  by (cases n rule: event_handler.cases) (simp_all add: Enqueue_def DeletionHandlingMetaNamespaceKeyFunc_def)

text \<open>A batch of notifications puts all their keys into the queue.\<close>

lemma enqueued_all:
  "\<not> q_shuttingDown (c_queue s) \<Longrightarrow>
     set (map notified_key ns) \<subseteq> q_dirty (c_queue (fold event_handler ns s)) \<and> q_dirty (c_queue s) \<subseteq> q_dirty (c_queue (fold event_handler ns s))"
proof (induction ns arbitrary: s)
  case (Cons n ns)
  let ?t = "event_handler n s"
  have "c_queue ?t = q_Add (notified_key n) (c_queue s)" by (simp add: event_handler_enqueues EnqueueKey_def)
  then have "\<not> q_shuttingDown (c_queue ?t)" "notified_key n \<in> q_dirty (c_queue ?t)" "q_dirty (c_queue s) \<subseteq> q_dirty (c_queue ?t)"
    using Cons.prems by (auto simp: q_Add_def Let_def)
  with Cons.IH [of ?t] show ?case by auto
qed simp

text \<open>The key of an object leads back to it.\<close>

lemma SplitMetaNamespaceKey_key:
  assumes "CHR ''/'' \<notin> set (om_Namespace m)" and "CHR ''/'' \<notin> set (om_Name m)"
  shows "SplitMetaNamespaceKey (MetaNamespaceKeyFunc m) = Inr (om_Namespace m, om_Name m)"
proof (cases "om_Namespace m = []")
  case True
  then show ?thesis
    using assms(2) by (simp add: MetaNamespaceKeyFunc_def SplitMetaNamespaceKey_def SplitByte_none)
next
  case False
  then show ?thesis using SplitMetaNamespaceKey_join [OF assms] by (simp add: MetaNamespaceKeyFunc_def)
qed

section \<open>The reconciler as the controller sees it\<close>

text \<open>
  \<open>controller.Reconciler\<close>: what the controller needs of a reconciler for a property of the
  world to hold at all times.  Each run keeps it, and so does what others do.
\<close>

locale keyed_reconciler =
  fixes run :: "'k \<Rightarrow> ('w, unit) go" and env :: "'w \<Rightarrow> 'w \<Rightarrow> bool" and good :: "'w \<Rightarrow> bool"
  assumes run_good: "good w \<Longrightarrow> good (snd (run k w))"
    and env_good: "good w \<Longrightarrow> env w w' \<Longrightarrow> good w'"
begin

lemma step_good: "ctl_step run env s l t \<Longrightarrow> good (c_world s) \<Longrightarrow> good (c_world t)"
proof (induction rule: ctl_step.induct)
  case (run s i k res w bucket)
  then show ?case using run_good [of "c_world s" k] by simp
qed (auto intro: env_good)

lemma reach_good: "ctl_reach run env s\<^sub>0 s \<Longrightarrow> good (c_world s\<^sub>0) \<Longrightarrow> good (c_world s)"
  by (induction rule: ctl_reach.induct) (auto intro: step_good)

end

text \<open>
  What changes the cache besides the reconciler: the informer, which delivers sources whose
  statuses the reconciler has written.
\<close>

definition informer_change :: "rstate \<Rightarrow> rstate \<Rightarrow> bool" where
  "informer_change s t \<longleftrightarrow> (\<exists>c. t = s\<lparr>st_cache := c\<rparr> \<and> (\<forall>k src. c k = Some src \<longrightarrow> good_status (Status src)))"

lemma informer_change_good: "informer_change s t \<Longrightarrow> cache_good t"
  by (auto simp: informer_change_def cache_good_def)

interpretation keys: keyed_reconciler "Reconcile (newReconciler env scheme img)" informer_change cache_good for env scheme img
  by unfold_locales (rule main.good_Reconcile, assumption, rule informer_change_good)

lemma nil_ref_panics:
  assumes "SecretKeyRef (AccessToken (Spec (st_src s))) = None"
  shows "fst (reconcile r s) = Panic"
proof -
  have "Spec (st_src (marked OpInit s)) = Spec (st_src s)" by simp
  then have "wpG (reconcile r) (\<lambda>_ _. False) (\<lambda>_ _. False) (\<lambda>_. True) s"
    using assms by (simp add: reconcile_def wp_seqG wp_seq_funs wp_ops wp_thenG secretsStage_def wp_withSrc wp_onErr secretFrom_def wp_panicG)
  then show ?thesis by (cases "reconcile r s") (auto simp: wpG_def split: outcome.splits)
qed

text \<open>A source without an access token reference makes its run panic.\<close>

lemma Reconcile_nil_ref:
  assumes "SplitMetaNamespaceKey key = Inr (ns, name)" and "st_cache s (lister_key ns name) = Some src"
    and "om_DeletionTimestamp (gs_meta src) = None" and "SecretKeyRef (AccessToken (Spec src)) = None"
  shows "fst (Reconcile r key s) = Panic"
proof -
  have "fst (reconcile r (s\<lparr>st_src := src\<rparr>)) = Panic" by (rule nil_ref_panics) (simp add: assms(4))
  then have "wpG (process r src) (\<lambda>_ _. False) (\<lambda>_ _. False) (\<lambda>_. True) s"
    using assms(3) unfolding process_def wp_seqG wp_modSrc wp_onErr
    by (cases "reconcile r (s\<lparr>st_src := src\<rparr>)") (auto simp: wpG_def)
  then show ?thesis
    using assms(1,2) by (cases "process r src s") (auto simp: Reconcile_eq wpG_def split: outcome.splits)
qed

section \<open>A controller to try the theorems on\<close>

text \<open>Two workers, one of which has the key of the source.\<close>

definition busy_controller :: "'w \<Rightarrow> (string, 'w) controller" where
  "busy_controller w = set_worker 0 (Busy ''ns/src'')
     ((ctl_init 2 w)\<lparr>c_queue := q_New\<lparr>q_processing := {''ns/src''}\<rparr>\<rparr>)"

lemma busy_reach: "ctl_reach run env (ctl_init 2 w) (busy_controller w)"
proof -
  let ?s0 = "ctl_init 2 w :: (string, 'a) controller" and ?k = "''ns/src''"
  have q: "q_Get (q_Add ?k q_New) = (Got ?k, q_New\<lparr>q_processing := {?k}\<rparr>)"
    by (simp add: q_Get_def q_Add_def q_New_def Let_def)
  have one: "ctl_step run env ?s0 (Enqueued ?k) (EnqueueKey ?k ?s0)"
    by (rule ctl_step.enqueue) (simp add: ctl_init_def)
  have "ctl_step run env (EnqueueKey ?k ?s0) (Started 0 ?k) (set_worker 0 (Busy ?k) ((EnqueueKey ?k ?s0)\<lparr>c_queue := q_New\<lparr>q_processing := {?k}\<rparr>\<rparr>))"
    by (rule ctl_step.start) (simp_all add: ctl_init_def q)
  moreover have "set_worker 0 (Busy ?k) ((EnqueueKey ?k ?s0)\<lparr>c_queue := q_New\<lparr>q_processing := {?k}\<rparr>\<rparr>) = busy_controller w"
    by (simp add: busy_controller_def EnqueueKey_def)
  ultimately show ?thesis using one ctl_reach.intros by metis
qed

lemma busy_fields [simp]:
  "c_workers (busy_controller w) 0 = Busy ''ns/src''" "\<not> c_crashed (busy_controller w)" "\<not> chan_full (busy_controller w)"
  "c_world (busy_controller w) = w"
  by (simp_all add: busy_controller_def ctl_init_def chan_full_def waitingCap_def)

text \<open>The run of the steady source of the demonstration.\<close>

lemma demo_key: "SplitMetaNamespaceKey ''ns/src'' = Inr (''ns'', ''src'')"
  using SplitMetaNamespaceKey_join [of "''ns''" "''src''"] by simp

lemma demo_Reconcile: "fst (Reconcile (demo_reconciler demo_env) ''ns/src'' (demo_state demo_source)) = Ok ()"
proof -
  let ?s = "demo_state demo_source"
  have run: "reconcile (demo_reconciler demo_env) (demo_state demo_source)
      = (Ok (), asked (steady_reads demo_source (demo_selector ''access'') (demo_selector ''secret'')) ?s)"
    using steady_reconcile [of ?s "demo_selector ''access''" "demo_selector ''secret''" "demo_reconciler demo_env"] demo_steady demo_answers
    by (simp add: demo_state_def) (simp add: demo_source_def demo_spec_def)
  have s: "?s\<lparr>st_src := demo_source\<rparr> = ?s" "st_cache ?s (lister_key ''ns'' ''src'') = Some demo_source"
    by (simp_all add: demo_state_def lister_key_def)
  have src: "st_src (asked rs ?s) = demo_source" for rs by (simp add: demo_state_def)
  have "om_DeletionTimestamp (gs_meta demo_source) = None" by (simp add: demo_source_def demo_meta_def empty_meta_def)
  then have "process (demo_reconciler demo_env) demo_source ?s
      = (Ok (), asked (steady_reads demo_source (demo_selector ''access'') (demo_selector ''secret'')) ?s)"
    using run s(1) writeBack_same [of demo_source "asked _ ?s", unfolded src]
    by (simp add: process_eq onErr_def)
  then show ?thesis using demo_key s(2) by (simp add: Reconcile_eq)
qed

end
