(* ===== verification/ControllerProperties.thy ===== *)
theory ControllerProperties
  imports ControllerLoop
begin

text \<open>
  The properties of the controller: its queue and workers, and \<open>Reconcile\<close> under it.
\<close>

section \<open>Queue and workers\<close>

text \<open>C10: in every state the controller reaches, whatever the reconciler and its surroundings
  do, no key is worked on by two workers at once or twice in the queue; the keys in
  processing are those of the busy workers, and the queue holds the dirty keys that are not
  in processing, as the comments of the queue promise.\<close>

theorem controller_exclusive:
  assumes "ctl_reach run env (ctl_init n w) s"
  shows "(held (c_workers s i) = Some k \<longrightarrow> held (c_workers s j) = Some k \<longrightarrow> i = j)
    \<and> distinct (q_queue (c_queue s)) \<and> set (q_queue (c_queue s)) = q_dirty (c_queue s) - q_processing (c_queue s)
    \<and> (k \<in> q_processing (c_queue s) \<longleftrightarrow> (\<exists>j. held (c_workers s j) = Some k))"
  using ctl_inv_reach [OF assms]
  by (auto simp: ctl_inv_def workers_inv_def wq_inv_def one_holder_def holders_def ran_def)

theorem controller_exclusive_witness:
  "\<not> (\<exists>j. j \<noteq> 0 \<and> held (c_workers (busy_controller (demo_state demo_source)) j) = Some ''ns/src'')"
proof -
  have "ctl_reach (Reconcile (demo_reconciler demo_env)) informer_change (ctl_init 2 (demo_state demo_source)) (busy_controller (demo_state demo_source))"
    by (rule busy_reach)
  from controller_exclusive [OF this, of 0 "''ns/src''"] show ?thesis by auto
qed

text \<open>C11: no key is lost: after an event handler has enqueued it, and after a run of it that
  returned an error, a key is due (dirty, waiting for its time, or on its way there), and it
  stays due whatever happens until a worker takes it, unless the queue shuts down.\<close>

theorem no_key_lost:
  assumes "ctl_step run env s l t" and "\<not> q_shuttingDown (c_queue t)"
    and "l = Enqueued k \<or> (\<exists>i e. l = Ran i k (Err e)) \<or> (due s k \<and> (\<forall>i. l \<noteq> Started i k))"
  shows "due t k"
proof -
  from assms(3) consider "l = Enqueued k" | i e where "l = Ran i k (Err e)" | "due s k" "\<And>i. l \<noteq> Started i k" by blast
  then show ?thesis using assms(1,2) by cases (auto intro: enqueued_due failed_due due_step)
qed

theorem no_key_lost_witness:
  "due (event_handler (OnAdd demo_source) (busy_controller (demo_state demo_source))) ''ns/src''"
proof -
  let ?s = "busy_controller (demo_state demo_source)" and ?run = "Reconcile (demo_reconciler demo_env)"
  have key: "notified_key (OnAdd demo_source) = ''ns/src''"
    by (simp add: MetaNamespaceKeyFunc_def demo_source_def demo_meta_def)
  have "ctl_step ?run informer_change ?s (Enqueued ''ns/src'') (event_handler (OnAdd demo_source) ?s)"
    unfolding event_handler_enqueues key by (rule ctl_step.enqueue) simp
  moreover have "\<not> q_shuttingDown (c_queue (event_handler (OnAdd demo_source) ?s))"
    unfolding event_handler_enqueues by (simp add: busy_controller_def q_New_def)
  ultimately show ?thesis by (rule no_key_lost) simp
qed

text \<open>C12: without new events the workers come to rest: from a reachable state they take no more
  than three steps for each dirty key and two for each worker.  Where they can take no
  more, each worker waits or has left, or its run does not return nil, and the queue is
  empty if one waits; so with all runs done no key is dirty or in processing.\<close>

theorem work_terminates:
  assumes "ctl_reach run env (ctl_init n w) s" and "(work run ^^ m) s t"
    and "\<not> c_crashed s" and "length (c_chan s) < waitingCap"
  shows "m \<le> 3 * card (q_dirty (c_queue s)) + 2 * n
    \<and> ((\<nexists>u. work run t u) \<longrightarrow>
        (\<forall>i k. held (c_workers t i) = Some k \<longrightarrow> fst (run k (c_world t)) \<noteq> Ok ())
        \<and> ((\<exists>i. c_workers t i = Idle) \<longrightarrow> q_queue (c_queue t) = [] \<and> q_dirty (c_queue t) \<subseteq> q_processing (c_queue t)))"
proof -
  have exited: "\<forall>i\<ge>n. c_workers s i = Exited" using assms(1) by (rule reach_exited)
  have run: "m + load n t \<le> load n s" "resting_inv n t"
    using work_run_bound [OF assms(2)] ctl_inv_reach [OF assms(1)] exited assms(3,4) by (simp_all add: resting_inv_def)
  note stuck = work_stuck [OF run(2)]
  have "m \<le> 3 * card (q_dirty (c_queue s)) + 2 * n" using run(1) load_le [of n s] by simp
  moreover have "fst (run k (c_world t)) \<noteq> Ok ()" if "\<nexists>u. work run t u" "held (c_workers t i) = Some k" for i k
    using stuck(1,2) [OF that(1), of i k] that(2) by (cases "c_workers t i") auto
  moreover have "q_queue (c_queue t) = [] \<and> q_dirty (c_queue t) \<subseteq> q_processing (c_queue t)"
    if "\<nexists>u. work run t u" "c_workers t i = Idle" for i
    using stuck(3) [OF that] run(2) by (auto simp: resting_inv_def ctl_inv_def workers_inv_def wq_inv_def)
  ultimately show ?thesis by blast
qed

text \<open>The controller at rest after the run of the one key.\<close>

definition rested_controller :: "'w \<Rightarrow> (string, 'w) controller" where
  "rested_controller w = set_worker 0 Idle (busy_controller w)\<lparr>c_queue := q_New\<rparr>"

lemma rested_work:
  assumes "fst (run ''ns/src'' w) = Ok ()"
  shows "(work run ^^ 2) (busy_controller w) (rested_controller (snd (run ''ns/src'' w)))"
proof -
  let ?k = "''ns/src''" and ?s = "busy_controller w" and ?w = "snd (run ''ns/src'' w)"
  let ?s1 = "after_run 0 ?k (Ok ()) (set_worker 0 (Finishing ?k) (?s\<lparr>c_world := ?w\<rparr>))"
  have "run ?k (c_world ?s) = (Ok (), ?w)" using assms by (simp add: prod_eq_iff)
  from ctl_step.run [of ?s 0 ?k run "Ok ()" ?w "\<lambda>_ _. False" 0, OF _ _ this] have "work run ?s ?s1"
    by (intro work_run) simp
  moreover have "work run ?s1 (set_worker 0 Idle (?s1\<lparr>c_queue := q_Done ?k (c_queue ?s1)\<rparr>))"
    by (rule work_finish, rule ctl_step.finish) (simp_all add: after_run_def)
  moreover have "set_worker 0 Idle (?s1\<lparr>c_queue := q_Done ?k (c_queue ?s1)\<rparr>) = rested_controller ?w"
    by (simp add: rested_controller_def busy_controller_def after_run_def Forget_def limiter_Forget_def set_worker_def
        ctl_init_def q_Done_def q_New_def Let_def fun_eq_iff)
  ultimately show ?thesis by (auto simp: numeral_2_eq_2)
qed

lemma rested_stuck: "\<nexists>u. work run (rested_controller w) u"
proof
  assume "\<exists>u. work run (rested_controller w) u"
  then obtain u where "work run (rested_controller w) u" by blast
  then show False
    by cases (auto elim!: ctl_step.cases simp: rested_controller_def busy_controller_def ctl_init_def q_Get_def q_New_def set_worker_def
        split: if_splits)
qed

theorem work_terminates_witness:
  "\<exists>t. (work (Reconcile (demo_reconciler demo_env)) ^^ 2) (busy_controller (demo_state demo_source)) t
     \<and> c_workers t 0 = Idle \<and> q_dirty (c_queue t) \<subseteq> q_processing (c_queue t)"
proof -
  let ?run = "Reconcile (demo_reconciler demo_env)" and ?w = "demo_state demo_source"
  let ?s = "busy_controller ?w" and ?t = "rested_controller (snd (?run ''ns/src'' ?w))"
  have steps: "(work ?run ^^ 2) ?s ?t" by (rule rested_work) (simp add: demo_Reconcile)
  have idle: "c_workers ?t 0 = Idle" by (simp add: rested_controller_def)
  have "ctl_reach ?run informer_change (ctl_init 2 ?w) ?s" by (rule busy_reach)
  from work_terminates [OF this steps] rested_stuck [of ?run] idle have "q_dirty (c_queue ?t) \<subseteq> q_processing (c_queue ?t)"
    by (simp add: busy_controller_def ctl_init_def waitingCap_def) blast
  with steps idle show ?thesis by blast
qed


section \<open>The reconciler under the controller\<close>

text \<open>With several workers, retries and the informer interleaved in any way, the statuses in
  the cache stay good at all times, if they were at the start and the informer delivers
  good ones.\<close>

theorem controller_cache_good:
  assumes "ctl_reach (Reconcile (newReconciler env scheme img)) informer_change (ctl_init n w) s" and "cache_good w"
  shows "cache_good (c_world s)"
  using keys.reach_good [OF assms(1)] assms(2) by (simp add: ctl_init_def)

theorem controller_cache_good_witness:
  "cache_good (c_world (busy_controller (demo_state fresh_source)))"
  by (rule controller_cache_good [OF busy_reach]) (simp add: cache_good_def demo_state_def fresh_source_def fresh_good)

text \<open>C14: one source can stop the controller: the CRD and \<open>Validate\<close> accept a source whose access
  token names no secret, the run of its key dereferences the nil selector and panics, and
  no step of any worker follows, for any other source.\<close>

theorem one_source_stops_controller:
  assumes "SplitMetaNamespaceKey key = Inr (ns, name)" and "st_cache (c_world s) (lister_key ns name) = Some src"
    and "om_DeletionTimestamp (gs_meta src) = None" and "SecretKeyRef (AccessToken (Spec src)) = None"
    and "ctl_step (Reconcile r) env s (Ran i key res) t"
  shows "Validate src = None \<and> res = Panic \<and> c_crashed t \<and> \<not> ctl_step (Reconcile r) env t l u"
proof -
  have panic: "fst (Reconcile r key (c_world s)) = Panic" by (rule Reconcile_nil_ref [OF assms(1-4)])
  with assms(5) have "res = Panic \<and> c_crashed t" by (auto elim!: ctl_runE simp: after_run_def)
  then show ?thesis using crashed_stuck [of t "Reconcile r" env l u] by (simp add: Validate_def Spec_Validate_def)
qed

definition nil_ref_source :: GitLabSource where
  "nil_ref_source = fresh_source\<lparr>Spec := demo_spec\<lparr>AccessToken := \<lparr>SecretKeyRef = None\<rparr>\<rparr>\<rparr>"

theorem one_source_stops_controller_witness:
  "\<exists>t. ctl_step (Reconcile (demo_reconciler demo_env)) informer_change (busy_controller (demo_state nil_ref_source)) (Ran 0 ''ns/src'' Panic) t
     \<and> c_crashed t"
proof -
  let ?run = "Reconcile (demo_reconciler demo_env)" and ?w = "demo_state nil_ref_source"
  have cached: "st_cache (c_world (busy_controller ?w)) (lister_key ''ns'' ''src'') = Some nil_ref_source"
    by (simp add: demo_state_def lister_key_def)
  have src: "om_DeletionTimestamp (gs_meta nil_ref_source) = None" "SecretKeyRef (AccessToken (Spec nil_ref_source)) = None"
    by (simp_all add: nil_ref_source_def fresh_source_def demo_source_def demo_meta_def empty_meta_def)
  have key: "SplitMetaNamespaceKey ''ns/src'' = Inr (''ns'', ''src'')"
    using SplitMetaNamespaceKey_join [of "''ns''" "''src''"] by simp
  obtain res w where run: "?run ''ns/src'' (c_world (busy_controller ?w)) = (res, w)" by (cases "?run ''ns/src'' (c_world (busy_controller ?w))")
  have step: "ctl_step ?run informer_change (busy_controller ?w) (Ran 0 ''ns/src'' res)
      (after_run 0 ''ns/src'' res (set_worker 0 (Finishing ''ns/src'') (busy_controller ?w\<lparr>c_world := w\<rparr>)))"
    using ctl_step.run [of "busy_controller ?w" 0 "''ns/src''" ?run res w informer_change 0] run by simp
  from one_source_stops_controller [OF key cached src step] step show ?thesis by blast
qed

end
