(* ===== verification/GoHeap.thy ===== *)
theory GoHeap
  imports Prelude
begin

text \<open>
  A store for what Go values share: a pointer, a slice and a map are addresses of cells, or
  nil.  The contract of a deep copy is the locale \<open>deep_copier\<close>; it is closed under the ways
  Go builds a type from others (pointers, slices, pairs of fields, lists of elements), so
  that the copy of a struct meets it if those of its fields do.
\<close>

section \<open>Store\<close>

type_synonym addr = nat

record 'c store =
  cells :: "addr \<rightharpoonup> 'c"
  next_addr :: addr

text \<open>\<open>new(T)\<close> or \<open>make(..)\<close> with what is written to it next, and the value a pointer points to.\<close>

definition alloc :: "'c \<Rightarrow> ('c store, addr) go" where
  "alloc c = (\<lambda>st. (Ok (next_addr st), st\<lparr>cells := (cells st)(next_addr st \<mapsto> c), next_addr := Suc (next_addr st)\<rparr>))"

definition deref :: "('c \<Rightarrow> 'a option) \<Rightarrow> addr \<Rightarrow> ('c store, 'a) go" where
  "deref sel a = (\<lambda>st. (case Option.bind (cells st a) sel of None \<Rightarrow> Panic | Some v \<Rightarrow> Ok v, st))"

definition store_write :: "addr \<Rightarrow> 'c \<Rightarrow> 'c store \<Rightarrow> 'c store" where
  "store_write a c st = st\<lparr>cells := (cells st)(a \<mapsto> c)\<rparr>"

fun store_writes :: "(addr \<times> 'c) list \<Rightarrow> 'c store \<Rightarrow> 'c store" where
  "store_writes [] st = st"
| "store_writes ((a, c) # ws) st = store_writes ws (store_write a c st)"

lemma store_writes_other: "a \<notin> fst ` set ws \<Longrightarrow> cells (store_writes ws st) a = cells st a"
  by (induction ws st rule: store_writes.induct) (auto simp: store_write_def)

text \<open>Nothing beyond the next address is in use; a store that extends another one.\<close>

definition wf_store :: "'c store \<Rightarrow> bool" where
  "wf_store st \<longleftrightarrow> (\<forall>a. next_addr st \<le> a \<longrightarrow> cells st a = None)"

definition extends :: "'c store \<Rightarrow> 'c store \<Rightarrow> bool" where
  "extends st st' \<longleftrightarrow> next_addr st \<le> next_addr st' \<and> (\<forall>a < next_addr st. cells st' a = cells st a)"

lemma extends_refl [simp]: "extends st st"
  by (simp add: extends_def)

lemma extends_trans: "extends a b \<Longrightarrow> extends b c \<Longrightarrow> extends a c"
  by (auto simp: extends_def)

lemma alloc_extends: "wf_store st \<Longrightarrow> alloc c st = (Ok a, st') \<Longrightarrow>
    wf_store st' \<and> extends st st' \<and> a = next_addr st \<and> cells st' a = Some c \<and> next_addr st' = Suc (next_addr st)"
  by (auto simp: alloc_def wf_store_def extends_def)

lemma seq_laws:
  "thenG (thenG m f) g = thenG m (\<lambda>x. thenG (f x) g)" "thenG (retG v) f = f v"
  by (auto simp: thenG_def onErr_def retG_def failG_def fun_eq_iff split: prod.split outcome.split)

lemmas run_simps = thenG_def onErr_def retG_def

section \<open>The contract of a deep copy\<close>

text \<open>
  \<open>R st h v\<close>: in the store \<open>st\<close> the Go value \<open>h\<close> stands for the value \<open>v\<close>, and for no other.  \<open>F st h\<close>: the
  addresses it leads to.  A copy stands for the same value and leads to new addresses only,
  and no cell that was there is written.
\<close>

locale deep_copier =
  fixes R :: "'c store \<Rightarrow> 'h \<Rightarrow> 'v \<Rightarrow> bool" and F :: "'c store \<Rightarrow> 'h \<Rightarrow> addr set" and copy :: "'h \<Rightarrow> ('c store, 'h) go"
  assumes single: "R st h v \<Longrightarrow> R st h w \<Longrightarrow> v = w"
    and within: "wf_store st \<Longrightarrow> R st h v \<Longrightarrow> F st h \<subseteq> {..<next_addr st}"
    and frame: "R st h v \<Longrightarrow> (\<And>a. a \<in> F st h \<Longrightarrow> cells st' a = cells st a) \<Longrightarrow> R st' h v \<and> F st' h = F st h"
    and copies: "wf_store st \<Longrightarrow> R st h v \<Longrightarrow>
      \<exists>h' st'. copy h st = (Ok h', st') \<and> wf_store st' \<and> extends st st' \<and> R st' h' v \<and> F st' h' \<subseteq> {next_addr st..<next_addr st'}"
begin

lemma kept: "wf_store st \<Longrightarrow> R st h v \<Longrightarrow> extends st st' \<Longrightarrow> R st' h v \<and> F st' h = F st h"
  using within [of st h v] by (intro frame) (auto simp: extends_def)

lemma separate:
  assumes "wf_store st" and "R st h v" and "copy h st = (Ok h', st')"
  shows "R st' h' v \<and> R st' h v \<and> F st' h' \<inter> F st' h = {}"
proof -
  from copies [OF assms(1,2)] assms(3) have c: "extends st st'" "R st' h' v" "F st' h' \<subseteq> {next_addr st..<next_addr st'}" by auto
  from kept [OF assms(1,2) c(1)] within [OF assms(1,2)] c(2,3) show ?thesis by fastforce
qed

lemma writes_other:
  assumes "R st h v" and "fst ` set ws \<inter> F st h = {}"
  shows "R (store_writes ws st) h v"
proof -
  have "cells (store_writes ws st) a = cells st a" if "a \<in> F st h" for a
    using that assms(2) by (intro store_writes_other) blast
  from frame [OF assms(1) this] show ?thesis by blast
qed

end

section \<open>Plain values\<close>

text \<open>What holds no pointer is copied by assignment.\<close>

lemma deep_copier_plain: "deep_copier (\<lambda>_ h v. h = v) (\<lambda>_ _. {}) retG"
  by unfold_locales (simp_all add: retG_def)

section \<open>Pairs of fields\<close>

fun rep_pair :: "('c store \<Rightarrow> 'a \<Rightarrow> 'x \<Rightarrow> bool) \<Rightarrow> ('c store \<Rightarrow> 'b \<Rightarrow> 'y \<Rightarrow> bool) \<Rightarrow> 'c store \<Rightarrow> 'a \<times> 'b \<Rightarrow> 'x \<times> 'y \<Rightarrow> bool" where
  "rep_pair R1 R2 st (a, b) (x, y) \<longleftrightarrow> R1 st a x \<and> R2 st b y"

fun reach_pair :: "('c store \<Rightarrow> 'a \<Rightarrow> addr set) \<Rightarrow> ('c store \<Rightarrow> 'b \<Rightarrow> addr set) \<Rightarrow> 'c store \<Rightarrow> 'a \<times> 'b \<Rightarrow> addr set" where
  "reach_pair F1 F2 st (a, b) = F1 st a \<union> F2 st b"

fun copy_pair :: "('a \<Rightarrow> ('c store, 'a) go) \<Rightarrow> ('b \<Rightarrow> ('c store, 'b) go) \<Rightarrow> 'a \<times> 'b \<Rightarrow> ('c store, 'a \<times> 'b) go" where
  "copy_pair c1 c2 (a, b) = thenG (c1 a) (\<lambda>a'. thenG (c2 b) (\<lambda>b'. retG (a', b')))"

lemma deep_copier_pair:
  fixes R1 :: "'c store \<Rightarrow> 'a \<Rightarrow> 'x \<Rightarrow> bool" and R2 :: "'c store \<Rightarrow> 'b \<Rightarrow> 'y \<Rightarrow> bool"
  assumes "deep_copier R1 F1 c1" and "deep_copier R2 F2 c2"
  shows "deep_copier (rep_pair R1 R2) (reach_pair F1 F2) (copy_pair c1 c2)"
proof
  note w1 = deep_copier.within [OF assms(1)] and w2 = deep_copier.within [OF assms(2)]
  note f1 = deep_copier.frame [OF assms(1)] and f2 = deep_copier.frame [OF assms(2)]
  fix st :: "'c store" and h :: "'a \<times> 'b" and v :: "'x \<times> 'y"
  obtain a b x y where h: "h = (a, b)" and v: "v = (x, y)" by (cases h, cases v)
  show "v = w" if "rep_pair R1 R2 st h v" "rep_pair R1 R2 st h w" for w
    using that deep_copier.single [OF assms(1)] deep_copier.single [OF assms(2)] by (cases w) (simp add: h v, blast)
  show "reach_pair F1 F2 st h \<subseteq> {..<next_addr st}" if "wf_store st" "rep_pair R1 R2 st h v"
    using that w1 [of st a x] w2 [of st b y] by (simp add: h v)
  show "rep_pair R1 R2 st' h v \<and> reach_pair F1 F2 st' h = reach_pair F1 F2 st h"
    if "rep_pair R1 R2 st h v" "\<And>a. a \<in> reach_pair F1 F2 st h \<Longrightarrow> cells st' a = cells st a" for st'
    using that f1 [of st a x st'] f2 [of st b y st'] by (simp add: h v)
  assume wf: "wf_store st" and "rep_pair R1 R2 st h v"
  then have r: "R1 st a x" "R2 st b y" by (simp_all add: h v)
  from deep_copier.copies [OF assms(1) wf r(1)] obtain a' st1 where
    1: "c1 a st = (Ok a', st1)" "wf_store st1" "extends st st1" "R1 st1 a' x" "F1 st1 a' \<subseteq> {next_addr st..<next_addr st1}" by blast
  have "R2 st1 b y" using deep_copier.kept [OF assms(2) wf r(2) 1(3)] by simp
  from deep_copier.copies [OF assms(2) 1(2) this] obtain b' st2 where
    2: "c2 b st1 = (Ok b', st2)" "wf_store st2" "extends st1 st2" "R2 st2 b' y" "F2 st2 b' \<subseteq> {next_addr st1..<next_addr st2}" by blast
  have le: "next_addr st \<le> next_addr st1" "next_addr st1 \<le> next_addr st2" using 1(3) 2(3) by (simp_all add: extends_def)
  have "F1 st1 a' \<subseteq> {next_addr st..<next_addr st2}" "F2 st2 b' \<subseteq> {next_addr st..<next_addr st2}"
    using 1(5) 2(5) le by (force, force)
  moreover have "R1 st2 a' x \<and> F1 st2 a' = F1 st1 a'" by (rule deep_copier.kept [OF assms(1) 1(2,4) 2(3)])
  moreover have "copy_pair c1 c2 h st = (Ok (a', b'), st2)"
    by (simp add: h run_simps 1(1) 2(1))
  ultimately show "\<exists>h' st'. copy_pair c1 c2 h st = (Ok h', st') \<and> wf_store st' \<and> extends st st' \<and> rep_pair R1 R2 st' h' v
      \<and> reach_pair F1 F2 st' h' \<subseteq> {next_addr st..<next_addr st'}"
    using 2(2,4) extends_trans [OF 1(3) 2(3)] by (auto simp: v)
qed

section \<open>Elements of a slice\<close>

text \<open>\<open>for i := range *in { (*in)[i].DeepCopyInto(&(*out)[i]) }\<close>\<close>

fun copy_list :: "('a \<Rightarrow> ('c store, 'a) go) \<Rightarrow> 'a list \<Rightarrow> ('c store, 'a list) go" where
  "copy_list c [] = retG []"
| "copy_list c (x # xs) = thenG (c x) (\<lambda>y. thenG (copy_list c xs) (\<lambda>ys. retG (y # ys)))"

definition rep_list :: "('c store \<Rightarrow> 'a \<Rightarrow> 'x \<Rightarrow> bool) \<Rightarrow> 'c store \<Rightarrow> 'a list \<Rightarrow> 'x list \<Rightarrow> bool" where
  "rep_list R st = list_all2 (R st)"

definition reach_list :: "('c store \<Rightarrow> 'a \<Rightarrow> addr set) \<Rightarrow> 'c store \<Rightarrow> 'a list \<Rightarrow> addr set" where
  "reach_list F st xs = (\<Union>x\<in>set xs. F st x)"

lemma copy_list_copies:
  assumes "deep_copier R F c"
  shows "wf_store st \<Longrightarrow> rep_list R st xs vs \<Longrightarrow>
    \<exists>ys st'. copy_list c xs st = (Ok ys, st') \<and> wf_store st' \<and> extends st st' \<and> rep_list R st' ys vs
      \<and> reach_list F st' ys \<subseteq> {next_addr st..<next_addr st'}"
proof (induction xs arbitrary: vs st)
  case Nil
  then show ?case by (auto simp: rep_list_def reach_list_def retG_def)
next
  case (Cons x xs)
  then obtain v vs' where v: "vs = v # vs'" "R st x v" "rep_list R st xs vs'" by (auto simp: rep_list_def list_all2_Cons1)
  from deep_copier.copies [OF assms Cons.prems(1) v(2)] obtain y st1 where
    1: "c x st = (Ok y, st1)" "wf_store st1" "extends st st1" "R st1 y v" "F st1 y \<subseteq> {next_addr st..<next_addr st1}" by blast
  have "rep_list R st1 xs vs'"
    using v(3) deep_copier.kept [OF assms Cons.prems(1) _ 1(3)] unfolding rep_list_def by (auto elim: list_all2_mono)
  from Cons.IH [OF 1(2) this] obtain ys st2 where
    2: "copy_list c xs st1 = (Ok ys, st2)" "wf_store st2" "extends st1 st2" "rep_list R st2 ys vs'"
      "reach_list F st2 ys \<subseteq> {next_addr st1..<next_addr st2}" by blast
  have le: "next_addr st \<le> next_addr st1" "next_addr st1 \<le> next_addr st2" using 1(3) 2(3) by (simp_all add: extends_def)
  have y: "R st2 y v \<and> F st2 y = F st1 y" by (rule deep_copier.kept [OF assms 1(2,4) 2(3)])
  have "reach_list F st2 (y # ys) = F st1 y \<union> reach_list F st2 ys" using y by (simp add: reach_list_def)
  also have "\<dots> \<subseteq> {next_addr st..<next_addr st2}" using 1(5) 2(5) le by force
  finally have "reach_list F st2 (y # ys) \<subseteq> {next_addr st..<next_addr st2}" .
  moreover have "copy_list c (x # xs) st = (Ok (y # ys), st2)"
    by (simp add: run_simps 1(1) 2(1))
  ultimately show ?case
    using 2(2,4) extends_trans [OF 1(3) 2(3)] y v(1) by (auto simp: rep_list_def)
qed

lemma deep_copier_list:
  fixes R :: "'c store \<Rightarrow> 'a \<Rightarrow> 'x \<Rightarrow> bool"
  assumes "deep_copier R F c"
  shows "deep_copier (rep_list R) (reach_list F) (copy_list c)"
proof
  fix st :: "'c store" and xs :: "'a list" and vs :: "'x list"
  show "vs = ws" if "rep_list R st xs vs" "rep_list R st xs ws" for ws
    using that deep_copier.single [OF assms, of st] unfolding rep_list_def list_all2_conv_all_nth by (auto intro!: nth_equalityI)
  have all: "\<exists>v. R st x v" if "rep_list R st xs vs" "x \<in> set xs" for x
    using that by (auto simp: rep_list_def list_all2_conv_all_nth in_set_conv_nth)
  show "reach_list F st xs \<subseteq> {..<next_addr st}" if "wf_store st" "rep_list R st xs vs"
    using deep_copier.within [OF assms that(1)] all [OF that(2)] by (fastforce simp: reach_list_def)
  show "rep_list R st' xs vs \<and> reach_list F st' xs = reach_list F st xs"
    if r: "rep_list R st xs vs" and c: "\<And>a. a \<in> reach_list F st xs \<Longrightarrow> cells st' a = cells st a" for st'
  proof -
    have f: "R st' x v \<and> F st' x = F st x" if "R st x v" "x \<in> set xs" for x v
      using that c by (intro deep_copier.frame [OF assms]) (auto simp: reach_list_def)
    have "list_all2 (R st') xs vs"
      using r f unfolding rep_list_def by (auto simp: list_all2_conv_all_nth)
    moreover have "F st' x = F st x" if "x \<in> set xs" for x using f all [OF r] that by blast
    ultimately show ?thesis by (simp add: rep_list_def reach_list_def)
  qed
qed (rule copy_list_copies [OF assms])

section \<open>Pointers, slices, maps\<close>

text \<open>
  \<open>if in.F != nil { out.F = new(T); in.F.DeepCopyInto(out.F) }\<close>, where \<open>DeepCopyInto\<close> starts with
  \<open>*out = *in\<close>: the new cell first shares what the old one leads to.  \<open>sel\<close> and \<open>mk\<close> tell the
  cells of the type apart, and \<open>nil\<close> is the value nil stands for.
\<close>

definition copy_ref :: "('c \<Rightarrow> 'a option) \<Rightarrow> ('a \<Rightarrow> 'c) \<Rightarrow> ('a \<Rightarrow> ('c store, 'a) go) \<Rightarrow> addr option \<Rightarrow> ('c store, addr option) go" where
  "copy_ref sel mk c p =
     (case p of
        None \<Rightarrow> retG None
      | Some a \<Rightarrow>
          thenG (deref sel a) (\<lambda>v.
          thenG (alloc (mk v)) (\<lambda>b.
          thenG (c v) (\<lambda>v'.
          seqG (modG (store_write b (mk v')))
          (retG (Some b))))))"

definition rep_ref :: "('c \<Rightarrow> 'a option) \<Rightarrow> 'v \<Rightarrow> ('c store \<Rightarrow> 'a \<Rightarrow> 'v \<Rightarrow> bool) \<Rightarrow> 'c store \<Rightarrow> addr option \<Rightarrow> 'v \<Rightarrow> bool" where
  "rep_ref sel nil R st p v =
     (case p of
        None \<Rightarrow> v = nil
      | Some a \<Rightarrow> (case Option.bind (cells st a) sel of None \<Rightarrow> False | Some h \<Rightarrow> R st h v))"

definition reach_ref :: "('c \<Rightarrow> 'a option) \<Rightarrow> ('c store \<Rightarrow> 'a \<Rightarrow> addr set) \<Rightarrow> 'c store \<Rightarrow> addr option \<Rightarrow> addr set" where
  "reach_ref sel F st p =
     (case p of
        None \<Rightarrow> {}
      | Some a \<Rightarrow> insert a (case Option.bind (cells st a) sel of None \<Rightarrow> {} | Some h \<Rightarrow> F st h))"

lemma deep_copier_ref:
  fixes R :: "'c store \<Rightarrow> 'a \<Rightarrow> 'v \<Rightarrow> bool"
  assumes "deep_copier R F c" and mk: "\<And>h. sel (mk h) = Some h"
  shows "deep_copier (rep_ref sel nil R) (reach_ref sel F) (copy_ref sel mk c)"
proof
  note w = deep_copier.within [OF assms(1)] and f = deep_copier.frame [OF assms(1)]
  fix st :: "'c store" and p and v :: 'v
  show "v = w" if "rep_ref sel nil R st p v" "rep_ref sel nil R st p w" for w
    using that deep_copier.single [OF assms(1)] by (auto simp: rep_ref_def split: option.splits)
  show "reach_ref sel F st p \<subseteq> {..<next_addr st}" if "wf_store st" "rep_ref sel nil R st p v"
  proof (cases p)
    case (Some a)
    with that obtain h where h: "Option.bind (cells st a) sel = Some h" "R st h v" by (auto simp: rep_ref_def split: option.splits)
    then have "a < next_addr st" using that(1) by (cases "a < next_addr st") (auto simp: wf_store_def)
    then show ?thesis using w [OF that(1) h(2)] h Some by (simp add: reach_ref_def)
  qed (simp add: reach_ref_def)
  show "rep_ref sel nil R st' p v \<and> reach_ref sel F st' p = reach_ref sel F st p"
    if "rep_ref sel nil R st p v" "\<And>a. a \<in> reach_ref sel F st p \<Longrightarrow> cells st' a = cells st a" for st'
  proof (cases p)
    case (Some a)
    with that obtain h where h: "Option.bind (cells st a) sel = Some h" "R st h v" by (auto simp: rep_ref_def split: option.splits)
    have "cells st' a = cells st a" using that(2) Some by (simp add: reach_ref_def)
    moreover have "R st' h v \<and> F st' h = F st h" using that(2) Some h by (intro f) (auto simp: reach_ref_def)
    ultimately show ?thesis using h Some by (simp add: rep_ref_def reach_ref_def)
  qed (use that in \<open>simp add: rep_ref_def reach_ref_def\<close>)
  assume wf: "wf_store st" and r: "rep_ref sel nil R st p v"
  show "\<exists>q st'. copy_ref sel mk c p st = (Ok q, st') \<and> wf_store st' \<and> extends st st' \<and> rep_ref sel nil R st' q v
      \<and> reach_ref sel F st' q \<subseteq> {next_addr st..<next_addr st'}"
  proof (cases p)
    case None
    then show ?thesis using wf r by (auto simp: copy_ref_def rep_ref_def reach_ref_def retG_def)
  next
    case (Some a)
    with r obtain h where h: "Option.bind (cells st a) sel = Some h" "R st h v" by (auto simp: rep_ref_def split: option.splits)
    obtain b st1 where al: "alloc (mk h) st = (Ok b, st1)" by (simp add: alloc_def)
    note 1 = alloc_extends [OF wf al]
    then have wf1: "wf_store st1" and e1: "extends st st1" and b: "b = next_addr st" "next_addr st1 = Suc b" by simp_all
    have "R st1 h v" using deep_copier.kept [OF assms(1) wf h(2) e1] by simp
    from deep_copier.copies [OF assms(1) wf1 this] obtain h' st2 where
      2: "c h st1 = (Ok h', st2)" "wf_store st2" "extends st1 st2" "R st2 h' v" "F st2 h' \<subseteq> {next_addr st1..<next_addr st2}" by blast
    define st3 where "st3 = store_write b (mk h') st2"
    have s3: "cells st3 b = Some (mk h')" "next_addr st3 = next_addr st2" "\<And>x. x \<noteq> b \<Longrightarrow> cells st3 x = cells st2 x"
      by (simp_all add: st3_def store_write_def)
    have le: "b < next_addr st2" using 2(3) b by (simp add: extends_def)
    have "b \<notin> F st2 h'" using 2(5) b by auto
    then have k: "R st3 h' v \<and> F st3 h' = F st2 h'" using s3(3) by (intro deep_copier.frame [OF assms(1) 2(4)]) metis
    have "deref sel a st = (Ok h, st)" using h(1) by (simp add: deref_def)
    then have "copy_ref sel mk c p st = (Ok (Some b), st3)"
      by (simp add: copy_ref_def Some run_simps seqG_def modG_def 2(1) al st3_def)
    moreover have "wf_store st3" using 2(2) le s3 by (auto simp: wf_store_def)
    moreover have "extends st st3" using e1 2(3) s3 b by (auto simp: extends_def)
    moreover have "rep_ref sel nil R st3 (Some b) v" using k by (simp add: rep_ref_def mk s3(1))
    moreover have "reach_ref sel F st3 (Some b) \<subseteq> {next_addr st..<next_addr st3}"
      using 2(5) k le b s3(2) unfolding reach_ref_def option.case s3(1) bind.bind_lunit mk by auto
    ultimately show ?thesis by blast
  qed
qed

lemma copy_ref_nil: "copy_ref sel mk c p st = (Ok q, st') \<Longrightarrow> q = None \<longleftrightarrow> p = None"
  by (cases p) (auto simp: copy_ref_def run_simps seqG_def failG_def split: prod.splits outcome.splits)

text \<open>A field that is nil or points to a value.\<close>

definition rep_some :: "('c store \<Rightarrow> 'a \<Rightarrow> 'v \<Rightarrow> bool) \<Rightarrow> 'c store \<Rightarrow> 'a \<Rightarrow> 'v option \<Rightarrow> bool" where
  "rep_some R st h v = (case v of None \<Rightarrow> False | Some w \<Rightarrow> R st h w)"

lemma deep_copier_some:
  assumes "deep_copier R F c"
  shows "deep_copier (rep_some R) F c"
proof (unfold_locales, goal_cases)
  case (1 st h v w)
  then show ?case using deep_copier.single [OF assms, of st h] by (cases v; cases w) (simp_all add: rep_some_def)
next
  case (2 st h v)
  then show ?case using deep_copier.within [OF assms 2(1)] by (cases v) (auto simp: rep_some_def)
next
  case (3 st h v st')
  then show ?case using deep_copier.frame [OF assms, of st h "the v" st'] by (cases v) (simp_all add: rep_some_def)
next
  case (4 st h v)
  then show ?case using deep_copier.copies [OF assms 4(1), of h "the v"] by (cases v) (simp_all add: rep_some_def)
qed

section \<open>Structs\<close>

text \<open>
  A struct is copied field by field into a shallow copy of itself: \<open>f\<close> takes its pointer
  fields, \<open>g\<close> their values, \<open>k\<close> puts copies of them into the struct, and \<open>P\<close> relates the
  other fields.
\<close>

lemma deep_copier_struct:
  fixes R :: "'c store \<Rightarrow> 'h \<Rightarrow> 'v \<Rightarrow> bool"
  assumes "deep_copier Rp Fp cp"
    and R: "\<And>st h v. R st h v \<longleftrightarrow> Rp st (f h) (g v) \<and> P h v"
    and F: "\<And>st h. F st h = Fp st (f h)"
    and copy: "\<And>h. copy h = thenG (cp (f h)) (\<lambda>t. retG (k h t))"
    and k: "\<And>h t. f (k h t) = t" "\<And>h t v. P (k h t) v = P h v"
    and g: "\<And>h v w. P h v \<Longrightarrow> P h w \<Longrightarrow> g v = g w \<Longrightarrow> v = w"
  shows "deep_copier R F copy"
proof
  fix st :: "'c store" and h :: 'h and v :: 'v
  show "v = w" if "R st h v" "R st h w" for w
    using that deep_copier.single [OF assms(1), of st "f h" "g v" "g w"] g by (simp add: R)
  show "F st h \<subseteq> {..<next_addr st}" if "wf_store st" "R st h v"
    using deep_copier.within [OF assms(1) that(1), of "f h" "g v"] that(2) R [of st h v] F [of st h] by simp
  show "R st' h v \<and> F st' h = F st h" if "R st h v" "\<And>a. a \<in> F st h \<Longrightarrow> cells st' a = cells st a" for st'
    using deep_copier.frame [OF assms(1), of st "f h" "g v" st'] that R F by simp
  assume wf: "wf_store st" and "R st h v"
  then have r: "Rp st (f h) (g v)" "P h v" by (simp_all add: R)
  from deep_copier.copies [OF assms(1) wf r(1)] obtain t st' where
    1: "cp (f h) st = (Ok t, st')" "wf_store st'" "extends st st'" "Rp st' t (g v)" "Fp st' t \<subseteq> {next_addr st..<next_addr st'}" by blast
  have "copy h st = (Ok (k h t), st')" by (simp add: copy run_simps 1(1))
  then show "\<exists>h' st'. copy h st = (Ok h', st') \<and> wf_store st' \<and> extends st st' \<and> R st' h' v \<and> F st' h' \<subseteq> {next_addr st..<next_addr st'}"
    using 1 r(2) by (auto simp: R F k)
qed

end
