(* ===== verification/DeepCopy.thy ===== *)
theory DeepCopy
  imports GoHeap SourceTypes
begin

text \<open>
  The generated deep copies of \<open>zz_generated.deepcopy.go\<close> (sources/v1alpha1), with those of
  the vendored types a source is made of, on a store: the Go structs with their pointers,
  slices and maps as addresses, one definition per \<open>DeepCopyInto\<close>, \<open>DeepCopy\<close> and
  \<open>DeepCopyObject\<close>, and when a struct in the store stands for a value of the model.  Every
  copy meets the contract \<open>deep_copier\<close>; the interpretations at the end are on the copies of
  a source and of a list of sources.
\<close>

section \<open>Structs with pointers\<close>

record hSelector =
  hk_Name :: string
  hk_Key :: string
  hk_Optional :: "addr option"

record hOwner =
  ho_APIVersion :: string
  ho_Kind :: string
  ho_Name :: string
  ho_UID :: string
  ho_Controller :: "addr option"
  ho_BlockOwnerDeletion :: "addr option"

record hMeta =
  hm_Name :: string
  hm_GenerateName :: string
  hm_Namespace :: string
  hm_UID :: string
  hm_ResourceVersion :: string
  hm_DeletionTimestamp :: "addr option"
  hm_Labels :: "addr option"
  hm_Annotations :: "addr option"
  hm_OwnerReferences :: "addr option"
  hm_Finalizers :: "addr option"

record hSecretValue =
  hv_SecretKeyRef :: "addr option"

record hSpec =
  hs_ServiceAccountName :: string
  hs_ProjectURL :: string
  hs_EventTypes :: "addr option"
  hs_AccessToken :: hSecretValue
  hs_SecretToken :: hSecretValue
  hs_Sink :: "addr option"
  hs_URI :: "addr option"
  hs_Secure :: bool

record hStatus =
  ht_ObservedGeneration :: int
  ht_Conditions :: "addr option"
  ht_WebhookIDKey :: string
  ht_SinkURI :: string

record hSource =
  hg_APIVersion :: string
  hg_Kind :: string
  hg_meta :: hMeta
  hg_Spec :: hSpec
  hg_Status :: hStatus

record hSourceList =
  hl_APIVersion :: string
  hl_Kind :: string
  hl_ResourceVersion :: string
  hl_Items :: "addr option"

text \<open>The value of a list of sources.\<close>

record GitLabSourceList =
  gl_APIVersion :: string
  gl_Kind :: string
  gl_ResourceVersion :: string
  gl_Items :: "GitLabSource list"

text \<open>What a pointer can point to; a slice is its array, a map its table.\<close>

datatype cell =
    CBool bool
  | CTime nat
  | CString string
  | CStrings "string list"
  | CLabels labels
  | CObjectRef ObjectReference
  | CSelector hSelector
  | COwners "hOwner list"
  | CConditions "Condition list"
  | CSecretValue hSecretValue
  | CSpec hSpec
  | CStatus hStatus
  | CSource hSource
  | CItems "hSource list"
  | CSourceList hSourceList

type_synonym heap = "cell store"

definition as_bool :: "cell \<Rightarrow> bool option" where "as_bool c = (case c of CBool b \<Rightarrow> Some b | _ \<Rightarrow> None)"
definition as_time :: "cell \<Rightarrow> nat option" where "as_time c = (case c of CTime t \<Rightarrow> Some t | _ \<Rightarrow> None)"
definition as_string :: "cell \<Rightarrow> string option" where "as_string c = (case c of CString s \<Rightarrow> Some s | _ \<Rightarrow> None)"
definition as_strings :: "cell \<Rightarrow> string list option" where "as_strings c = (case c of CStrings s \<Rightarrow> Some s | _ \<Rightarrow> None)"
definition as_labels :: "cell \<Rightarrow> labels option" where "as_labels c = (case c of CLabels m \<Rightarrow> Some m | _ \<Rightarrow> None)"
definition as_ref :: "cell \<Rightarrow> ObjectReference option" where "as_ref c = (case c of CObjectRef r \<Rightarrow> Some r | _ \<Rightarrow> None)"
definition as_selector :: "cell \<Rightarrow> hSelector option" where "as_selector c = (case c of CSelector s \<Rightarrow> Some s | _ \<Rightarrow> None)"
definition as_owners :: "cell \<Rightarrow> hOwner list option" where "as_owners c = (case c of COwners s \<Rightarrow> Some s | _ \<Rightarrow> None)"
definition as_conditions :: "cell \<Rightarrow> Condition list option" where "as_conditions c = (case c of CConditions s \<Rightarrow> Some s | _ \<Rightarrow> None)"
definition as_secret_value :: "cell \<Rightarrow> hSecretValue option" where "as_secret_value c = (case c of CSecretValue s \<Rightarrow> Some s | _ \<Rightarrow> None)"
definition as_spec :: "cell \<Rightarrow> hSpec option" where "as_spec c = (case c of CSpec s \<Rightarrow> Some s | _ \<Rightarrow> None)"
definition as_status :: "cell \<Rightarrow> hStatus option" where "as_status c = (case c of CStatus s \<Rightarrow> Some s | _ \<Rightarrow> None)"
definition as_source :: "cell \<Rightarrow> hSource option" where "as_source c = (case c of CSource s \<Rightarrow> Some s | _ \<Rightarrow> None)"
definition as_items :: "cell \<Rightarrow> hSource list option" where "as_items c = (case c of CItems s \<Rightarrow> Some s | _ \<Rightarrow> None)"
definition as_source_list :: "cell \<Rightarrow> hSourceList option" where "as_source_list c = (case c of CSourceList s \<Rightarrow> Some s | _ \<Rightarrow> None)"

lemmas as_defs = as_bool_def as_time_def as_string_def as_strings_def as_labels_def as_ref_def as_selector_def
  as_owners_def as_conditions_def as_secret_value_def as_spec_def as_status_def as_source_def as_items_def as_source_list_def

section \<open>The copies\<close>

definition SecretKeySelector_DeepCopyInto :: "hSelector \<Rightarrow> (heap, hSelector) go" where
  "SecretKeySelector_DeepCopyInto h =
     thenG (copy_ref as_bool CBool retG (hk_Optional h)) (\<lambda>p.
     retG (h\<lparr>hk_Optional := p\<rparr>))"

definition OwnerReference_DeepCopyInto :: "hOwner \<Rightarrow> (heap, hOwner) go" where
  "OwnerReference_DeepCopyInto h =
     thenG (copy_ref as_bool CBool retG (ho_Controller h)) (\<lambda>c.
     thenG (copy_ref as_bool CBool retG (ho_BlockOwnerDeletion h)) (\<lambda>b.
     retG (h\<lparr>ho_Controller := c, ho_BlockOwnerDeletion := b\<rparr>)))"

definition ObjectMeta_DeepCopyInto :: "hMeta \<Rightarrow> (heap, hMeta) go" where
  "ObjectMeta_DeepCopyInto h =
     thenG (copy_ref as_time CTime retG (hm_DeletionTimestamp h)) (\<lambda>d.
     thenG (copy_ref as_labels CLabels retG (hm_Labels h)) (\<lambda>l.
     thenG (copy_ref as_labels CLabels retG (hm_Annotations h)) (\<lambda>a.
     thenG (copy_ref as_owners COwners (copy_list OwnerReference_DeepCopyInto) (hm_OwnerReferences h)) (\<lambda>os.
     thenG (copy_ref as_strings CStrings retG (hm_Finalizers h)) (\<lambda>fs.
     retG (h\<lparr>hm_DeletionTimestamp := d, hm_Labels := l, hm_Annotations := a, hm_OwnerReferences := os, hm_Finalizers := fs\<rparr>))))))"

definition SecretValueFromSource_DeepCopyInto :: "hSecretValue \<Rightarrow> (heap, hSecretValue) go" where
  "SecretValueFromSource_DeepCopyInto h =
     thenG (copy_ref as_selector CSelector SecretKeySelector_DeepCopyInto (hv_SecretKeyRef h)) (\<lambda>p.
     retG (h\<lparr>hv_SecretKeyRef := p\<rparr>))"

definition SecretValueFromSource_DeepCopy :: "addr option \<Rightarrow> (heap, addr option) go" where
  "SecretValueFromSource_DeepCopy = copy_ref as_secret_value CSecretValue SecretValueFromSource_DeepCopyInto"

definition GitLabSourceSpec_DeepCopyInto :: "hSpec \<Rightarrow> (heap, hSpec) go" where
  "GitLabSourceSpec_DeepCopyInto h =
     thenG (copy_ref as_strings CStrings retG (hs_EventTypes h)) (\<lambda>e.
     thenG (SecretValueFromSource_DeepCopyInto (hs_AccessToken h)) (\<lambda>a.
     thenG (SecretValueFromSource_DeepCopyInto (hs_SecretToken h)) (\<lambda>s.
     thenG (copy_ref as_ref CObjectRef retG (hs_Sink h)) (\<lambda>k.
     thenG (copy_ref as_string CString retG (hs_URI h)) (\<lambda>u.
     retG (h\<lparr>hs_EventTypes := e, hs_AccessToken := a, hs_SecretToken := s, hs_Sink := k, hs_URI := u\<rparr>))))))"

definition GitLabSourceSpec_DeepCopy :: "addr option \<Rightarrow> (heap, addr option) go" where
  "GitLabSourceSpec_DeepCopy = copy_ref as_spec CSpec GitLabSourceSpec_DeepCopyInto"

definition GitLabSourceStatus_DeepCopyInto :: "hStatus \<Rightarrow> (heap, hStatus) go" where
  "GitLabSourceStatus_DeepCopyInto h =
     thenG (copy_ref as_conditions CConditions (copy_list retG) (ht_Conditions h)) (\<lambda>c.
     retG (h\<lparr>ht_Conditions := c\<rparr>))"

definition GitLabSourceStatus_DeepCopy :: "addr option \<Rightarrow> (heap, addr option) go" where
  "GitLabSourceStatus_DeepCopy = copy_ref as_status CStatus GitLabSourceStatus_DeepCopyInto"

definition GitLabSource_DeepCopyInto :: "hSource \<Rightarrow> (heap, hSource) go" where
  "GitLabSource_DeepCopyInto h =
     thenG (ObjectMeta_DeepCopyInto (hg_meta h)) (\<lambda>m.
     thenG (GitLabSourceSpec_DeepCopyInto (hg_Spec h)) (\<lambda>s.
     thenG (GitLabSourceStatus_DeepCopyInto (hg_Status h)) (\<lambda>t.
     retG (h\<lparr>hg_meta := m, hg_Spec := s, hg_Status := t\<rparr>))))"

definition GitLabSource_DeepCopy :: "addr option \<Rightarrow> (heap, addr option) go" where
  "GitLabSource_DeepCopy = copy_ref as_source CSource GitLabSource_DeepCopyInto"

definition GitLabSourceList_DeepCopyInto :: "hSourceList \<Rightarrow> (heap, hSourceList) go" where
  "GitLabSourceList_DeepCopyInto h =
     thenG (copy_ref as_items CItems (copy_list GitLabSource_DeepCopyInto) (hl_Items h)) (\<lambda>i.
     retG (h\<lparr>hl_Items := i\<rparr>))"

definition GitLabSourceList_DeepCopy :: "addr option \<Rightarrow> (heap, addr option) go" where
  "GitLabSourceList_DeepCopy = copy_ref as_source_list CSourceList GitLabSourceList_DeepCopyInto"

text \<open>
  A \<open>runtime.Object\<close> holds a pointer with its type; the interface itself is nil only if it
  holds neither, so that a nil pointer must not be put into one.
\<close>

datatype runtime_object = ObjSource "addr option" | ObjSourceList "addr option"

definition GitLabSource_DeepCopyObject :: "addr option \<Rightarrow> (heap, runtime_object option) go" where
  "GitLabSource_DeepCopyObject p =
     thenG (GitLabSource_DeepCopy p) (\<lambda>c. retG (if c \<noteq> None then Some (ObjSource c) else None))"

definition GitLabSourceList_DeepCopyObject :: "addr option \<Rightarrow> (heap, runtime_object option) go" where
  "GitLabSourceList_DeepCopyObject p =
     thenG (GitLabSourceList_DeepCopy p) (\<lambda>c. retG (if c \<noteq> None then Some (ObjSourceList c) else None))"

section \<open>What a struct in the store stands for\<close>

abbreviation rep_plain :: "heap \<Rightarrow> 'a \<Rightarrow> 'a \<Rightarrow> bool" where "rep_plain st h v \<equiv> h = v"
abbreviation reach_plain :: "heap \<Rightarrow> 'a \<Rightarrow> addr set" where "reach_plain st h \<equiv> {}"

definition rep_ptr :: "(cell \<Rightarrow> 'a option) \<Rightarrow> (heap \<Rightarrow> 'a \<Rightarrow> 'v \<Rightarrow> bool) \<Rightarrow> heap \<Rightarrow> addr option \<Rightarrow> 'v option \<Rightarrow> bool" where
  "rep_ptr sel R = rep_ref sel None (rep_some R)"

definition rep_selector :: "heap \<Rightarrow> hSelector \<Rightarrow> SecretKeySelector \<Rightarrow> bool" where
  "rep_selector st h v \<longleftrightarrow> rep_ptr as_bool rep_plain st (hk_Optional h) (sks_Optional v)
     \<and> hk_Name h = sks_Name v \<and> hk_Key h = sks_Key v"

definition reach_selector :: "heap \<Rightarrow> hSelector \<Rightarrow> addr set" where
  "reach_selector st h = reach_ref as_bool reach_plain st (hk_Optional h)"

definition rep_owner :: "heap \<Rightarrow> hOwner \<Rightarrow> OwnerReference \<Rightarrow> bool" where
  "rep_owner st h v \<longleftrightarrow>
     rep_pair (rep_ptr as_bool rep_plain) (rep_ptr as_bool rep_plain) st
       (ho_Controller h, ho_BlockOwnerDeletion h) (or_Controller v, or_BlockOwnerDeletion v)
     \<and> ho_APIVersion h = or_APIVersion v \<and> ho_Kind h = or_Kind v \<and> ho_Name h = or_Name v \<and> ho_UID h = or_UID v"

definition reach_owner :: "heap \<Rightarrow> hOwner \<Rightarrow> addr set" where
  "reach_owner st h = reach_pair (reach_ref as_bool reach_plain) (reach_ref as_bool reach_plain) st
     (ho_Controller h, ho_BlockOwnerDeletion h)"

definition rep_meta :: "heap \<Rightarrow> hMeta \<Rightarrow> ObjectMeta \<Rightarrow> bool" where
  "rep_meta st h v \<longleftrightarrow>
     rep_pair (rep_ptr as_time rep_plain) (rep_pair (rep_ref as_labels Map.empty rep_plain)
      (rep_pair (rep_ref as_labels Map.empty rep_plain) (rep_pair (rep_ref as_owners [] (rep_list rep_owner))
        (rep_ref as_strings [] rep_plain)))) st
       (hm_DeletionTimestamp h, hm_Labels h, hm_Annotations h, hm_OwnerReferences h, hm_Finalizers h)
       (om_DeletionTimestamp v, om_Labels v, om_Annotations v, om_OwnerReferences v, om_Finalizers v)
     \<and> hm_Name h = om_Name v \<and> hm_GenerateName h = om_GenerateName v \<and> hm_Namespace h = om_Namespace v
     \<and> hm_UID h = om_UID v \<and> hm_ResourceVersion h = om_ResourceVersion v"

definition reach_meta :: "heap \<Rightarrow> hMeta \<Rightarrow> addr set" where
  "reach_meta st h =
     reach_pair (reach_ref as_time reach_plain) (reach_pair (reach_ref as_labels reach_plain)
      (reach_pair (reach_ref as_labels reach_plain) (reach_pair (reach_ref as_owners (reach_list reach_owner))
        (reach_ref as_strings reach_plain)))) st
       (hm_DeletionTimestamp h, hm_Labels h, hm_Annotations h, hm_OwnerReferences h, hm_Finalizers h)"

definition rep_secret_value :: "heap \<Rightarrow> hSecretValue \<Rightarrow> SecretValueFromSource \<Rightarrow> bool" where
  "rep_secret_value st h v \<longleftrightarrow> rep_ptr as_selector rep_selector st (hv_SecretKeyRef h) (SecretKeyRef v)"

definition reach_secret_value :: "heap \<Rightarrow> hSecretValue \<Rightarrow> addr set" where
  "reach_secret_value st h = reach_ref as_selector reach_selector st (hv_SecretKeyRef h)"

definition rep_spec :: "heap \<Rightarrow> hSpec \<Rightarrow> GitLabSourceSpec \<Rightarrow> bool" where
  "rep_spec st h v \<longleftrightarrow>
     rep_pair (rep_ref as_strings [] rep_plain) (rep_pair rep_secret_value (rep_pair rep_secret_value
      (rep_pair (rep_ptr as_ref rep_plain) (rep_ptr as_string rep_plain)))) st
       (hs_EventTypes h, hs_AccessToken h, hs_SecretToken h, hs_Sink h, hs_URI h)
       (EventTypes v, AccessToken v, SecretToken v, Sink v, URI v)
     \<and> hs_ServiceAccountName h = ServiceAccountName v \<and> hs_ProjectURL h = ProjectURL v \<and> hs_Secure h = Secure v"

definition reach_spec :: "heap \<Rightarrow> hSpec \<Rightarrow> addr set" where
  "reach_spec st h =
     reach_pair (reach_ref as_strings reach_plain) (reach_pair reach_secret_value (reach_pair reach_secret_value
      (reach_pair (reach_ref as_ref reach_plain) (reach_ref as_string reach_plain)))) st
       (hs_EventTypes h, hs_AccessToken h, hs_SecretToken h, hs_Sink h, hs_URI h)"

definition rep_status :: "heap \<Rightarrow> hStatus \<Rightarrow> GitLabSourceStatus \<Rightarrow> bool" where
  "rep_status st h v \<longleftrightarrow> rep_ref as_conditions [] (rep_list rep_plain) st (ht_Conditions h) (Conditions v)
     \<and> ht_ObservedGeneration h = ObservedGeneration v \<and> ht_WebhookIDKey h = WebhookIDKey v \<and> ht_SinkURI h = SinkURI v"

definition reach_status :: "heap \<Rightarrow> hStatus \<Rightarrow> addr set" where
  "reach_status st h = reach_ref as_conditions (reach_list reach_plain) st (ht_Conditions h)"

definition rep_source :: "heap \<Rightarrow> hSource \<Rightarrow> GitLabSource \<Rightarrow> bool" where
  "rep_source st h v \<longleftrightarrow>
     rep_pair rep_meta (rep_pair rep_spec rep_status) st (hg_meta h, hg_Spec h, hg_Status h) (gs_meta v, Spec v, Status v)
     \<and> hg_APIVersion h = gs_APIVersion v \<and> hg_Kind h = gs_Kind v"

definition reach_source :: "heap \<Rightarrow> hSource \<Rightarrow> addr set" where
  "reach_source st h = reach_pair reach_meta (reach_pair reach_spec reach_status) st (hg_meta h, hg_Spec h, hg_Status h)"

definition rep_source_list :: "heap \<Rightarrow> hSourceList \<Rightarrow> GitLabSourceList \<Rightarrow> bool" where
  "rep_source_list st h v \<longleftrightarrow> rep_ref as_items [] (rep_list rep_source) st (hl_Items h) (gl_Items v)
     \<and> hl_APIVersion h = gl_APIVersion v \<and> hl_Kind h = gl_Kind v \<and> hl_ResourceVersion h = gl_ResourceVersion v"

definition reach_source_list :: "heap \<Rightarrow> hSourceList \<Rightarrow> addr set" where
  "reach_source_list st h = reach_ref as_items (reach_list reach_source) st (hl_Items h)"

section \<open>The copies meet the contract\<close>

lemma deep_copier_ptr:
  assumes "deep_copier R F c" and "\<And>h. sel (mk h) = Some h"
  shows "deep_copier (rep_ptr sel R) (reach_ref sel F) (copy_ref sel mk c)"
  unfolding rep_ptr_def by (rule deep_copier_ref [OF deep_copier_some [OF assms(1)] assms(2)])

named_theorems copiers "copies that meet the contract"

lemmas [copiers] = deep_copier_plain deep_copier_pair deep_copier_list

lemma copier_leaves [copiers]:
  "deep_copier (rep_ptr as_bool rep_plain) (reach_ref as_bool reach_plain) (copy_ref as_bool CBool retG)"
  "deep_copier (rep_ptr as_time rep_plain) (reach_ref as_time reach_plain) (copy_ref as_time CTime retG)"
  "deep_copier (rep_ptr as_string rep_plain) (reach_ref as_string reach_plain) (copy_ref as_string CString retG)"
  "deep_copier (rep_ptr as_ref rep_plain) (reach_ref as_ref reach_plain) (copy_ref as_ref CObjectRef retG)"
  "deep_copier (rep_ref as_strings [] rep_plain) (reach_ref as_strings reach_plain) (copy_ref as_strings CStrings retG)"
  "deep_copier (rep_ref as_labels Map.empty rep_plain) (reach_ref as_labels reach_plain) (copy_ref as_labels CLabels retG)"
  by (intro deep_copier_ptr deep_copier_ref deep_copier_plain, simp add: as_defs)+

lemma copier_selector [copiers]: "deep_copier rep_selector reach_selector SecretKeySelector_DeepCopyInto"
  by (rule deep_copier_struct [OF copier_leaves(1), where f = hk_Optional and g = sks_Optional
        and k = "\<lambda>h t. h\<lparr>hk_Optional := t\<rparr>" and P = "\<lambda>h v. hk_Name h = sks_Name v \<and> hk_Key h = sks_Key v"])
    (simp_all add: rep_selector_def reach_selector_def SecretKeySelector_DeepCopyInto_def)

lemma copier_owner [copiers]: "deep_copier rep_owner reach_owner OwnerReference_DeepCopyInto"
  by (rule deep_copier_struct [OF deep_copier_pair [OF copier_leaves(1) copier_leaves(1)],
        where f = "\<lambda>h. (ho_Controller h, ho_BlockOwnerDeletion h)" and g = "\<lambda>v. (or_Controller v, or_BlockOwnerDeletion v)"
          and k = "\<lambda>h (c, b). h\<lparr>ho_Controller := c, ho_BlockOwnerDeletion := b\<rparr>"
          and P = "\<lambda>h v. ho_APIVersion h = or_APIVersion v \<and> ho_Kind h = or_Kind v \<and> ho_Name h = or_Name v \<and> ho_UID h = or_UID v"])
    (simp_all add: rep_owner_def reach_owner_def OwnerReference_DeepCopyInto_def seq_laws split: prod.split)

lemma copier_owners [copiers]:
  "deep_copier (rep_ref as_owners [] (rep_list rep_owner)) (reach_ref as_owners (reach_list reach_owner))
     (copy_ref as_owners COwners (copy_list OwnerReference_DeepCopyInto))"
  by (intro deep_copier_ref copiers) (simp add: as_defs)

lemma copier_meta [copiers]: "deep_copier rep_meta reach_meta ObjectMeta_DeepCopyInto"
  by (rule deep_copier_struct [OF deep_copier_pair [OF copier_leaves(2) deep_copier_pair [OF copier_leaves(6)
          deep_copier_pair [OF copier_leaves(6) deep_copier_pair [OF copier_owners copier_leaves(5)]]]],
        where f = "\<lambda>h. (hm_DeletionTimestamp h, hm_Labels h, hm_Annotations h, hm_OwnerReferences h, hm_Finalizers h)"
          and g = "\<lambda>v. (om_DeletionTimestamp v, om_Labels v, om_Annotations v, om_OwnerReferences v, om_Finalizers v)"
          and k = "\<lambda>h (d, l, a, os, fs). h\<lparr>hm_DeletionTimestamp := d, hm_Labels := l, hm_Annotations := a, hm_OwnerReferences := os, hm_Finalizers := fs\<rparr>"
          and P = "\<lambda>h v. hm_Name h = om_Name v \<and> hm_GenerateName h = om_GenerateName v \<and> hm_Namespace h = om_Namespace v
             \<and> hm_UID h = om_UID v \<and> hm_ResourceVersion h = om_ResourceVersion v"])
    (simp_all add: rep_meta_def reach_meta_def ObjectMeta_DeepCopyInto_def seq_laws split: prod.split)

lemma copier_secret_value [copiers]: "deep_copier rep_secret_value reach_secret_value SecretValueFromSource_DeepCopyInto"
proof (rule deep_copier_struct [where f = hv_SecretKeyRef and g = SecretKeyRef and k = "\<lambda>h t. h\<lparr>hv_SecretKeyRef := t\<rparr>" and P = "\<lambda>_ _. True"])
  show "deep_copier (rep_ptr as_selector rep_selector) (reach_ref as_selector reach_selector)
      (copy_ref as_selector CSelector SecretKeySelector_DeepCopyInto)"
    by (intro deep_copier_ptr copier_selector) (simp add: as_defs)
qed (simp_all add: rep_secret_value_def reach_secret_value_def SecretValueFromSource_DeepCopyInto_def)

lemma copier_spec [copiers]: "deep_copier rep_spec reach_spec GitLabSourceSpec_DeepCopyInto"
  by (rule deep_copier_struct [OF deep_copier_pair [OF copier_leaves(5) deep_copier_pair [OF copier_secret_value
          deep_copier_pair [OF copier_secret_value deep_copier_pair [OF copier_leaves(4) copier_leaves(3)]]]],
        where f = "\<lambda>h. (hs_EventTypes h, hs_AccessToken h, hs_SecretToken h, hs_Sink h, hs_URI h)"
          and g = "\<lambda>v. (EventTypes v, AccessToken v, SecretToken v, Sink v, URI v)"
          and k = "\<lambda>h (e, a, s, i, u). h\<lparr>hs_EventTypes := e, hs_AccessToken := a, hs_SecretToken := s, hs_Sink := i, hs_URI := u\<rparr>"
          and P = "\<lambda>h v. hs_ServiceAccountName h = ServiceAccountName v \<and> hs_ProjectURL h = ProjectURL v \<and> hs_Secure h = Secure v"])
    (simp_all add: rep_spec_def reach_spec_def GitLabSourceSpec_DeepCopyInto_def seq_laws split: prod.split)

lemma copier_status [copiers]: "deep_copier rep_status reach_status GitLabSourceStatus_DeepCopyInto"
proof (rule deep_copier_struct [where f = ht_Conditions and g = Conditions and k = "\<lambda>h t. h\<lparr>ht_Conditions := t\<rparr>"
      and P = "\<lambda>h v. ht_ObservedGeneration h = ObservedGeneration v \<and> ht_WebhookIDKey h = WebhookIDKey v \<and> ht_SinkURI h = SinkURI v"])
  show "deep_copier (rep_ref as_conditions [] (rep_list rep_plain)) (reach_ref as_conditions (reach_list reach_plain))
      (copy_ref as_conditions CConditions (copy_list retG))"
    by (intro deep_copier_ref copiers) (simp add: as_defs)
qed (simp_all add: rep_status_def reach_status_def GitLabSourceStatus_DeepCopyInto_def)

lemma copier_source [copiers]: "deep_copier rep_source reach_source GitLabSource_DeepCopyInto"
  by (rule deep_copier_struct [OF deep_copier_pair [OF copier_meta deep_copier_pair [OF copier_spec copier_status]],
        where f = "\<lambda>h. (hg_meta h, hg_Spec h, hg_Status h)" and g = "\<lambda>v. (gs_meta v, Spec v, Status v)"
          and k = "\<lambda>h (m, s, t). h\<lparr>hg_meta := m, hg_Spec := s, hg_Status := t\<rparr>"
          and P = "\<lambda>h v. hg_APIVersion h = gs_APIVersion v \<and> hg_Kind h = gs_Kind v"])
    (simp_all add: rep_source_def reach_source_def GitLabSource_DeepCopyInto_def seq_laws split: prod.split)

lemma copier_source_list [copiers]: "deep_copier rep_source_list reach_source_list GitLabSourceList_DeepCopyInto"
proof (rule deep_copier_struct [where f = hl_Items and g = gl_Items and k = "\<lambda>h t. h\<lparr>hl_Items := t\<rparr>"
      and P = "\<lambda>h v. hl_APIVersion h = gl_APIVersion v \<and> hl_Kind h = gl_Kind v \<and> hl_ResourceVersion h = gl_ResourceVersion v"])
  show "deep_copier (rep_ref as_items [] (rep_list rep_source)) (reach_ref as_items (reach_list reach_source))
      (copy_ref as_items CItems (copy_list GitLabSource_DeepCopyInto))"
    by (intro deep_copier_ref copiers) (simp add: as_defs)
qed (simp_all add: rep_source_list_def reach_source_list_def GitLabSourceList_DeepCopyInto_def)

text \<open>Pointers to a source and to a list of sources, as the lister and the typed client hand them out.\<close>

definition points_to :: "heap \<Rightarrow> addr option \<Rightarrow> GitLabSource option \<Rightarrow> bool" where
  "points_to = rep_ptr as_source rep_source"

definition reaches :: "heap \<Rightarrow> addr option \<Rightarrow> addr set" where
  "reaches = reach_ref as_source reach_source"

definition points_to_list :: "heap \<Rightarrow> addr option \<Rightarrow> GitLabSourceList option \<Rightarrow> bool" where
  "points_to_list = rep_ptr as_source_list rep_source_list"

definition reaches_list :: "heap \<Rightarrow> addr option \<Rightarrow> addr set" where
  "reaches_list = reach_ref as_source_list reach_source_list"

interpretation source_copy: deep_copier points_to reaches GitLabSource_DeepCopy
  unfolding points_to_def reaches_def GitLabSource_DeepCopy_def
  by (intro deep_copier_ptr copier_source) (simp add: as_defs)

interpretation list_copy: deep_copier points_to_list reaches_list GitLabSourceList_DeepCopy
  unfolding points_to_list_def reaches_list_def GitLabSourceList_DeepCopy_def
  by (intro deep_copier_ptr copier_source_list) (simp add: as_defs)

end
