(* ===== verification/DeepCopyProperties.thy ===== *)
theory DeepCopyProperties
  imports DeepCopy
begin

text \<open>
  What the deep copies promise to the code that changes objects of a cache: a copy of the
  same value that shares nothing with the original, whatever is then written through either
  of them, and a \<open>runtime.Object\<close> that never holds a nil pointer.  The store of the
  witnesses holds a source with both secrets (one of them optional), a sink and conditions.
\<close>

section \<open>A store with a source\<close>

definition demo_source :: GitLabSource where
  "demo_source = \<lparr>gs_APIVersion = ''sources.eventing.triggermesh.dev/v1alpha1'', gs_Kind = ''GitLabSource'',
     gs_meta = empty_meta\<lparr>om_Name := ''src'', om_Namespace := ''ns'', om_Finalizers := [''f'']\<rparr>,
     Spec = \<lparr>ServiceAccountName = [], ProjectURL = ''http://gitlab/g/p'', EventTypes = [''push_events''],
       AccessToken = \<lparr>SecretKeyRef = Some \<lparr>sks_Name = ''s'', sks_Key = ''k'', sks_Optional = None\<rparr>\<rparr>,
       SecretToken = \<lparr>SecretKeyRef = Some \<lparr>sks_Name = ''s'', sks_Key = ''t'', sks_Optional = Some True\<rparr>\<rparr>,
       Sink = None, URI = Some ''u'', Secure = False\<rparr>,
     Status = \<lparr>ObservedGeneration = 0, Conditions = [], WebhookIDKey = [], SinkURI = []\<rparr>\<rparr>"

definition demo_struct :: hSource where
  "demo_struct = \<lparr>hg_APIVersion = ''sources.eventing.triggermesh.dev/v1alpha1'', hg_Kind = ''GitLabSource'',
     hg_meta = \<lparr>hm_Name = ''src'', hm_GenerateName = [], hm_Namespace = ''ns'', hm_UID = [], hm_ResourceVersion = [],
       hm_DeletionTimestamp = None, hm_Labels = None, hm_Annotations = None, hm_OwnerReferences = None, hm_Finalizers = Some 1\<rparr>,
     hg_Spec = \<lparr>hs_ServiceAccountName = [], hs_ProjectURL = ''http://gitlab/g/p'', hs_EventTypes = Some 2,
       hs_AccessToken = \<lparr>hv_SecretKeyRef = Some 3\<rparr>, hs_SecretToken = \<lparr>hv_SecretKeyRef = Some 4\<rparr>,
       hs_Sink = None, hs_URI = Some 6, hs_Secure = False\<rparr>,
     hg_Status = \<lparr>ht_ObservedGeneration = 0, ht_Conditions = None, ht_WebhookIDKey = [], ht_SinkURI = []\<rparr>\<rparr>"

definition demo_heap :: heap where
  "demo_heap = \<lparr>cells = [0 \<mapsto> CSource demo_struct, 1 \<mapsto> CStrings [''f''], 2 \<mapsto> CStrings [''push_events''],
       3 \<mapsto> CSelector \<lparr>hk_Name = ''s'', hk_Key = ''k'', hk_Optional = None\<rparr>,
       4 \<mapsto> CSelector \<lparr>hk_Name = ''s'', hk_Key = ''t'', hk_Optional = Some 5\<rparr>,
       5 \<mapsto> CBool True, 6 \<mapsto> CString ''u'', 7 \<mapsto> CSourceList \<lparr>hl_APIVersion = [], hl_Kind = [], hl_ResourceVersion = ''9'', hl_Items = Some 8\<rparr>,
       8 \<mapsto> CItems [demo_struct]], next_addr = 9\<rparr>"

lemma wf_demo_heap: "wf_store demo_heap"
  by (simp add: wf_store_def demo_heap_def)

lemmas rep_defs = rep_ptr_def rep_some_def rep_ref_def rep_source_def rep_meta_def rep_spec_def rep_status_def
  rep_secret_value_def rep_selector_def as_defs

lemma demo_struct_rep: "rep_source demo_heap demo_struct demo_source"
  by (simp add: rep_defs demo_heap_def demo_struct_def demo_source_def empty_meta_def)

lemma demo_points: "points_to demo_heap (Some 0) (Some demo_source)"
  using demo_struct_rep by (simp add: points_to_def rep_ptr_def rep_some_def rep_ref_def demo_heap_def as_defs)

lemma demo_points_list: "points_to_list demo_heap (Some 7)
    (Some \<lparr>gl_APIVersion = [], gl_Kind = [], gl_ResourceVersion = ''9'', gl_Items = [demo_source]\<rparr>)"
  using demo_struct_rep
  by (simp add: points_to_list_def rep_ptr_def rep_some_def rep_ref_def rep_source_list_def rep_list_def demo_heap_def as_defs)

section \<open>Copies\<close>

lemma writes_apart: "W \<subseteq> A \<union> {n :: addr..} \<Longrightarrow> A \<inter> B = {} \<Longrightarrow> B \<subseteq> {..<n} \<Longrightarrow> W \<inter> B = {}"
proof (rule ccontr)
  assume a: "W \<subseteq> A \<union> {n..}" "A \<inter> B = {}" "B \<subseteq> {..<n}" and "W \<inter> B \<noteq> {}"
  then obtain x where "x \<in> W" "x \<in> B" by blast
  with a have "n \<le> x" and "x < n" by blast+
  then show False by simp
qed

text \<open>
  C19: \<open>source.DeepCopy()\<close> returns (no panic) a pointer to the same value, for every
  source: metadata with labels, owners and finalizers, secrets, sink and conditions.  The
  original is still there with every cell unchanged, and no cell is reached from both.
\<close>

theorem deep_copy_separate:
  assumes "wf_store st" and "points_to st p v" and "GitLabSource_DeepCopy p st = (r, st')"
  shows "\<exists>q. r = Ok q \<and> points_to st' q v \<and> points_to st' p v \<and> reaches st' q \<inter> reaches st' p = {}
    \<and> (q = None \<longleftrightarrow> p = None) \<and> wf_store st' \<and> extends st st'"
proof -
  from source_copy.copies [OF assms(1,2)] assms(3) obtain q where
    q: "r = Ok q" "GitLabSource_DeepCopy p st = (Ok q, st')" "wf_store st'" "extends st st'" by auto
  moreover have "q = None \<longleftrightarrow> p = None" using q(2) unfolding GitLabSource_DeepCopy_def by (rule copy_ref_nil)
  ultimately show ?thesis using source_copy.separate [OF assms(1,2) q(2)] by blast
qed

theorem deep_copy_separate_witness:
  "\<exists>q st'. GitLabSource_DeepCopy (Some 0) demo_heap = (Ok (Some q), st') \<and> points_to st' (Some q) (Some demo_source)
     \<and> reaches st' (Some q) \<inter> reaches st' (Some 0) = {}"
  using deep_copy_separate [OF wf_demo_heap demo_points, of "fst (GitLabSource_DeepCopy (Some 0) demo_heap)"
      "snd (GitLabSource_DeepCopy (Some 0) demo_heap)"] by auto (metis prod.collapse not_None_eq)

text \<open>
  C20: writes through the copy leave the original as it was, and writes through the original
  leave the copy: what the reconciler does to its copy of a source, whatever it writes to
  the cells reached from it or allocated since, is never seen through the pointer the
  informer's cache keeps, and the other way round.
\<close>

theorem writes_do_not_meet:
  assumes "wf_store st" and "points_to st p v" and "GitLabSource_DeepCopy p st = (Ok q, st')"
  shows "(fst ` set ws \<subseteq> reaches st' q \<union> {next_addr st'..} \<longrightarrow> points_to (store_writes ws st') p v)
    \<and> (fst ` set ws \<subseteq> reaches st' p \<union> {next_addr st'..} \<longrightarrow> points_to (store_writes ws st') q v)"
proof -
  note c = deep_copy_separate [OF assms]
  then have d: "reaches st' q \<inter> reaches st' p = {}" "reaches st' p \<inter> reaches st' q = {}"
    and rep: "points_to st' q v" "points_to st' p v" and wf: "wf_store st'" by auto
  note within = source_copy.within [OF wf rep(1)] source_copy.within [OF wf rep(2)]
  show ?thesis
    using source_copy.writes_other [OF rep(2) writes_apart [OF _ d(1) within(2)]]
      source_copy.writes_other [OF rep(1) writes_apart [OF _ d(2) within(1)]] by simp
qed

theorem writes_do_not_meet_witness:
  "\<exists>q st'. GitLabSource_DeepCopy (Some 0) demo_heap = (Ok q, st')
     \<and> points_to (store_writes [(next_addr st', CBool False)] st') (Some 0) (Some demo_source)"
proof -
  obtain q st' where c: "GitLabSource_DeepCopy (Some 0) demo_heap = (Ok q, st')"
    using source_copy.copies [OF wf_demo_heap demo_points] by auto
  with writes_do_not_meet [OF wf_demo_heap demo_points c, of "[(next_addr st', CBool False)]"] show ?thesis by auto
qed

text \<open>
  C40: \<open>DeepCopyObject\<close>, through which the machinery copies objects it does not know the type
  of: on a nil pointer it returns a nil interface (not an interface that holds a nil
  pointer), and else an object of the same type, a copy of the list with all its sources
  that shares nothing with the original.
\<close>

theorem copy_object_typed:
  assumes "wf_store st" and "points_to_list st p v"
  shows "\<exists>ob st'. GitLabSourceList_DeepCopyObject p st = (Ok ob, st')
    \<and> (case ob of None \<Rightarrow> p = None \<and> v = None
       | Some (ObjSource _) \<Rightarrow> False
       | Some (ObjSourceList q) \<Rightarrow> q \<noteq> None \<and> points_to_list st' q v \<and> reaches_list st' q \<inter> reaches_list st' p = {})"
proof -
  from list_copy.copies [OF assms] obtain q st' where c: "GitLabSourceList_DeepCopy p st = (Ok q, st')" by auto
  have n: "q = None \<longleftrightarrow> p = None" using c unfolding GitLabSourceList_DeepCopy_def by (rule copy_ref_nil)
  have "GitLabSourceList_DeepCopyObject p st = (Ok (if q \<noteq> None then Some (ObjSourceList q) else None), st')"
    by (simp add: GitLabSourceList_DeepCopyObject_def run_simps c)
  moreover have "p = None \<longrightarrow> v = None" using assms(2) by (auto simp: points_to_list_def rep_ptr_def rep_ref_def)
  ultimately show ?thesis using list_copy.separate [OF assms c] n by (cases "q = None") auto
qed

theorem copy_object_typed_witness:
  "\<exists>ob st'. GitLabSourceList_DeepCopyObject (Some 7) demo_heap = (Ok ob, st') \<and> ob \<noteq> None \<and> ob \<noteq> Some (ObjSource None)"
  using copy_object_typed [OF wf_demo_heap demo_points_list] by (auto split: option.splits)

end
