(* ===== verification/CacheProperties.thy ===== *)
theory CacheProperties
  imports ControllerLoop
begin

text \<open>
  The properties of the informer's cache: it is the map the watch describes, its index agrees
  with a scan, and what changes in it reaches the controller's queue.
\<close>

section \<open>A cache with a source\<close>

definition demo_cache :: threadSafeMap where
  "demo_cache = snd (cache_Add demo_source (NewIndexer source_indexers))"

lemma demo_cache_ok: "cache_ok demo_cache"
  using cache_Add_ok [OF NewIndexer_ok, of demo_source] by (auto simp: demo_cache_def)

lemma demo_cache_items: "map_of (tsm_items demo_cache) = [''ns/src'' \<mapsto> demo_source]"
proof -
  have "source_key demo_source = ''ns/src''"
    by (simp add: source_key_def DeletionHandlingMetaNamespaceKeyFunc_def MetaNamespaceKeyFunc_def demo_source_def demo_meta_def)
  then show ?thesis
    using cache_Add_ok [OF NewIndexer_ok, of demo_source] by (auto simp: demo_cache_def NewIndexer_def NewThreadSafeStore_def)
qed

section \<open>Properties\<close>

text \<open>C15: a batch of changes from the watch is put into the informer's cache without an error
  or a panic of the index, in order: the cache then holds for each key the object of the
  last change of the key, its indices agree with its objects, and the event handlers are
  told of each change, as an addition or an update by whether the key was there before.\<close>

theorem deltas_refine_map:
  assumes "cache_ok c"
  shows "\<exists>c'. HandleDeltas ds (c, ns) = (Ok (), (c', ns @ announcements (map_of (tsm_items c)) ds))
    \<and> cache_ok c' \<and> map_of (tsm_items c') = fold apply_delta ds (map_of (tsm_items c))"
  by (rule HandleDeltas_ok [OF assms])

theorem deltas_refine_map_witness:
  "\<exists>c'. HandleDeltas [Updated demo_source, Deleted (DeletedFinalStateUnknown ''ns/src''), Added demo_source] (demo_cache, [])
      = (Ok (), (c', [OnUpdate demo_source demo_source, OnDelete (DeletedFinalStateUnknown ''ns/src''), OnAdd demo_source]))"
proof -
  have "source_key demo_source = ''ns/src''"
    by (simp add: source_key_def DeletionHandlingMetaNamespaceKeyFunc_def MetaNamespaceKeyFunc_def demo_source_def demo_meta_def)
  then show ?thesis
    using deltas_refine_map [OF demo_cache_ok, of "[Updated demo_source, Deleted (DeletedFinalStateUnknown ''ns/src''), Added demo_source]" "[]"]
    by (auto simp: demo_cache_items apply_delta_def DeletionHandlingMetaNamespaceKeyFunc_def)
qed

text \<open>C16: the lister of a namespace reads the namespace index; what it returns is what a scan
  of all objects would, each source of the namespace that the selector matches once and
  nothing else, with no error, for every state of the cache.\<close>

theorem namespace_list_is_scan:
  assumes "cache_ok c" and "ns \<noteq> []"
  shows "snd (ns_lister_List (lister_GitLabSources c ns) selector) = None
    \<and> mset (fst (ns_lister_List (lister_GitLabSources c ns) selector))
        = mset (filter (\<lambda>obj. om_Namespace (gs_meta obj) = ns \<and> selector (om_Labels (gs_meta obj))) (tsm_List c))
    \<and> ns_lister_List (lister_GitLabSources c []) selector = lister_List c selector"
proof -
  from source_Index [OF assms(1), of ns] obtain objs where
    objs: "tsm_Index NamespaceIndex (empty_meta\<lparr>om_Namespace := ns\<rparr>) c = Inr (map Some objs)"
      "mset objs = mset (filter (\<lambda>obj. om_Namespace (gs_meta obj) = ns) (tsm_List c))" by blast
  have "filter_mset (\<lambda>obj. selector (om_Labels (gs_meta obj))) (mset objs)
      = mset (filter (\<lambda>obj. om_Namespace (gs_meta obj) = ns \<and> selector (om_Labels (gs_meta obj))) (tsm_List c))"
    unfolding objs(2) mset_filter [symmetric] by (simp add: conj_commute)
  then show ?thesis using assms(2)
    by (simp add: ns_lister_List_def lister_GitLabSources_def lister_List_def ListAllByNamespace_def ListAll_def objs(1) list_loop_Some)
qed

theorem namespace_list_is_scan_witness:
  "mset (fst (ns_lister_List (lister_GitLabSources demo_cache ''ns'') (\<lambda>_. True)))
     = mset (filter (\<lambda>obj. om_Namespace (gs_meta obj) = ''ns'') (tsm_List demo_cache))"
  using namespace_list_is_scan [OF demo_cache_ok, of "''ns''" "\<lambda>_. True"] by simp

text \<open>Whatever changes in the cache is worked on: if after a batch of changes a key leads to
  another object than before, or to none, then the handlers \<open>NewController\<close> installed have
  put the key into the controller's queue, where it is dirty until a worker takes it.\<close>

theorem changes_enqueued:
  assumes "cache_ok c" and "HandleDeltas ds (c, []) = (r, (c', ns))" and "GetByKey k c' \<noteq> GetByKey k c"
    and "\<not> q_shuttingDown (c_queue s)"
  shows "k \<in> q_dirty (c_queue (fold event_handler ns s))"
proof -
  from HandleDeltas_ok [OF assms(1), of ds "[]"] assms(2) have
    c': "ns = announcements (map_of (tsm_items c)) ds" "map_of (tsm_items c') = fold apply_delta ds (map_of (tsm_items c))" by auto
  have "k \<in> delta_key ` set ds"
    using assms(3) changed_key [of ds "map_of (tsm_items c)" k] by (simp add: GetByKey_def tsm_Get_def c'(2))
  then have "k \<in> set (map notified_key ns)" unfolding c'(1) notified_announcements by simp
  then show ?thesis using enqueued_all [OF assms(4), of ns] by blast
qed

theorem changes_enqueued_witness:
  "''ns/src'' \<in> q_dirty (c_queue (fold event_handler
     (snd (snd (HandleDeltas [Deleted (DeletedFinalStateUnknown ''ns/src'')] (demo_cache, []))))
     (ctl_init 1 (demo_state demo_source))))"
proof -
  let ?ds = "[Deleted (DeletedFinalStateUnknown ''ns/src'')]"
  from HandleDeltas_ok [OF demo_cache_ok, of ?ds "[]"] obtain c' where
    c': "HandleDeltas ?ds (demo_cache, []) = (Ok (), (c', announcements (map_of (tsm_items demo_cache)) ?ds))"
      "map_of (tsm_items c') = fold apply_delta ?ds (map_of (tsm_items demo_cache))" unfolding append_Nil by blast
  have "GetByKey ''ns/src'' c' \<noteq> GetByKey ''ns/src'' demo_cache"
    by (simp add: GetByKey_def tsm_Get_def c'(2) demo_cache_items apply_delta_def DeletionHandlingMetaNamespaceKeyFunc_def)
  from changes_enqueued [OF demo_cache_ok c'(1) this, of "ctl_init 1 (demo_state demo_source)"] show ?thesis
    unfolding c'(1) by (simp only: snd_conv) (simp add: ctl_init_def q_New_def)
qed

end
