(* ===== verification/DeltaFIFO.thy ===== *)
theory DeltaFIFO
  imports SourceCache
begin

text \<open>
  What lies between the watch of the API server and the cache of the informer: the queue of
  changes (\<open>client-go/tools/cache/delta_fifo.go\<close>), what the reflector puts into it
  (\<open>reflector.go\<close>) and the loop that takes changes out and hands them to \<open>HandleDeltas\<close>
  (\<open>tools/cache/controller.go\<close>).  Each operation holds the lock of the queue, the
  processing of what \<open>Pop\<close> takes out included, so it is one step.  The known objects of the
  queue are those of the informer's store.
\<close>

section \<open>Changes of one key\<close>

definition isDeletionDup :: "delta \<Rightarrow> delta \<Rightarrow> delta option" where
  "isDeletionDup a b =
     (case b of
        Deleted x \<Rightarrow>
          (case a of
             Deleted y \<Rightarrow> (case x of DeletedFinalStateUnknown _ \<Rightarrow> Some a | Object _ \<Rightarrow> Some b)
           | _ \<Rightarrow> None)
      | _ \<Rightarrow> None)"

definition isDup :: "delta \<Rightarrow> delta \<Rightarrow> delta option" where
  "isDup a b = isDeletionDup a b"

definition dedupDeltas :: "delta list \<Rightarrow> delta list" where
  "dedupDeltas deltas =
     (let n = length deltas
      in if n < 2 then deltas
         else case isDup (deltas ! (n - 1)) (deltas ! (n - 2)) of
           Some out \<Rightarrow> take (n - 2) deltas @ [out]
         | None \<Rightarrow> deltas)"

definition isDeleted :: "delta \<Rightarrow> bool" where
  "isDeleted d = (case d of Deleted _ \<Rightarrow> True | _ \<Rightarrow> False)"

definition isSync :: "delta \<Rightarrow> bool" where
  "isSync d = (case d of Sync _ \<Rightarrow> True | _ \<Rightarrow> False)"

section \<open>The queue\<close>

record DeltaFIFO =
  df_items :: "string \<rightharpoonup> delta list"
  df_queue :: "string list"
  df_populated :: bool
  df_initialPopulationCount :: nat
  df_closed :: bool

definition NewDeltaFIFO :: DeltaFIFO where
  "NewDeltaFIFO = \<lparr>df_items = Map.empty, df_queue = [], df_populated = False, df_initialPopulationCount = 0, df_closed = False\<rparr>"

definition fifo_Close :: "DeltaFIFO \<Rightarrow> DeltaFIFO" where
  "fifo_Close f = f\<lparr>df_closed := True\<rparr>"

text \<open>\<open>f.items[k]\<close>, nil for a key without changes.\<close>

definition deltas_of :: "DeltaFIFO \<Rightarrow> string \<Rightarrow> delta list" where
  "deltas_of f k = (case df_items f k of None \<Rightarrow> [] | Some deltas \<Rightarrow> deltas)"

definition HasSynced :: "DeltaFIFO \<Rightarrow> bool" where
  "HasSynced f \<longleftrightarrow> df_populated f \<and> df_initialPopulationCount f = 0"

definition willObjectBeDeletedLocked :: "string \<Rightarrow> DeltaFIFO \<Rightarrow> bool" where
  "willObjectBeDeletedLocked k f =
     (let deltas = deltas_of f k in 0 < length deltas \<and> isDeleted (deltas ! (length deltas - 1)))"

text \<open>\<open>KeyOf\<close> of the object of a change is \<open>delta_key\<close>: the key in a tombstone, that of the metadata otherwise.\<close>

definition queueActionLocked :: "delta \<Rightarrow> DeltaFIFO \<Rightarrow> DeltaFIFO" where
  "queueActionLocked d f =
     (let k = delta_key d
      in if isSync d \<and> willObjectBeDeletedLocked k f then f
         else
           let newDeltas = dedupDeltas (deltas_of f k @ [d]); exists = (df_items f k \<noteq> None)
           in if 0 < length newDeltas
              then f\<lparr>df_queue := (if \<not> exists then df_queue f @ [k] else df_queue f),
                     df_items := (df_items f)(k \<mapsto> newDeltas)\<rparr>
              else if exists then f\<lparr>df_items := (df_items f)(k := None)\<rparr> else f)"

definition fifo_Add :: "GitLabSource \<Rightarrow> DeltaFIFO \<Rightarrow> DeltaFIFO" where
  "fifo_Add obj f = queueActionLocked (Added obj) (f\<lparr>df_populated := True\<rparr>)"

definition fifo_Update :: "GitLabSource \<Rightarrow> DeltaFIFO \<Rightarrow> DeltaFIFO" where
  "fifo_Update obj f = queueActionLocked (Updated obj) (f\<lparr>df_populated := True\<rparr>)"

definition fifo_Delete :: "threadSafeMap \<Rightarrow> notified \<Rightarrow> DeltaFIFO \<Rightarrow> DeltaFIFO" where
  "fifo_Delete known obj f =
     (let k = DeletionHandlingMetaNamespaceKeyFunc obj; f1 = f\<lparr>df_populated := True\<rparr>
      in if GetByKey k known = None \<and> df_items f1 k = None then f1 else queueActionLocked (Deleted obj) f1)"

text \<open>
  \<open>Replace\<close>: a change \<open>Sync\<close> for each item of the list, then a tombstone for each known key
  that no item has.
\<close>

definition sync_items :: "GitLabSource list \<Rightarrow> DeltaFIFO \<Rightarrow> DeltaFIFO" where
  "sync_items list f = fold (\<lambda>item. queueActionLocked (Sync item)) list f"

definition bury_keys :: "string list \<Rightarrow> DeltaFIFO \<Rightarrow> DeltaFIFO" where
  "bury_keys ks f = fold (\<lambda>k. queueActionLocked (Deleted (DeletedFinalStateUnknown k))) ks f"

definition gone_keys :: "threadSafeMap \<Rightarrow> GitLabSource list \<Rightarrow> string list" where
  "gone_keys known list = filter (\<lambda>k. k \<notin> set (map source_key list)) (tsm_ListKeys known)"

definition fifo_Replace :: "threadSafeMap \<Rightarrow> GitLabSource list \<Rightarrow> DeltaFIFO \<Rightarrow> DeltaFIFO" where
  "fifo_Replace known list f =
     (let f1 = bury_keys (gone_keys known list) (sync_items list f);
          queuedDeletions = length (gone_keys known list)
      in if \<not> df_populated f1
         then f1\<lparr>df_populated := True, df_initialPopulationCount := length list + queuedDeletions\<rparr>
         else f1)"

definition syncKeyLocked :: "threadSafeMap \<Rightarrow> string \<Rightarrow> DeltaFIFO \<Rightarrow> DeltaFIFO" where
  "syncKeyLocked known key f =
     (case GetByKey key known of
        None \<Rightarrow> f
      | Some obj \<Rightarrow> if 0 < length (deltas_of f (source_key obj)) then f else queueActionLocked (Sync obj) f)"

definition fifo_Resync :: "threadSafeMap \<Rightarrow> DeltaFIFO \<Rightarrow> DeltaFIFO" where
  "fifo_Resync known f = fold (syncKeyLocked known) (tsm_ListKeys known) f"

text \<open>
  \<open>Pop\<close> up to the call of \<open>process\<close>: it skips keys without changes, and waits on an empty
  queue until there is a key or the queue is closed.
\<close>

datatype popped = PopWaits | PopClosed | PopGot "delta list"

fun pop_loop :: "string list \<Rightarrow> DeltaFIFO \<Rightarrow> popped \<times> DeltaFIFO" where
  "pop_loop [] f = (if df_closed f then PopClosed else PopWaits, f\<lparr>df_queue := []\<rparr>)"
| "pop_loop (k # queue) f =
     (let f1 = f\<lparr>df_queue := queue,
                 df_initialPopulationCount := (if 0 < df_initialPopulationCount f then df_initialPopulationCount f - 1 else 0)\<rparr>
      in case df_items f1 k of
           None \<Rightarrow> pop_loop queue f1
         | Some item \<Rightarrow> (PopGot item, f1\<lparr>df_items := (df_items f1)(k := None)\<rparr>))"

definition fifo_Pop :: "DeltaFIFO \<Rightarrow> popped \<times> DeltaFIFO" where
  "fifo_Pop f = pop_loop (df_queue f) f"

section \<open>The informer\<close>

text \<open>The queue, the store and what the event handlers have been told.\<close>

record informer =
  inf_fifo :: DeltaFIFO
  inf_store :: threadSafeMap
  inf_told :: "notification list"

definition NewInformer :: informer where
  "NewInformer = \<lparr>inf_fifo = NewDeltaFIFO, inf_store = NewIndexer source_indexers, inf_told = []\<rparr>"

text \<open>An event of a watch; \<open>watchHandler\<close> passes it to the queue.\<close>

datatype watch_event = WatchAdded GitLabSource | WatchModified GitLabSource | WatchDeleted GitLabSource

fun watchHandler :: "watch_event \<Rightarrow> threadSafeMap \<Rightarrow> DeltaFIFO \<Rightarrow> DeltaFIFO" where
  "watchHandler (WatchAdded obj) known = fifo_Add obj"
| "watchHandler (WatchModified obj) known = fifo_Update obj"
| "watchHandler (WatchDeleted obj) known = fifo_Delete known (Object obj)"

text \<open>
  One turn of \<open>processLoop\<close> that finds a key: the changes go to \<open>HandleDeltas\<close>, whose error
  the loop drops, as \<open>RetryOnError\<close> is not set.  A panic ends the process.
\<close>

definition processLoop_turn :: "informer \<Rightarrow> unit outcome \<times> informer" where
  "processLoop_turn s =
     (case fifo_Pop (inf_fifo s) of
        (PopGot deltas, f) \<Rightarrow>
          (let (r, (c, told)) = HandleDeltas deltas (inf_store s, inf_told s)
           in (case r of Panic \<Rightarrow> Panic | _ \<Rightarrow> Ok (), s\<lparr>inf_fifo := f, inf_store := c, inf_told := told\<rparr>))
      | (_, f) \<Rightarrow> (Ok (), s\<lparr>inf_fifo := f\<rparr>))"

text \<open>
  What happens to the informer: the reflector lists (\<open>syncWith\<close>), receives an event, asks for
  a resync; the loop takes out a key.
\<close>

datatype informer_event = Listed "GitLabSource list" | Watched watch_event | Resynced | Processed

fun informer_step :: "informer_event \<Rightarrow> informer \<Rightarrow> informer" where
  "informer_step (Listed list) s = s\<lparr>inf_fifo := fifo_Replace (inf_store s) list (inf_fifo s)\<rparr>"
| "informer_step (Watched e) s = s\<lparr>inf_fifo := watchHandler e (inf_store s) (inf_fifo s)\<rparr>"
| "informer_step Resynced s = s\<lparr>inf_fifo := fifo_Resync (inf_store s) (inf_fifo s)\<rparr>"
| "informer_step Processed s = snd (processLoop_turn s)"

definition informer_run :: "informer_event list \<Rightarrow> informer \<Rightarrow> informer" where
  "informer_run es s = fold informer_step es s"

section \<open>The queue and the store as one map\<close>

text \<open>
  What the store holds once all changes are processed: the value of the last change of a key,
  and what the store holds for a key without changes.
\<close>

definition expected :: "DeltaFIFO \<Rightarrow> threadSafeMap \<Rightarrow> string \<rightharpoonup> GitLabSource" where
  "expected f c k = (case df_items f k of None \<Rightarrow> map_of (tsm_items c) k | Some ds \<Rightarrow> delta_value (last ds))"

definition fifo_inv :: "DeltaFIFO \<Rightarrow> bool" where
  "fifo_inv f \<longleftrightarrow> distinct (df_queue f) \<and> set (df_queue f) = dom (df_items f)
     \<and> (\<forall>k ds. df_items f k = Some ds \<longrightarrow> ds \<noteq> [] \<and> (\<forall>d\<in>set ds. delta_key d = k))"

lemma NewDeltaFIFO_inv [simp]: "fifo_inv NewDeltaFIFO"
  by (simp add: fifo_inv_def NewDeltaFIFO_def)

lemma fifo_inv_flags [simp]:
  "fifo_inv (f\<lparr>df_populated := b\<rparr>) \<longleftrightarrow> fifo_inv f" "fifo_inv (f\<lparr>df_initialPopulationCount := n\<rparr>) \<longleftrightarrow> fifo_inv f"
  "expected (f\<lparr>df_populated := b\<rparr>) c = expected f c" "expected (f\<lparr>df_initialPopulationCount := n\<rparr>) c = expected f c"
  by (simp_all add: fifo_inv_def expected_def fun_eq_iff)

lemma isDup_value: "isDup a b = Some out \<Longrightarrow> out \<in> {a, b} \<and> delta_value out = None \<and> delta_value a = None"
  by (auto simp: isDup_def isDeletionDup_def split: delta.splits notified.splits)

lemma dedupDeltas_append:
  "dedupDeltas (ds @ [d]) \<noteq> [] \<and> set (dedupDeltas (ds @ [d])) \<subseteq> set (ds @ [d])
     \<and> delta_value (last (dedupDeltas (ds @ [d]))) = delta_value d"
proof (cases ds rule: rev_cases)
  case (snoc es e)
  have nth: "(es @ [e, d]) ! Suc (length es) = d" "(es @ [e, d]) ! length es = e"
    by (simp_all add: nth_append)
  show ?thesis
  proof (cases "isDup d e")
    case (Some out)
    then show ?thesis using isDup_value [OF Some] by (auto simp: snoc dedupDeltas_def Let_def nth)
  qed (simp add: snoc dedupDeltas_def Let_def nth)
qed (simp add: dedupDeltas_def)

lemma isDeleted_value: "isDeleted d \<longleftrightarrow> delta_value d = None"
  by (cases d) (simp_all add: isDeleted_def)

lemma willObjectBeDeleted_eq:
  "willObjectBeDeletedLocked k f \<longleftrightarrow> (\<exists>ds. df_items f k = Some ds \<and> ds \<noteq> [] \<and> delta_value (last ds) = None)"
  by (auto simp: willObjectBeDeletedLocked_def Let_def deltas_of_def isDeleted_value last_conv_nth split: option.split)

text \<open>What one action does to the invariant, to the map and to the queue.\<close>

lemma queueAction_items:
  assumes "fifo_inv f"
  shows "queueActionLocked d f =
    (if isSync d \<and> willObjectBeDeletedLocked (delta_key d) f then f
     else f\<lparr>df_queue := (if delta_key d \<in> set (df_queue f) then df_queue f else df_queue f @ [delta_key d]),
            df_items := (df_items f)(delta_key d \<mapsto> dedupDeltas (deltas_of f (delta_key d) @ [d]))\<rparr>)"
  using assms dedupDeltas_append [of "deltas_of f (delta_key d)" d]
  by (auto simp: queueActionLocked_def Let_def fifo_inv_def dom_def)

lemma queueAction_ok:
  assumes "fifo_inv f"
  shows "fifo_inv (queueActionLocked d f)"
    and "expected (queueActionLocked d f) c =
      (if isSync d \<and> willObjectBeDeletedLocked (delta_key d) f then expected f c else (expected f c)(delta_key d := delta_value d))"
    and "\<exists>ks. df_queue (queueActionLocked d f) = df_queue f @ ks" and "delta_key d \<in> set (df_queue (queueActionLocked d f))"
    and "df_populated (queueActionLocked d f) = df_populated f"
    and "df_initialPopulationCount (queueActionLocked d f) = df_initialPopulationCount f"
proof -
  let ?ds = "dedupDeltas (deltas_of f (delta_key d) @ [d])"
  have old: "\<forall>x\<in>set (deltas_of f (delta_key d)). delta_key x = delta_key d"
    using assms by (cases "df_items f (delta_key d)") (auto simp: fifo_inv_def deltas_of_def)
  have ds: "?ds \<noteq> []" "\<forall>x\<in>set ?ds. delta_key x = delta_key d" "delta_value (last ?ds) = delta_value d"
    using dedupDeltas_append [of "deltas_of f (delta_key d)" d] old by auto
  show "fifo_inv (queueActionLocked d f)"
    using assms ds unfolding queueAction_items [OF assms] by (auto simp: fifo_inv_def)
  show "expected (queueActionLocked d f) c =
      (if isSync d \<and> willObjectBeDeletedLocked (delta_key d) f then expected f c else (expected f c)(delta_key d := delta_value d))"
    using ds(3) by (simp add: queueAction_items [OF assms] expected_def fun_eq_iff)
  show "\<exists>ks. df_queue (queueActionLocked d f) = df_queue f @ ks"
    "df_populated (queueActionLocked d f) = df_populated f"
    "df_initialPopulationCount (queueActionLocked d f) = df_initialPopulationCount f"
    by (simp_all add: queueAction_items [OF assms])
  show "delta_key d \<in> set (df_queue (queueActionLocked d f))"
    using assms by (auto simp: queueAction_items [OF assms] fifo_inv_def willObjectBeDeleted_eq)
qed

text \<open>A listed item that is not yet marked deleted is not marked by a \<open>Sync\<close> of it or of another.\<close>

lemma sync_willBeDeleted:
  assumes "fifo_inv f"
  shows "willObjectBeDeletedLocked k (queueActionLocked (Sync obj) f) = willObjectBeDeletedLocked k f"
  using assms dedupDeltas_append [of "deltas_of f (source_key obj)" "Sync obj"]
  by (auto simp: queueAction_items [OF assms] willObjectBeDeleted_eq isSync_def)

text \<open>What any operation that only queues actions leaves alone.\<close>

definition queued :: "DeltaFIFO \<Rightarrow> DeltaFIFO \<Rightarrow> bool" where
  "queued f g \<longleftrightarrow> fifo_inv g \<and> (\<exists>ks. df_queue g = df_queue f @ ks) \<and> (df_populated f \<longrightarrow> df_populated g)
     \<and> (df_populated f \<longrightarrow> df_initialPopulationCount g = df_initialPopulationCount f)"

lemma queued_refl [simp]: "queued f f \<longleftrightarrow> fifo_inv f"
  by (simp add: queued_def)

lemma queued_trans: "queued f g \<Longrightarrow> queued g h \<Longrightarrow> queued f h"
  by (auto simp: queued_def)

lemma queued_inv: "queued f g \<Longrightarrow> fifo_inv g"
  by (simp add: queued_def)

lemma queued_populated: "queued (f\<lparr>df_populated := True\<rparr>) g \<Longrightarrow> queued f g"
  by (simp add: queued_def)

lemma queued_action: "fifo_inv f \<Longrightarrow> queued f (queueActionLocked d f)"
  using queueAction_ok [of f d] by (simp add: queued_def)

lemma queued_fold: "(\<And>x g. x \<in> set xs \<Longrightarrow> fifo_inv g \<Longrightarrow> queued g (h x g)) \<Longrightarrow> fifo_inv f \<Longrightarrow> queued f (fold h xs f)"
proof (induction xs arbitrary: f)
  case (Cons x xs)
  have first: "queued f (h x f)" using Cons.prems by simp
  have "queued (h x f) (fold h xs (h x f))" using Cons.prems(1) queued_inv [OF first] by (intro Cons.IH) auto
  with first show ?case by (auto intro: queued_trans)
qed simp

lemma sync_items_queued: "fifo_inv f \<Longrightarrow> queued f (sync_items xs f)"
  unfolding sync_items_def by (rule queued_fold) (rule queued_action)

lemma bury_keys_queued: "fifo_inv f \<Longrightarrow> queued f (bury_keys ks f)"
  unfolding bury_keys_def by (rule queued_fold) (rule queued_action)

text \<open>A list as a map: of several items with one key the last counts.\<close>

definition listed_map :: "GitLabSource list \<Rightarrow> string \<rightharpoonup> GitLabSource" where
  "listed_map list = map_of (rev (map (\<lambda>obj. (source_key obj, obj)) list))"

lemma listed_map_Cons:
  "listed_map (x # xs) k = (case listed_map xs k of None \<Rightarrow> if k = source_key x then Some x else None | Some obj \<Rightarrow> Some obj)"
  by (simp add: listed_map_def map_add_def split: option.split)

lemma listed_map_dom: "listed_map xs k = None \<longleftrightarrow> k \<notin> set (map source_key xs)"
  by (simp add: listed_map_def map_of_eq_None_iff image_image)

lemma sync_items_expected:
  assumes "fifo_inv f"
  shows "expected (sync_items xs f) c k =
    (case listed_map xs k of None \<Rightarrow> expected f c k | Some obj \<Rightarrow> if willObjectBeDeletedLocked k f then None else Some obj)"
  using assms
proof (induction xs arbitrary: f)
  case (Cons x xs)
  let ?g = "queueActionLocked (Sync x) f"
  have g: "fifo_inv ?g" using Cons.prems by (rule queueAction_ok(1))
  have dead: "willObjectBeDeletedLocked k f \<Longrightarrow> expected f c k = None"
    by (auto simp: willObjectBeDeleted_eq expected_def)
  have "sync_items (x # xs) f = sync_items xs ?g" by (simp add: sync_items_def)
  then show ?case
    using Cons.IH [OF g] dead
    by (auto simp: listed_map_Cons sync_willBeDeleted [OF Cons.prems] queueAction_ok(2) [OF Cons.prems] isSync_def split: option.split)
qed (simp add: sync_items_def listed_map_def)

lemma bury_keys_expected:
  "fifo_inv f \<Longrightarrow> expected (bury_keys ks f) c k = (if k \<in> set ks then None else expected f c k)"
proof (induction ks arbitrary: f)
  case (Cons x ks)
  let ?g = "queueActionLocked (Deleted (DeletedFinalStateUnknown x)) f"
  have "bury_keys (x # ks) f = bury_keys ks ?g" by (simp add: bury_keys_def)
  then show ?case
    using Cons.IH [OF queueAction_ok(1) [OF Cons.prems]]
    by (simp add: queueAction_ok(2) [OF Cons.prems] isSync_def DeletionHandlingMetaNamespaceKeyFunc_def)
qed (simp add: bury_keys_def)

section \<open>The operations\<close>

lemma fifo_Add_ok: "fifo_inv f \<Longrightarrow> queued f (fifo_Add obj f) \<and> expected (fifo_Add obj f) c = (expected f c)(source_key obj \<mapsto> obj)"
  by (simp add: fifo_Add_def queueAction_ok(2) isSync_def queued_populated queued_action)

lemma fifo_Update_ok: "fifo_inv f \<Longrightarrow> queued f (fifo_Update obj f) \<and> expected (fifo_Update obj f) c = (expected f c)(source_key obj \<mapsto> obj)"
  by (simp add: fifo_Update_def queueAction_ok(2) isSync_def queued_populated queued_action)

lemma fifo_Delete_ok:
  assumes "fifo_inv f"
  shows "queued f (fifo_Delete c obj f)
    \<and> expected (fifo_Delete c obj f) c = (expected f c)(DeletionHandlingMetaNamespaceKeyFunc obj := None)"
proof (cases "GetByKey (DeletionHandlingMetaNamespaceKeyFunc obj) c = None \<and> df_items f (DeletionHandlingMetaNamespaceKeyFunc obj) = None")
  case True
  then show ?thesis using assms
    by (auto simp: fifo_Delete_def expected_def GetByKey_def tsm_Get_def queued_def)
next
  case False
  then have "fifo_Delete c obj f = queueActionLocked (Deleted obj) (f\<lparr>df_populated := True\<rparr>)"
    by (auto simp: fifo_Delete_def Let_def)
  then show ?thesis using assms by (simp add: queueAction_ok(2) isSync_def queued_populated queued_action)
qed

lemma gone_keys_set: "k \<in> set (gone_keys c xs) \<longleftrightarrow> map_of (tsm_items c) k \<noteq> None \<and> listed_map xs k = None"
  by (auto simp: gone_keys_def tsm_ListKeys_def listed_map_dom map_of_eq_None_iff)

lemma fifo_Replace_ok:
  assumes "fifo_inv f"
  shows "queued f (fifo_Replace c xs f)"
    and "expected (fifo_Replace c xs f) c k =
      (case listed_map xs k of
         Some obj \<Rightarrow> if willObjectBeDeletedLocked k f then None else Some obj
       | None \<Rightarrow> if map_of (tsm_items c) k \<noteq> None then None else expected f c k)"
proof -
  let ?s = "sync_items xs f"
  let ?b = "bury_keys (gone_keys c xs) ?s"
  have s: "fifo_inv ?s" using sync_items_queued [OF assms] by (rule queued_inv)
  have b: "queued f ?b" using sync_items_queued [OF assms] bury_keys_queued [OF s] by (rule queued_trans)
  then show "queued f (fifo_Replace c xs f)"
    by (auto simp: fifo_Replace_def Let_def queued_def)
  have "expected (fifo_Replace c xs f) c k = expected ?b c k" by (simp add: fifo_Replace_def Let_def)
  then show "expected (fifo_Replace c xs f) c k =
      (case listed_map xs k of
         Some obj \<Rightarrow> if willObjectBeDeletedLocked k f then None else Some obj
       | None \<Rightarrow> if map_of (tsm_items c) k \<noteq> None then None else expected f c k)"
    by (auto simp: bury_keys_expected [OF s] gone_keys_set sync_items_expected [OF assms] split: option.splits)
qed

text \<open>A resync changes nothing but the queue: the store's objects are under their keys.\<close>

lemma syncKey_ok:
  assumes "fifo_inv f" and "cache_ok c"
  shows "queued f (syncKeyLocked c k f) \<and> expected (syncKeyLocked c k f) c = expected f c"
proof (cases "map_of (tsm_items c) k")
  case (Some obj)
  then have k: "k = source_key obj" using assms(2) by (auto simp: cache_ok_def dest!: map_of_SomeD)
  show ?thesis
  proof (cases "df_items f k")
    case None
    then have "expected f c k = Some obj" using Some by (simp add: expected_def)
    then show ?thesis using assms(1) Some
      by (auto simp: syncKeyLocked_def GetByKey_def tsm_Get_def queueAction_ok(2) queued_action k fun_upd_idem_iff)
  next
    case (Some ds)
    then have "0 < length (deltas_of f (source_key obj))"
      using assms(1) by (simp add: k deltas_of_def fifo_inv_def)
    then show ?thesis using \<open>map_of (tsm_items c) k = Some obj\<close> assms(1)
      by (simp add: syncKeyLocked_def GetByKey_def tsm_Get_def)
  qed
qed (simp add: syncKeyLocked_def GetByKey_def tsm_Get_def assms)

lemma fifo_Resync_ok:
  assumes "fifo_inv f" and "cache_ok c"
  shows "queued f (fifo_Resync c f) \<and> expected (fifo_Resync c f) c = expected f c"
proof -
  have "fifo_inv f \<Longrightarrow> queued f (fold (syncKeyLocked c) ks f) \<and> expected (fold (syncKeyLocked c) ks f) c = expected f c" for ks
  proof (induction ks arbitrary: f)
    case (Cons k ks)
    have k: "queued f (syncKeyLocked c k f)" "expected (syncKeyLocked c k f) c = expected f c"
      using syncKey_ok [OF Cons.prems assms(2)] by simp_all
    with Cons.IH [OF queued_inv [OF k(1)]] show ?case by (auto intro: queued_trans)
  qed simp
  with assms(1) show ?thesis by (simp add: fifo_Resync_def)
qed

text \<open>\<open>Pop\<close> takes the first key of the queue, which has changes, all of that key.\<close>

lemma fifo_Pop_ok:
  assumes "fifo_inv f" and "df_queue f = k # q"
  obtains ds where "df_items f k = Some ds" and "ds \<noteq> []" and "\<forall>d\<in>set ds. delta_key d = k"
    and "fifo_Pop f = (PopGot ds, f\<lparr>df_queue := q, df_initialPopulationCount := df_initialPopulationCount f - 1,
           df_items := (df_items f)(k := None)\<rparr>)"
    and "fifo_inv (snd (fifo_Pop f))"
proof -
  have "k \<in> dom (df_items f)" using assms unfolding fifo_inv_def by (metis list.set_intros(1))
  then obtain ds where ds: "df_items f k = Some ds" by blast
  have pop: "fifo_Pop f = (PopGot ds, f\<lparr>df_queue := q, df_initialPopulationCount := df_initialPopulationCount f - 1,
           df_items := (df_items f)(k := None)\<rparr>)"
    by (simp add: fifo_Pop_def assms(2) ds Let_def)
  have "set q = dom (df_items f) - {k}" using assms by (auto simp: fifo_inv_def)
  then have "fifo_inv (snd (fifo_Pop f))" using assms by (auto simp: pop fifo_inv_def)
  with that [of ds] ds pop assms(1) show thesis by (simp add: fifo_inv_def)
qed

lemma fifo_Pop_empty: "df_queue f = [] \<Longrightarrow> fifo_Pop f = (if df_closed f then PopClosed else PopWaits, f)"
  by (simp add: fifo_Pop_def)

lemma fold_apply_one_key:
  "(\<forall>d\<in>set ds. delta_key d = k) \<Longrightarrow> ds \<noteq> [] \<Longrightarrow> fold apply_delta ds m = m(k := delta_value (last ds))"
proof (induction ds arbitrary: m)
  case (Cons d ds)
  then show ?case by (cases "ds = []") (auto simp: apply_delta_def fun_eq_iff)
qed simp

section \<open>The informer as a map\<close>

definition inf_ok :: "informer \<Rightarrow> bool" where
  "inf_ok s \<longleftrightarrow> fifo_inv (inf_fifo s) \<and> cache_ok (inf_store s)"

definition inf_map :: "informer \<Rightarrow> string \<rightharpoonup> GitLabSource" where
  "inf_map s = expected (inf_fifo s) (inf_store s)"

lemma NewInformer_ok [simp]: "inf_ok NewInformer"
  by (simp add: inf_ok_def NewInformer_def NewIndexer_ok)

lemma NewInformer_map [simp]: "inf_map NewInformer = Map.empty"
  by (simp add: inf_map_def expected_def NewInformer_def NewDeltaFIFO_def NewIndexer_def NewThreadSafeStore_def fun_eq_iff)

text \<open>With nothing queued the store is the map.\<close>

lemma inf_map_settled:
  "inf_ok s \<Longrightarrow> df_queue (inf_fifo s) = [] \<Longrightarrow> inf_map s = map_of (tsm_items (inf_store s))"
  by (intro ext) (auto simp: inf_ok_def fifo_inv_def inf_map_def expected_def dom_def split: option.split)

lemma processLoop_turn_ok:
  assumes "inf_ok s" and "df_queue (inf_fifo s) = k # q"
  obtains t ds where "processLoop_turn s = (Ok (), t)" and "inf_ok t" and "inf_map t = inf_map s"
    and "df_queue (inf_fifo t) = q" and "df_populated (inf_fifo t) = df_populated (inf_fifo s)"
    and "df_initialPopulationCount (inf_fifo t) = df_initialPopulationCount (inf_fifo s) - 1"
    and "inf_told t = inf_told s @ announcements (map_of (tsm_items (inf_store s))) ds"
    and "ds \<noteq> []" and "\<forall>d\<in>set ds. delta_key d = k"
    and "map_of (tsm_items (inf_store t)) = (map_of (tsm_items (inf_store s)))(k := inf_map s k)"
proof -
  let ?f = "inf_fifo s"
  have inv: "fifo_inv ?f" and c: "cache_ok (inf_store s)" using assms(1) by (simp_all add: inf_ok_def)
  obtain ds where ds: "df_items ?f k = Some ds" "ds \<noteq> []" "\<forall>d\<in>set ds. delta_key d = k"
    and pop: "fifo_Pop ?f = (PopGot ds, ?f\<lparr>df_queue := q, df_initialPopulationCount := df_initialPopulationCount ?f - 1,
           df_items := (df_items ?f)(k := None)\<rparr>)" and inv': "fifo_inv (snd (fifo_Pop ?f))"
    by (rule fifo_Pop_ok [OF inv assms(2)])
  from HandleDeltas_ok [OF c, of ds "inf_told s"] obtain c' where
    h: "HandleDeltas ds (inf_store s, inf_told s) = (Ok (), (c', inf_told s @ announcements (map_of (tsm_items (inf_store s))) ds))"
      "cache_ok c'" "map_of (tsm_items c') = fold apply_delta ds (map_of (tsm_items (inf_store s)))" by blast
  have c': "map_of (tsm_items c') = (map_of (tsm_items (inf_store s)))(k := delta_value (last ds))"
    unfolding h(3) by (rule fold_apply_one_key [OF ds(3,2)])
  have kv: "inf_map s k = delta_value (last ds)" by (simp add: inf_map_def expected_def ds(1))
  let ?t = "s\<lparr>inf_fifo := snd (fifo_Pop ?f), inf_store := c',
              inf_told := inf_told s @ announcements (map_of (tsm_items (inf_store s))) ds\<rparr>"
  have "processLoop_turn s = (Ok (), ?t)" by (simp add: processLoop_turn_def pop h(1))
  moreover have "inf_ok ?t" using inv' h(2) by (simp add: inf_ok_def)
  moreover have "inf_map ?t = inf_map s"
    by (intro ext) (simp add: inf_map_def expected_def pop c' ds(1) split: option.split)
  ultimately show thesis using that [of ?t ds] pop ds(2,3) c' kv by simp
qed

lemma processLoop_turn_empty:
  "df_queue (inf_fifo s) = [] \<Longrightarrow> processLoop_turn s = (Ok (), s)"
  by (simp add: processLoop_turn_def fifo_Pop_empty)

text \<open>What the watch says of the map, event by event.\<close>

fun watched_map :: "watch_event \<Rightarrow> (string \<rightharpoonup> GitLabSource) \<Rightarrow> (string \<rightharpoonup> GitLabSource)" where
  "watched_map (WatchAdded obj) m = m(source_key obj \<mapsto> obj)"
| "watched_map (WatchModified obj) m = m(source_key obj \<mapsto> obj)"
| "watched_map (WatchDeleted obj) m = m(source_key obj := None)"

fun server_map :: "informer_event \<Rightarrow> (string \<rightharpoonup> GitLabSource) \<Rightarrow> (string \<rightharpoonup> GitLabSource)" where
  "server_map (Listed list) m = listed_map list"
| "server_map (Watched e) m = watched_map e m"
| "server_map Resynced m = m"
| "server_map Processed m = m"

lemma watchHandler_ok:
  "fifo_inv f \<Longrightarrow> queued f (watchHandler e c f) \<and> expected (watchHandler e c f) c = watched_map e (expected f c)"
  by (cases e) (simp_all add: fifo_Add_ok fifo_Update_ok fifo_Delete_ok source_key_def)

text \<open>Every step but the processing of a key only queues.\<close>

lemma informer_step_queues:
  assumes "inf_ok s" and "e \<noteq> Processed"
  shows "queued (inf_fifo s) (inf_fifo (informer_step e s))" and "inf_store (informer_step e s) = inf_store s"
    and "inf_told (informer_step e s) = inf_told s"
  using assms fifo_Replace_ok(1) watchHandler_ok fifo_Resync_ok by (cases e; simp add: inf_ok_def)+

lemma informer_step_ok:
  assumes "inf_ok s"
  shows "inf_ok (informer_step e s)"
proof (cases "e = Processed")
  case True
  show ?thesis
  proof (cases "df_queue (inf_fifo s)")
    case Nil
    then show ?thesis using assms True by (simp add: processLoop_turn_empty)
  next
    case (Cons k q)
    obtain t ds where "processLoop_turn s = (Ok (), t)" and "inf_ok t" by (rule processLoop_turn_ok [OF assms Cons]) blast
    then show ?thesis using True by simp
  qed
next
  case False
  then show ?thesis using informer_step_queues [OF assms False] assms by (simp add: inf_ok_def queued_inv)
qed

lemma informer_run_ok: "inf_ok s \<Longrightarrow> inf_ok (informer_run es s)"
  unfolding informer_run_def by (induction es arbitrary: s) (simp_all add: informer_step_ok)

text \<open>A step changes the map as the server's events say; for a list, where nothing is queued.\<close>

lemma informer_step_map:
  assumes "inf_ok s" and "\<And>list. e = Listed list \<Longrightarrow> df_queue (inf_fifo s) = []"
  shows "inf_map (informer_step e s) = server_map e (inf_map s)"
proof (cases e)
  case (Listed list)
  have "df_items (inf_fifo s) = Map.empty" using assms Listed by (auto simp: inf_ok_def fifo_inv_def)
  then show ?thesis using fifo_Replace_ok(2) assms(1) Listed
    by (intro ext) (auto simp: inf_ok_def inf_map_def willObjectBeDeleted_eq expected_def split: option.split)
next
  case (Watched w)
  then show ?thesis using watchHandler_ok assms(1) by (simp add: inf_ok_def inf_map_def)
next
  case Resynced
  then show ?thesis using fifo_Resync_ok assms(1) by (simp add: inf_ok_def inf_map_def)
next
  case Processed
  show ?thesis
  proof (cases "df_queue (inf_fifo s)")
    case Nil
    then show ?thesis using Processed by (simp add: processLoop_turn_empty)
  next
    case (Cons k q)
    obtain t ds where "processLoop_turn s = (Ok (), t)" and "inf_map t = inf_map s" by (rule processLoop_turn_ok [OF assms(1) Cons]) blast
    then show ?thesis using Processed by simp
  qed
qed

end
