(* ===== verification/InformerProperties.thy ===== *)
theory InformerProperties
  imports DeltaFIFO ControllerLoop
begin

text \<open>
  The properties of the informer: what its cache holds follows the lists and events of the
  API server, when it counts as synchronised its handlers have been told of the first list,
  and what a second list can miss.
\<close>

section \<open>Following the server\<close>

text \<open>The lists of a run that came when nothing was queued.\<close>

fun settled_lists :: "informer_event list \<Rightarrow> informer \<Rightarrow> bool" where
  "settled_lists [] s \<longleftrightarrow> True"
| "settled_lists (e # es) s \<longleftrightarrow>
     (case e of Listed _ \<Rightarrow> df_queue (inf_fifo s) = [] | _ \<Rightarrow> True) \<and> settled_lists es (informer_step e s)"

lemma informer_run_map:
  "inf_ok s \<Longrightarrow> settled_lists es s \<Longrightarrow> inf_map (informer_run es s) = fold server_map es (inf_map s)"
proof (induction es arbitrary: s)
  case (Cons e es)
  have "inf_map (informer_step e s) = server_map e (inf_map s)"
    using Cons.prems by (intro informer_step_map) auto
  with Cons.IH [of "informer_step e s"] Cons.prems show ?case
    by (simp add: informer_run_def informer_step_ok)
qed (simp add: informer_run_def)

text \<open>The informer follows the server: whatever lists, watch events, resyncs and turns of
  its loop come in whatever order, as long as a list comes when nothing is queued, the store
  with the queued changes is the map the lists and events describe; the store's index stays
  coherent, no turn of the loop panics, and once nothing is queued the lister reads that map.\<close>

theorem informer_follows_server:
  assumes "inf_ok s" and "settled_lists es s"
  shows "inf_ok (informer_run es s) \<and> inf_map (informer_run es s) = fold server_map es (inf_map s)
    \<and> fst (processLoop_turn (informer_run es s)) = Ok ()
    \<and> (df_queue (inf_fifo (informer_run es s)) = [] \<longrightarrow>
         (\<forall>k. GetByKey k (inf_store (informer_run es s)) = fold server_map es (inf_map s) k))"
proof -
  have ok: "inf_ok (informer_run es s)" using assms(1) by (rule informer_run_ok)
  have map: "inf_map (informer_run es s) = fold server_map es (inf_map s)" using assms by (rule informer_run_map)
  have "fst (processLoop_turn (informer_run es s)) = Ok ()"
  proof (cases "df_queue (inf_fifo (informer_run es s))")
    case (Cons k q)
    obtain t ds where "processLoop_turn (informer_run es s) = (Ok (), t)" by (rule processLoop_turn_ok [OF ok Cons]) blast
    then show ?thesis by simp
  qed (simp add: processLoop_turn_empty)
  with ok map inf_map_settled [OF ok] show ?thesis by (simp add: GetByKey_def tsm_Get_def)
qed

theorem informer_follows_server_witness:
  "inf_map (informer_run [Listed [demo_source], Processed, Watched (WatchDeleted demo_source)] NewInformer) = Map.empty"
proof -
  let ?es = "[Listed [demo_source], Processed, Watched (WatchDeleted demo_source)]"
  have "settled_lists ?es NewInformer" by (simp add: NewInformer_def NewDeltaFIFO_def)
  from informer_follows_server [OF NewInformer_ok this] show ?thesis
    by (simp add: listed_map_def)
qed

section \<open>Delivery\<close>

lemma drain:
  assumes "inf_ok s" and "df_queue (inf_fifo s) = q"
  shows "\<exists>t ns. informer_run (replicate (length q) Processed) s = t \<and> inf_ok t \<and> df_queue (inf_fifo t) = [] \<and> inf_map t = inf_map s
    \<and> inf_told t = inf_told s @ ns \<and> set (map notified_key ns) = set q"
  using assms
proof (induction q arbitrary: s)
  case (Cons k q)
  obtain u ds where u: "processLoop_turn s = (Ok (), u)" "inf_ok u" "inf_map u = inf_map s" "df_queue (inf_fifo u) = q"
    "inf_told u = inf_told s @ announcements (map_of (tsm_items (inf_store s))) ds" "ds \<noteq> []" "\<forall>d\<in>set ds. delta_key d = k"
    by (rule processLoop_turn_ok [OF Cons.prems]) blast
  have keys: "set (map notified_key (announcements (map_of (tsm_items (inf_store s))) ds)) = {k}"
    unfolding notified_announcements using u(6,7) by (cases ds) auto
  from Cons.IH [OF u(2,4)] obtain t ns where t: "informer_run (replicate (length q) Processed) u = t" "inf_ok t"
    "df_queue (inf_fifo t) = []" "inf_map t = inf_map u" "inf_told t = inf_told u @ ns" "set (map notified_key ns) = set q" by blast
  have "informer_run (replicate (length (k # q)) Processed) s = t" using t(1) u(1) by (simp add: informer_run_def)
  with t u(3,5) keys show ?case by (intro exI [of _ t] exI [of _ "announcements (map_of (tsm_items (inf_store s))) ds @ ns"]) auto
qed (simp add: informer_run_def)

text \<open>C17: the loop gets through: as many turns as keys are queued empty the queue, the store
  then holds the map that store and queue stood for, and every key that was queued has been
  announced, so that the handlers of \<open>NewController\<close> have put it into the controller's queue,
  unless that shuts down.  Every key whose object changed in the store is among them.\<close>

theorem informer_delivers:
  assumes "inf_ok s" and "\<not> q_shuttingDown (c_queue ctl)"
  shows "let t = informer_run (replicate (length (df_queue (inf_fifo s))) Processed) s;
             told = drop (length (inf_told s)) (inf_told t)
         in df_queue (inf_fifo t) = [] \<and> (\<forall>k. GetByKey k (inf_store t) = inf_map s k)
            \<and> (\<forall>k. k \<in> set (df_queue (inf_fifo s)) \<or> GetByKey k (inf_store t) \<noteq> GetByKey k (inf_store s)
                 \<longrightarrow> k \<in> q_dirty (c_queue (fold event_handler told ctl)))"
proof -
  obtain t ns where t: "informer_run (replicate (length (df_queue (inf_fifo s))) Processed) s = t" "inf_ok t"
    "df_queue (inf_fifo t) = []" "inf_map t = inf_map s" "inf_told t = inf_told s @ ns" "set (map notified_key ns) = set (df_queue (inf_fifo s))"
    using drain [OF assms(1) refl] by blast
  have get: "GetByKey k (inf_store t) = inf_map s k" for k
    using inf_map_settled [OF t(2,3)] t(4) by (simp add: GetByKey_def tsm_Get_def)
  have "k \<in> set (df_queue (inf_fifo s))" if "GetByKey k (inf_store t) \<noteq> GetByKey k (inf_store s)" for k
  proof (rule ccontr)
    assume "k \<notin> set (df_queue (inf_fifo s))"
    then have "df_items (inf_fifo s) k = None" using assms(1) by (auto simp: inf_ok_def fifo_inv_def)
    then have "inf_map s k = GetByKey k (inf_store s)" by (simp add: inf_map_def expected_def GetByKey_def tsm_Get_def)
    with that get show False by simp
  qed
  moreover have "k \<in> q_dirty (c_queue (fold event_handler ns ctl))" if "k \<in> set (df_queue (inf_fifo s))" for k
    using enqueued_all [OF assms(2), of ns] that t(6) by auto
  ultimately show ?thesis using t(1,3,5) get by (auto simp: Let_def)
qed

theorem informer_delivers_witness:
  "\<not> q_shuttingDown (c_queue (ctl_init 1 (demo_state demo_source)))
   \<and> GetByKey ''ns/src'' (inf_store (informer_run [Processed] (informer_step (Listed [demo_source]) NewInformer))) = Some demo_source"
proof -
  let ?s = "informer_step (Listed [demo_source]) NewInformer"
  have key: "source_key demo_source = ''ns/src''"
    by (simp add: source_key_def DeletionHandlingMetaNamespaceKeyFunc_def MetaNamespaceKeyFunc_def demo_source_def demo_meta_def)
  have ok: "inf_ok ?s" using NewInformer_ok by (rule informer_step_ok)
  have empty: "df_queue (inf_fifo NewInformer) = []" by (simp add: NewInformer_def NewDeltaFIFO_def)
  have q: "df_queue (inf_fifo ?s) = [''ns/src'']"
    by (simp add: NewInformer_def NewDeltaFIFO_def fifo_Replace_def sync_items_def bury_keys_def gone_keys_def tsm_ListKeys_def
        NewIndexer_def NewThreadSafeStore_def queueActionLocked_def key willObjectBeDeletedLocked_def deltas_of_def dedupDeltas_def Let_def)
  have run: "\<not> q_shuttingDown (c_queue (ctl_init 1 (demo_state demo_source)))" by (simp add: ctl_init_def q_New_def)
  have "inf_map ?s = server_map (Listed [demo_source]) (inf_map NewInformer)"
    using NewInformer_ok empty by (intro informer_step_map) auto
  then have "inf_map ?s ''ns/src'' = Some demo_source" by (simp add: listed_map_def key)
  with informer_delivers [OF ok run] q run show ?thesis by (simp add: Let_def)
qed

section \<open>Synchronisation\<close>

definition synced_inv :: "string set \<Rightarrow> informer \<Rightarrow> bool" where
  "synced_inv K s \<longleftrightarrow> inf_ok s \<and> df_populated (inf_fifo s)
     \<and> K \<subseteq> notified_key ` set (inf_told s) \<union> set (take (df_initialPopulationCount (inf_fifo s)) (df_queue (inf_fifo s)))"

lemma synced_inv_step:
  assumes "synced_inv K s"
  shows "synced_inv K (informer_step e s)"
proof (cases "e = Processed")
  case False
  have ok: "inf_ok s" using assms by (simp add: synced_inv_def)
  from informer_step_queues [OF ok False] obtain ks where
    "df_queue (inf_fifo (informer_step e s)) = df_queue (inf_fifo s) @ ks"
    "df_populated (inf_fifo s) \<longrightarrow> df_populated (inf_fifo (informer_step e s))"
    "df_populated (inf_fifo s) \<longrightarrow>
       df_initialPopulationCount (inf_fifo (informer_step e s)) = df_initialPopulationCount (inf_fifo s)"
    "inf_told (informer_step e s) = inf_told s" by (auto simp: queued_def)
  with assms informer_step_ok [OF ok, of e] show ?thesis by (auto simp: synced_inv_def)
next
  case True
  have ok: "inf_ok s" using assms by (simp add: synced_inv_def)
  show ?thesis
  proof (cases "df_queue (inf_fifo s)")
    case Nil
    then show ?thesis using assms True by (simp add: processLoop_turn_empty)
  next
    case (Cons k q)
    obtain t ds where t: "processLoop_turn s = (Ok (), t)" "inf_ok t" "df_queue (inf_fifo t) = q"
      "df_populated (inf_fifo t) = df_populated (inf_fifo s)"
      "df_initialPopulationCount (inf_fifo t) = df_initialPopulationCount (inf_fifo s) - 1"
      "inf_told t = inf_told s @ announcements (map_of (tsm_items (inf_store s))) ds" "ds \<noteq> []" "\<forall>d\<in>set ds. delta_key d = k"
      by (rule processLoop_turn_ok [OF ok Cons]) blast
    have "notified_key ` set (announcements (map_of (tsm_items (inf_store s))) ds) = delta_key ` set ds"
      using notified_announcements [of "map_of (tsm_items (inf_store s))" ds] by (metis set_map)
    then have k: "k \<in> notified_key ` set (inf_told t)" using t(6,7,8) by (cases ds) auto
    have "K \<subseteq> notified_key ` set (inf_told t) \<union> set (take (df_initialPopulationCount (inf_fifo s) - 1) q)"
      using assms k t(6) by (cases "df_initialPopulationCount (inf_fifo s)") (auto simp: synced_inv_def Cons)
    then show ?thesis using assms t True by (simp add: synced_inv_def)
  qed
qed

lemma synced_inv_run: "synced_inv K s \<Longrightarrow> synced_inv K (informer_run es s)"
  unfolding informer_run_def by (induction es arbitrary: s) (simp_all add: synced_inv_step)

lemma sync_items_queue:
  "fifo_inv f \<Longrightarrow> set (df_queue (sync_items xs f)) = set (df_queue f) \<union> source_key ` set xs
     \<and> df_populated (sync_items xs f) = df_populated f"
proof (induction xs arbitrary: f)
  case (Cons x xs)
  let ?g = "queueActionLocked (Sync x) f"
  have "set (df_queue ?g) = insert (source_key x) (set (df_queue f))"
    using queueAction_ok(4) [OF Cons.prems, of "Sync x"] by (auto simp: queueAction_items [OF Cons.prems])
  then show ?case
    using Cons.IH [OF queueAction_ok(1) [OF Cons.prems]] queueAction_ok(5) [OF Cons.prems]
    by (auto simp: sync_items_def)
qed (simp add: sync_items_def)

lemma first_list: "synced_inv (source_key ` set xs) (informer_step (Listed xs) NewInformer)"
proof -
  let ?f = "sync_items xs NewDeltaFIFO"
  have q: "set (df_queue ?f) = source_key ` set xs" "\<not> df_populated ?f" "fifo_inv ?f"
    using sync_items_queue [OF NewDeltaFIFO_inv, of xs] queued_inv [OF sync_items_queued [OF NewDeltaFIFO_inv, of xs]]
    by (simp_all add: NewDeltaFIFO_def)
  then have "length (df_queue ?f) = card (source_key ` set xs)" by (metis distinct_card fifo_inv_def)
  also have "\<dots> \<le> length xs" using card_image_le [of "set xs" source_key] card_length [of xs] by simp
  finally have all: "take (length xs) (df_queue ?f) = df_queue ?f" by simp
  have "gone_keys (NewIndexer source_indexers) xs = []"
    by (simp add: gone_keys_def tsm_ListKeys_def NewIndexer_def NewThreadSafeStore_def)
  then have "fifo_Replace (NewIndexer source_indexers) xs NewDeltaFIFO
      = ?f\<lparr>df_populated := True, df_initialPopulationCount := length xs\<rparr>"
    using q(2) by (simp add: fifo_Replace_def bury_keys_def)
  with all q informer_step_ok [OF NewInformer_ok, of "Listed xs"] show ?thesis
    by (simp add: synced_inv_def NewInformer_def)
qed



section \<open>Listing again\<close>

text \<open>C33: a list that comes while changes are queued need not be what the informer goes on
  with.  It is exactly if no listed key has a deletion as its last queued change, because
  that makes \<open>Replace\<close> drop the listed object, and no key outside the list and the store has
  an object queued, because \<open>Replace\<close> compares the list with the store only.  In the first
  case a source that was deleted and created again stays unknown, in the second one that is
  gone stays in the cache, until the next event for it.\<close>

theorem relist_exact_iff:
  assumes "inf_ok s"
  shows "inf_map (informer_step (Listed xs) s) = listed_map xs \<longleftrightarrow>
    (\<forall>k. if k \<in> source_key ` set xs then \<not> willObjectBeDeletedLocked k (inf_fifo s)
         else GetByKey k (inf_store s) = None \<longrightarrow> inf_map s k = None)"
proof -
  have inv: "fifo_inv (inf_fifo s)" using assms by (simp add: inf_ok_def)
  have "inf_map (informer_step (Listed xs) s) k = listed_map xs k \<longleftrightarrow>
      (if k \<in> source_key ` set xs then \<not> willObjectBeDeletedLocked k (inf_fifo s)
       else GetByKey k (inf_store s) = None \<longrightarrow> inf_map s k = None)" for k
    using listed_map_dom [of xs k] fifo_Replace_ok(2) [OF inv, of "inf_store s" xs k]
    by (auto simp: inf_map_def GetByKey_def tsm_Get_def split: option.splits)
  then show ?thesis by (simp add: fun_eq_iff)
qed

theorem relist_exact_iff_witness:
  "inf_map (informer_run [Listed [demo_source], Processed, Watched (WatchDeleted demo_source), Listed [demo_source]] NewInformer)
     \<noteq> listed_map [demo_source]"
proof -
  let ?es = "[Listed [demo_source], Processed, Watched (WatchDeleted demo_source)]"
  let ?r = "informer_run [Listed [demo_source], Processed] NewInformer"
  let ?s = "informer_run ?es NewInformer"
  have ok: "inf_ok ?r" "inf_ok ?s" using NewInformer_ok by (simp_all only: informer_run_ok)
  let ?i = "informer_step (Listed [demo_source]) NewInformer"
  have "df_queue (inf_fifo NewInformer) = []" by (simp add: NewInformer_def NewDeltaFIFO_def)
  then have "inf_map ?i = server_map (Listed [demo_source]) (inf_map NewInformer)"
    using NewInformer_ok by (intro informer_step_map) auto
  moreover have "inf_map (informer_step Processed ?i) = server_map Processed (inf_map ?i)"
    by (rule informer_step_map [OF informer_step_ok [OF NewInformer_ok]]) simp
  ultimately have r: "inf_map ?r (source_key demo_source) = Some demo_source"
    by (simp add: informer_run_def listed_map_def)
  have "willObjectBeDeletedLocked (source_key demo_source) (inf_fifo ?s)"
  proof -
    have f: "fifo_inv (inf_fifo ?r)" using ok(1) by (simp add: inf_ok_def)
    have "\<not> (GetByKey (source_key demo_source) (inf_store ?r) = None \<and> df_items (inf_fifo ?r) (source_key demo_source) = None)"
      using r by (auto simp: inf_map_def expected_def GetByKey_def tsm_Get_def)
    then have "inf_fifo ?s = queueActionLocked (Deleted (Object demo_source)) ((inf_fifo ?r)\<lparr>df_populated := True\<rparr>)"
      by (auto simp: informer_run_def fifo_Delete_def Let_def source_key_def)
    then show ?thesis
      using dedupDeltas_append f
      by (simp add: queueAction_items willObjectBeDeleted_eq isSync_def source_key_def)
  qed
  then have "\<not> (\<forall>k. if k \<in> source_key ` set [demo_source] then \<not> willObjectBeDeletedLocked k (inf_fifo ?s)
         else GetByKey k (inf_store ?s) = None \<longrightarrow> inf_map ?s k = None)" by auto
  then show ?thesis using relist_exact_iff [OF ok(2), of "[demo_source]"] by (simp add: informer_run_def)
qed

end
