(* ===== verification/System.thy ===== *)
theory System
  imports InformerProperties
begin

text \<open>
  The controller as a whole: the informer, the notifications on their way to the event
  handlers, the queue with its workers, and \<open>Reconcile\<close> over the cache the informer fills, as
  one step relation.  The API server's lists and watch events come in any order, the loop of
  the informer, the delivery of notifications and the workers interleave in any way.
\<close>

section \<open>State and steps\<close>

text \<open>
  Besides the parts, two records of what happened: the events the informer has heard, and for
  each key what the last run of it found in the cache and returned.
\<close>

record system =
  sy_informer :: informer
  sy_pending :: "notification list"
  sy_ctl :: "(string, rstate) controller"
  sy_heard :: "informer_event list"
  sy_last :: "string \<rightharpoonup> GitLabSource option \<times> unit outcome"

definition system_init :: "nat \<Rightarrow> rstate \<Rightarrow> system" where
  "system_init n w = \<lparr>sy_informer = NewInformer, sy_pending = [], sy_ctl = ctl_init n (w\<lparr>st_cache := Map.empty\<rparr>),
     sy_heard = [], sy_last = Map.empty\<rparr>"

text \<open>What \<open>Reconcile\<close> finds for a key.\<close>

definition found :: "string \<Rightarrow> rstate \<Rightarrow> GitLabSource option" where
  "found key w = (case SplitMetaNamespaceKey key of Inl _ \<Rightarrow> None | Inr (ns, name) \<Rightarrow> st_cache w (lister_key ns name))"

definition onWorld :: "(rstate \<Rightarrow> rstate) \<Rightarrow> (string, rstate) controller \<Rightarrow> (string, rstate) controller" where
  "onWorld f c = c\<lparr>c_world := f (c_world c)\<rparr>"

text \<open>The lister's object of each given key becomes the one in the store of the informer.\<close>

definition refresh :: "string set \<Rightarrow> threadSafeMap \<Rightarrow> rstate \<Rightarrow> rstate" where
  "refresh ks c w = w\<lparr>st_cache := (\<lambda>k. if k \<in> ks then GetByKey k c else st_cache w k)\<rparr>"

definition hear :: "informer_event \<Rightarrow> system \<Rightarrow> system" where
  "hear e s =
     (let inf = informer_step e (sy_informer s); told = drop (length (inf_told (sy_informer s))) (inf_told inf)
      in s\<lparr>sy_informer := inf, sy_pending := sy_pending s @ told, sy_heard := sy_heard s @ [e],
           sy_ctl := onWorld (refresh (notified_key ` set told) (inf_store inf)) (sy_ctl s)\<rparr>)"

definition note_run :: "string label \<Rightarrow> rstate \<Rightarrow> (string \<rightharpoonup> GitLabSource option \<times> unit outcome) \<Rightarrow> (string \<rightharpoonup> GitLabSource option \<times> unit outcome)" where
  "note_run l w runs = (case l of Ran i k res \<Rightarrow> runs(k \<mapsto> (found k w, res)) | _ \<Rightarrow> runs)"

text \<open>Others do not touch the cache.\<close>

definition same_cache :: "rstate \<Rightarrow> rstate \<Rightarrow> bool" where
  "same_cache w w' \<longleftrightarrow> st_cache w' = st_cache w"

inductive sys_step :: "Reconciler \<Rightarrow> system \<Rightarrow> system \<Rightarrow> bool" for r where
  sys_hear: "\<not> c_crashed (sy_ctl s) \<Longrightarrow> sys_step r s (hear e s)"
| sys_deliver: "\<not> c_crashed (sy_ctl s) \<Longrightarrow> sy_pending s = n # ns
    \<Longrightarrow> sys_step r s (s\<lparr>sy_pending := ns, sy_ctl := event_handler n (sy_ctl s)\<rparr>)"
| sys_ctl: "ctl_step (Reconcile r) same_cache (sy_ctl s) l c
    \<Longrightarrow> sys_step r s (s\<lparr>sy_ctl := c, sy_last := note_run l (c_world (sy_ctl s)) (sy_last s)\<rparr>)"

definition sys_reach :: "Reconciler \<Rightarrow> system \<Rightarrow> system \<Rightarrow> bool" where
  "sys_reach r = (sys_step r)\<^sup>*\<^sup>*"

section \<open>What a source asks for\<close>

text \<open>A run writes into the cached object its status and its finalizers only.\<close>

definition desired :: "GitLabSource \<Rightarrow> ObjectMeta \<times> GitLabSourceSpec" where
  "desired src = ((gs_meta src)\<lparr>om_Finalizers := []\<rparr>, Spec src)"

definition wanted :: "GitLabSource option \<Rightarrow> (ObjectMeta \<times> GitLabSourceSpec) option" where
  "wanted = map_option desired"

lemma wanted_simps [simp]: "wanted None = None" "wanted (Some src) = Some (desired src)" "wanted x = None \<longleftrightarrow> x = None"
  by (simp_all add: wanted_def)

lemma desired_writes [simp]:
  "desired (src\<lparr>Status := st\<rparr>) = desired src"
  "desired (src\<lparr>gs_meta := (gs_meta src)\<lparr>om_Finalizers := fs\<rparr>\<rparr>) = desired src"
  by (simp_all add: desired_def)

definition keeps_wanted :: "rstate \<Rightarrow> rstate \<Rightarrow> bool" where
  "keeps_wanted s t \<longleftrightarrow> (\<forall>k. wanted (st_cache t k) = wanted (st_cache s k))"

lemma keeps_wanted_refl [simp]: "keeps_wanted s s"
  by (simp add: keeps_wanted_def)

lemma keeps_wanted_put:
  "keeps_wanted s t \<Longrightarrow> st_cache t k = Some src \<Longrightarrow> desired src' = desired src
     \<Longrightarrow> keeps_wanted s (t\<lparr>st_cache := (st_cache t)(k \<mapsto> src'), st_trace := tr\<rparr>)"
  unfolding keeps_wanted_def by (metis fun_upd_apply rstate.select_convs(2) rstate.surjective rstate.update_convs(2,3) wanted_simps(2))

lemma keeps_wpG:
  assumes "\<And>t. I t \<Longrightarrow> wpG m (\<lambda>_. I) (\<lambda>_. I) I t"
  shows "keeps I m"
  unfolding keeps_def
proof (intro allI impI)
  fix t assume "I t"
  from assms [OF this] show "I (snd (m t))" by (simp add: wpG_result split: outcome.splits)
qed

lemma writeBack_wanted: "keeps (keeps_wanted s) (writeBack r original err)"
proof -
  have "keeps (keeps_wanted s) (updateStatus r src)" "keeps (keeps_wanted s) (update r src)" for src
    by (rule keeps_wpG; auto simp: wp_simps Let_def intro!: keeps_wanted_put split: option.split sum.split)+
  moreover have "keeps (keeps_wanted s) (failedUpdate e)" for e
    by (rule keeps_wpG) (simp add: wp_simps keeps_wanted_def)
  ultimately show ?thesis
    unfolding writeBack_def
    by (intro keeps_withSrc keeps_onErr keeps_if keeps_option keeps_retG keeps_failG)
qed

lemma Reconcile_wanted: "keeps_wanted s (snd (Reconcile (newReconciler env scheme img) key s))"
proof -
  let ?r = "newReconciler env scheme img"
  have proc: "keeps_wanted s (snd (process ?r src s))" for src
  proof -
    let ?m = "if om_DeletionTimestamp (gs_meta src) = None then reconcile ?r else finalize ?r"
    have u: "keeps_wanted s (snd (?m (s\<lparr>st_src := src\<rparr>)))"
      using main.stage_end_run [of src s] by (simp add: stage_end_def keeps_wanted_def)
    from snd_onErr [where m = ?m and s = "s\<lparr>st_src := src\<rparr>" and h = "\<lambda>e. writeBack ?r src (Some e)" and k = "\<lambda>_. writeBack ?r src None", OF refl]
    show ?thesis
      unfolding process_eq using u keepsD [OF writeBack_wanted u] by (elim disjE exE) simp_all
  qed
  then show ?thesis by (simp add: Reconcile_eq split: sum.split option.split)
qed

section \<open>No change is missed\<close>

definition object_key :: "string \<Rightarrow> bool" where
  "object_key k \<longleftrightarrow> (\<exists>ns name. CHR ''/'' \<notin> set ns \<and> CHR ''/'' \<notin> set name \<and> k = lister_key ns name)"

lemma found_object: "object_key k \<Longrightarrow> found k w = st_cache w k"
  using SplitMetaNamespaceKey_join by (fastforce simp: object_key_def found_def lister_key_def)

text \<open>The last run of a key found what the cache holds now, as far as it is asked for, and returned nil.\<close>

definition up_to_date :: "(GitLabSource option \<times> unit outcome) option \<Rightarrow> GitLabSource option \<Rightarrow> bool" where
  "up_to_date run cached \<longleftrightarrow>
     (case run of None \<Rightarrow> cached = None | Some (src, res) \<Rightarrow> wanted src = wanted cached \<and> res = Ok ())"

lemma up_to_date_wanted: "wanted x = wanted y \<Longrightarrow> up_to_date run x = up_to_date run y"
  by (cases x; cases y) (auto simp: up_to_date_def split: option.split)

definition fresh :: "system \<Rightarrow> string \<Rightarrow> bool" where
  "fresh s k \<longleftrightarrow> up_to_date (sy_last s k) (st_cache (c_world (sy_ctl s)) k)"

definition noticed :: "system \<Rightarrow> string \<Rightarrow> bool" where
  "noticed s k \<longleftrightarrow> k \<in> notified_key ` set (sy_pending s) \<or> due (sy_ctl s) k \<or> (\<exists>i. c_workers (sy_ctl s) i = Busy k)"

definition sys_inv :: "system \<Rightarrow> bool" where
  "sys_inv s \<longleftrightarrow> inf_ok (sy_informer s) \<and> sy_informer s = informer_run (sy_heard s) NewInformer
     \<and> (\<forall>k. wanted (st_cache (c_world (sy_ctl s)) k) = wanted (GetByKey k (inf_store (sy_informer s))))
     \<and> (\<not> c_crashed (sy_ctl s) \<longrightarrow> \<not> q_shuttingDown (c_queue (sy_ctl s)) \<longrightarrow>
          (\<forall>k. object_key k \<longrightarrow> fresh s k \<or> noticed s k))"

lemma sys_inv_init: "sys_inv (system_init n w)"
proof -
  have "c_world (sy_ctl (system_init n w)) = w\<lparr>st_cache := Map.empty\<rparr>" "sy_last (system_init n w) = Map.empty"
    "sy_informer (system_init n w) = NewInformer" "sy_heard (system_init n w) = []"
    by (simp_all add: system_init_def ctl_init_def)
  moreover have "GetByKey k (inf_store NewInformer) = None" for k
    by (simp add: NewInformer_def NewIndexer_def NewThreadSafeStore_def GetByKey_def tsm_Get_def)
  ultimately show ?thesis by (simp add: sys_inv_def fresh_def up_to_date_def informer_run_def)
qed

text \<open>Hearing an event changes the store at the keys it announces only.\<close>

lemma informer_step_told:
  assumes "inf_ok s"
  obtains told where "inf_told (informer_step e s) = inf_told s @ told"
    and "\<And>k. k \<notin> notified_key ` set told \<Longrightarrow> GetByKey k (inf_store (informer_step e s)) = GetByKey k (inf_store s)"
proof (cases "e = Processed \<and> df_queue (inf_fifo s) \<noteq> []")
  case True
  then obtain k0 q where q: "df_queue (inf_fifo s) = k0 # q" by (cases "df_queue (inf_fifo s)") auto
  obtain t ds where t: "processLoop_turn s = (Ok (), t)" "inf_told t = inf_told s @ announcements (map_of (tsm_items (inf_store s))) ds"
    "ds \<noteq> []" "\<forall>d\<in>set ds. delta_key d = k0" "map_of (tsm_items (inf_store t)) = (map_of (tsm_items (inf_store s)))(k0 := inf_map s k0)"
    by (rule processLoop_turn_ok [OF assms q]) blast
  let ?told = "announcements (map_of (tsm_items (inf_store s))) ds"
  have "notified_key ` set ?told = delta_key ` set ds"
    using notified_announcements [of "map_of (tsm_items (inf_store s))" ds] by (metis set_map)
  then have "notified_key ` set ?told = {k0}" using t(3,4) by (cases ds) auto
  then show thesis using that [of ?told] t True by (simp add: GetByKey_def tsm_Get_def)
next
  case False
  then have "informer_step e s = s \<or> e \<noteq> Processed" by (auto simp: processLoop_turn_empty)
  then have "inf_store (informer_step e s) = inf_store s \<and> inf_told (informer_step e s) = inf_told s"
    using informer_step_queues [OF assms, of e] by auto
  then show thesis using that [of "[]"] by simp
qed

lemma hear_inv:
  assumes "sys_inv s"
  shows "sys_inv (hear e s)"
proof -
  let ?inf = "sy_informer s" and ?w = "c_world (sy_ctl s)"
  have ok: "inf_ok ?inf" using assms unfolding sys_inv_def by blast
  obtain told where told: "inf_told (informer_step e ?inf) = inf_told ?inf @ told"
    "\<And>k. k \<notin> notified_key ` set told \<Longrightarrow> GetByKey k (inf_store (informer_step e ?inf)) = GetByKey k (inf_store ?inf)"
    by (rule informer_step_told [OF ok]) blast
  have hear: "hear e s = s\<lparr>sy_informer := informer_step e ?inf, sy_pending := sy_pending s @ told, sy_heard := sy_heard s @ [e],
      sy_ctl := onWorld (refresh (notified_key ` set told) (inf_store (informer_step e ?inf))) (sy_ctl s)\<rparr>"
    by (simp add: hear_def Let_def told(1))
  have ctl: "c_queue (sy_ctl (hear e s)) = c_queue (sy_ctl s)" "c_crashed (sy_ctl (hear e s)) = c_crashed (sy_ctl s)"
    "c_workers (sy_ctl (hear e s)) = c_workers (sy_ctl s)" "due (sy_ctl (hear e s)) = due (sy_ctl s)"
    by (simp_all add: hear onWorld_def due_def fun_eq_iff)
  have cache: "st_cache (c_world (sy_ctl (hear e s))) k =
      (if k \<in> notified_key ` set told then GetByKey k (inf_store (informer_step e ?inf)) else st_cache ?w k)" for k
    by (simp add: hear onWorld_def refresh_def)
  have parts: "sy_informer (hear e s) = informer_step e ?inf" "sy_heard (hear e s) = sy_heard s @ [e]"
    "sy_last (hear e s) = sy_last s" "sy_pending (hear e s) = sy_pending s @ told" by (simp_all add: hear)
  have "wanted (st_cache (c_world (sy_ctl (hear e s))) k) = wanted (GetByKey k (inf_store (informer_step e ?inf)))" for k
    using assms told(2) [of k] by (simp add: cache sys_inv_def)
  moreover have "fresh (hear e s) k \<or> noticed (hear e s) k" if "fresh s k \<or> noticed s k" for k
    using that by (auto simp: fresh_def noticed_def cache parts ctl)
  moreover have "informer_run (sy_heard s @ [e]) NewInformer = informer_step e ?inf"
    using assms by (simp add: sys_inv_def informer_run_def)
  ultimately show ?thesis
    using assms informer_step_ok [OF ok, of e] unfolding sys_inv_def parts ctl by auto
qed

lemma event_handler_fields [simp]:
  "c_world (event_handler n c) = c_world c" "c_workers (event_handler n c) = c_workers c" "c_crashed (event_handler n c) = c_crashed c"
  "c_queue (event_handler n c) = q_Add (notified_key n) (c_queue c)" "c_waiting (event_handler n c) = c_waiting c"
  "c_chan (event_handler n c) = c_chan c"
  by (simp_all add: event_handler_enqueues)

lemma deliver_inv:
  assumes "sys_inv s" and "sy_pending s = n # ns"
  shows "sys_inv (s\<lparr>sy_pending := ns, sy_ctl := event_handler n (sy_ctl s)\<rparr>)"
proof -
  let ?t = "s\<lparr>sy_pending := ns, sy_ctl := event_handler n (sy_ctl s)\<rparr>"
  have ctl: "c_world (sy_ctl ?t) = c_world (sy_ctl s)" "c_workers (sy_ctl ?t) = c_workers (sy_ctl s)" "c_crashed (sy_ctl ?t) = c_crashed (sy_ctl s)"
    "q_shuttingDown (c_queue (sy_ctl ?t)) = q_shuttingDown (c_queue (sy_ctl s))"
    by (simp_all add: q_Add_def Let_def)
  have "noticed ?t k" if "noticed s k" "\<not> q_shuttingDown (c_queue (sy_ctl s))" for k
    using that assms(2) by (auto simp: noticed_def due_def q_Add_dirty)
  moreover have "fresh ?t k = fresh s k" for k by (simp add: fresh_def ctl)
  ultimately show ?thesis using assms(1) unfolding sys_inv_def ctl by auto
qed

text \<open>A step of the controller that leaves it running was taken by a running one.\<close>

lemma ctl_step_running:
  "ctl_step run env c l c' \<Longrightarrow> \<not> c_crashed c \<and> (q_shuttingDown (c_queue c) \<longrightarrow> q_shuttingDown (c_queue c'))"
proof (induction rule: ctl_step.induct)
  case (loop s ws q)
  then show ?case using loop_turn_facts [OF loop(3)] by simp
qed (auto simp: q_Add_def q_ShutDown_def Let_def dest: q_Get_Got q_Get_Shutdown)

lemma ctl_step_busy:
  "ctl_step run env c l c' \<Longrightarrow> c_workers c i = Busy k \<Longrightarrow> \<forall>res. l \<noteq> Ran i k res \<Longrightarrow> c_workers c' i = Busy k"
  by (induction rule: ctl_step.induct) auto

lemma ctl_step_started: "ctl_step run env c (Started i k) c' \<Longrightarrow> c_workers c' i = Busy k"
  by (auto elim!: ctl_step.cases)

lemma ctl_step_world:
  assumes "ctl_step run same_cache c l c'" and "\<And>i k res. l \<noteq> Ran i k res"
  shows "st_cache (c_world c') = st_cache (c_world c)"
  using assms by (induction rule: ctl_step.induct) (auto simp: same_cache_def)

lemma ctl_inv:
  assumes "sys_inv s" and step: "ctl_step (Reconcile (newReconciler env scheme img)) same_cache (sy_ctl s) l c"
  shows "sys_inv (s\<lparr>sy_ctl := c, sy_last := note_run l (c_world (sy_ctl s)) (sy_last s)\<rparr>)"
proof -
  let ?t = "s\<lparr>sy_ctl := c, sy_last := note_run l (c_world (sy_ctl s)) (sy_last s)\<rparr>"
  have same: "wanted (st_cache (c_world c) k) = wanted (st_cache (c_world (sy_ctl s)) k)" for k
  proof (cases "\<exists>i k res. l = Ran i k res")
    case True
    then obtain i k0 res where "l = Ran i k0 res" by blast
    with step obtain w where "Reconcile (newReconciler env scheme img) k0 (c_world (sy_ctl s)) = (res, w)" "c_world c = w"
      by (auto elim!: ctl_runE)
    then show ?thesis using Reconcile_wanted [of "c_world (sy_ctl s)" env scheme img k0] by (simp add: keeps_wanted_def)
  next
    case False
    then show ?thesis using ctl_step_world [OF step] by auto
  qed
  have "fresh ?t k \<or> noticed ?t k"
    if up: "\<not> c_crashed c" "\<not> q_shuttingDown (c_queue c)" and k: "object_key k" and old: "fresh s k \<or> noticed s k" for k
  proof (cases "\<exists>i res. l = Ran i k res")
    case True
    then obtain i res where l: "l = Ran i k res" by blast
    show ?thesis
    proof (cases res)
      case (Ok u)
      then show ?thesis by (simp add: l fresh_def up_to_date_def note_run_def found_object [OF k] same)
    next
      case (Err e)
      then show ?thesis using failed_due step up(2) by (auto simp: l noticed_def)
    next
      case Panic
      then show ?thesis using step up(1) by (auto simp: l after_run_def elim!: ctl_runE)
    qed
  next
    case False
    have run: "note_run l (c_world (sy_ctl s)) (sy_last s) k = sy_last s k"
      using False by (cases l) (auto simp: note_run_def)
    have "fresh s k \<Longrightarrow> fresh ?t k"
      using up_to_date_wanted [OF same [of k]] by (simp add: fresh_def run)
    moreover have "noticed s k \<Longrightarrow> noticed ?t k"
    proof (cases "\<exists>i. l = Started i k")
      case True
      then obtain i where "l = Started i k" by blast
      with step have "ctl_step (Reconcile (newReconciler env scheme img)) same_cache (sy_ctl s) (Started i k) c" by simp
      then have "c_workers c i = Busy k" by (rule ctl_step_started)
      then show ?thesis by (auto simp: noticed_def)
    next
      case no: False
      then show "noticed s k \<Longrightarrow> noticed ?t k"
        using due_step [OF step _ up(2)] ctl_step_busy [OF step] False by (fastforce simp: noticed_def)
    qed
    ultimately show ?thesis using old by blast
  qed
  moreover have parts: "sy_informer ?t = sy_informer s" "sy_heard ?t = sy_heard s" "sy_ctl ?t = c" by simp_all
  ultimately show ?thesis
    using assms(1) [unfolded sys_inv_def] ctl_step_running [OF step] unfolding sys_inv_def parts same by blast
qed

lemma sys_inv_reach: "sys_reach (newReconciler env scheme img) (system_init n w) s \<Longrightarrow> sys_inv s"
  unfolding sys_reach_def
proof (induction rule: rtranclp_induct)
  case (step s t)
  from step(2,3) show ?case by (cases rule: sys_step.cases) (auto intro: hear_inv deliver_inv ctl_inv)
qed (rule sys_inv_init)

end
