(* ===== verification/Clientset.thy ===== *)
theory Clientset
  imports TypedClient Complex_Main
begin

text \<open>
  The clientset (\<open>pkg/client/clientset/versioned/clientset.go\<close>) and how it gets its two REST
  clients and their rate limiters (\<open>sources_client.go\<close>, \<open>rest/config.go\<close>, \<open>rest/client.go\<close>
  and \<open>discovery_client.go\<close> of client-go).  The state is the list of the token buckets made
  so far; a rate limiter is its place in the list, so that two clients with the same
  limiter share its tokens.  \<open>connect\<close> stands for what parsing the server address of a
  configuration and setting up its transport give: the path of the URL, or an error.  Rates (float32) are rationals, they are
  only compared with zero.
\<close>

section \<open>REST clients\<close>

type_synonym limiters = "(rat \<times> int) list"

record client_config = rest_config +
  cc_QPS :: rat
  cc_Burst :: int
  cc_RateLimiter :: "nat option"

record RESTClient =
  rest_conn :: rest_client
  rest_Throttle :: "nat option"

definition NewTokenBucketRateLimiter :: "rat \<Rightarrow> int \<Rightarrow> (limiters, nat) go" where
  "NewTokenBucketRateLimiter qps burst = (\<lambda>ls. (Ok (length ls), ls @ [(qps, burst)]))"

definition DefaultQPS :: rat where "DefaultQPS = 5"
definition DefaultBurst :: int where "DefaultBurst = 10"

definition NewRESTClient :: "string \<Rightarrow> string \<Rightarrow> rat \<Rightarrow> int \<Rightarrow> nat option \<Rightarrow> (limiters, RESTClient) go" where
  "NewRESTClient base versionedAPIPath maxQPS maxBurst rateLimiter =
     thenG (if 0 < maxQPS \<and> rateLimiter = None
            then thenG (NewTokenBucketRateLimiter maxQPS maxBurst) (\<lambda>l. retG (Some l))
            else retG rateLimiter) (\<lambda>throttle.
     retG \<lparr>rest_conn = \<lparr>rc_basePath = base, rc_versionedAPIPath = versionedAPIPath\<rparr>, rest_Throttle = throttle\<rparr>)"

definition versioned_path :: "client_config \<Rightarrow> string" where
  "versioned_path config = DefaultVersionedAPIPath (cfg_APIPath config)
     (case cfg_GroupVersion config of Some gv \<Rightarrow> gv | None \<Rightarrow> \<lparr>gv_Group = [], gv_Version = []\<rparr>)"

definition RESTClientFor :: "(string \<Rightarrow> go_error + string) \<Rightarrow> client_config \<Rightarrow> (limiters, RESTClient) go" where
  "RESTClientFor connect config =
     (if cfg_GroupVersion config = None then failG (PlainError ''GroupVersion is required when initializing a RESTClient'')
      else let qps = if cc_QPS config = 0 then DefaultQPS else cc_QPS config;
               burst = if cc_Burst config = 0 then DefaultBurst else cc_Burst config
           in thenG (liftG (connect (cfg_basePath config))) (\<lambda>base.
              NewRESTClient base (versioned_path config) qps burst (cc_RateLimiter config)))"

definition UnversionedRESTClientFor :: "(string \<Rightarrow> go_error + string) \<Rightarrow> client_config \<Rightarrow> (limiters, RESTClient) go" where
  "UnversionedRESTClientFor connect config =
     thenG (liftG (connect (cfg_basePath config))) (\<lambda>base.
     NewRESTClient base (versioned_path config) (cc_QPS config) (cc_Burst config) (cc_RateLimiter config))"

section \<open>Group clients\<close>

definition sources_NewForConfig :: "(string \<Rightarrow> go_error + string) \<Rightarrow> string \<Rightarrow> client_config \<Rightarrow> (limiters, RESTClient) go" where
  "sources_NewForConfig connect userAgent c = RESTClientFor connect (setConfigDefaults userAgent c)"

text \<open>\<open>if err != nil { panic(err) }\<close>\<close>

definition OrDie :: "('s, 'a) go \<Rightarrow> ('s, 'a) go" where
  "OrDie m = onErr m (\<lambda>_. panicG) retG"

definition sources_NewForConfigOrDie :: "(string \<Rightarrow> go_error + string) \<Rightarrow> string \<Rightarrow> client_config \<Rightarrow> (limiters, RESTClient) go" where
  "sources_NewForConfigOrDie connect userAgent c = OrDie (sources_NewForConfig connect userAgent c)"

definition setDiscoveryDefaults :: "string \<Rightarrow> client_config \<Rightarrow> client_config" where
  "setDiscoveryDefaults userAgent config =
     (let c = config\<lparr>cfg_APIPath := [], cfg_GroupVersion := None\<rparr>
      in if length (cfg_UserAgent c) = 0 then c\<lparr>cfg_UserAgent := userAgent\<rparr> else c)"

definition NewDiscoveryClientForConfig :: "(string \<Rightarrow> go_error + string) \<Rightarrow> string \<Rightarrow> client_config \<Rightarrow> (limiters, RESTClient) go" where
  "NewDiscoveryClientForConfig connect userAgent c = UnversionedRESTClientFor connect (setDiscoveryDefaults userAgent c)"

definition NewDiscoveryClientForConfigOrDie :: "(string \<Rightarrow> go_error + string) \<Rightarrow> string \<Rightarrow> client_config \<Rightarrow> (limiters, RESTClient) go" where
  "NewDiscoveryClientForConfigOrDie connect userAgent c = OrDie (NewDiscoveryClientForConfig connect userAgent c)"

text \<open>\<open>SourcesV1alpha1Client.GitLabSources\<close>: the client of the sources of a namespace over that connection\<close>

definition sources_GitLabSources :: "RESTClient \<Rightarrow> string \<Rightarrow> gitLabSources" where
  "sources_GitLabSources c namespace = newGitLabSources (rest_conn c) namespace"

section \<open>Clientset\<close>

record Clientset =
  cs_DiscoveryClient :: RESTClient
  cs_sourcesV1alpha1 :: RESTClient

definition SourcesV1alpha1 :: "Clientset \<Rightarrow> RESTClient" where
  "SourcesV1alpha1 c = cs_sourcesV1alpha1 c"

definition Sources :: "Clientset \<Rightarrow> RESTClient" where
  "Sources c = cs_sourcesV1alpha1 c"

definition Discovery :: "Clientset option \<Rightarrow> RESTClient option" where
  "Discovery c = (case c of None \<Rightarrow> None | Some cs \<Rightarrow> Some (cs_DiscoveryClient cs))"

definition clientset_NewForConfig :: "(string \<Rightarrow> go_error + string) \<Rightarrow> string \<Rightarrow> client_config \<Rightarrow> (limiters, Clientset) go" where
  "clientset_NewForConfig connect userAgent c =
     thenG (if cc_RateLimiter c = None \<and> 0 < cc_QPS c
            then thenG (NewTokenBucketRateLimiter (cc_QPS c) (cc_Burst c)) (\<lambda>l. retG (c\<lparr>cc_RateLimiter := Some l\<rparr>))
            else retG c) (\<lambda>configShallowCopy.
     thenG (sources_NewForConfig connect userAgent configShallowCopy) (\<lambda>sources.
     thenG (NewDiscoveryClientForConfig connect userAgent configShallowCopy) (\<lambda>discovery.
     retG \<lparr>cs_DiscoveryClient = discovery, cs_sourcesV1alpha1 = sources\<rparr>)))"

definition clientset_NewForConfigOrDie :: "(string \<Rightarrow> go_error + string) \<Rightarrow> string \<Rightarrow> client_config \<Rightarrow> (limiters, Clientset) go" where
  "clientset_NewForConfigOrDie connect userAgent c =
     thenG (sources_NewForConfigOrDie connect userAgent c) (\<lambda>sources.
     thenG (NewDiscoveryClientForConfigOrDie connect userAgent c) (\<lambda>discovery.
     retG \<lparr>cs_DiscoveryClient = discovery, cs_sourcesV1alpha1 = sources\<rparr>))"

text \<open>\<open>sourcesv1alpha1.New\<close>: a client of the group is its REST client.\<close>

definition sources_client_New :: "RESTClient \<Rightarrow> RESTClient" where
  "sources_client_New restClient = restClient"

definition clientset_New :: "RESTClient \<Rightarrow> Clientset" where
  "clientset_New c = \<lparr>cs_DiscoveryClient = c, cs_sourcesV1alpha1 = sources_client_New c\<rparr>"

section \<open>What a configuration gives\<close>

text \<open>The limiter a REST client gets, and the token buckets after it was made.\<close>

definition limiter_for :: "rat \<Rightarrow> nat option \<Rightarrow> limiters \<Rightarrow> nat option" where
  "limiter_for qps l ls = (if 0 < qps \<and> l = None then Some (length ls) else l)"

definition buckets_for :: "rat \<Rightarrow> int \<Rightarrow> nat option \<Rightarrow> limiters \<Rightarrow> limiters" where
  "buckets_for qps burst l ls = (if 0 < qps \<and> l = None then ls @ [(qps, burst)] else ls)"

lemmas go_seq_defs = thenG_def onErr_def retG_def failG_def

lemma NewRESTClient_eq: "NewRESTClient base path qps burst l ls =
    (Ok \<lparr>rest_conn = \<lparr>rc_basePath = base, rc_versionedAPIPath = path\<rparr>, rest_Throttle = limiter_for qps l ls\<rparr>, buckets_for qps burst l ls)"
  by (simp add: NewRESTClient_def NewTokenBucketRateLimiter_def limiter_for_def buckets_for_def thenG_def onErr_def retG_def)

lemma defaults_fields [simp]:
  "cfg_basePath (setConfigDefaults ua c) = cfg_basePath c" "cc_QPS (setConfigDefaults ua c') = cc_QPS c'"
  "cc_Burst (setConfigDefaults ua c') = cc_Burst c'" "cc_RateLimiter (setConfigDefaults ua c') = cc_RateLimiter c'"
  "cfg_GroupVersion (setConfigDefaults ua c) = Some SchemeGroupVersion"
  "cfg_basePath (setDiscoveryDefaults ua c') = cfg_basePath c'" "cc_QPS (setDiscoveryDefaults ua c') = cc_QPS c'"
  "cc_Burst (setDiscoveryDefaults ua c') = cc_Burst c'" "cc_RateLimiter (setDiscoveryDefaults ua c') = cc_RateLimiter c'"
  by (simp_all add: setConfigDefaults_def setDiscoveryDefaults_def Let_def)

definition eff_QPS :: "client_config \<Rightarrow> rat" where "eff_QPS c = (if cc_QPS c = 0 then DefaultQPS else cc_QPS c)"
definition eff_Burst :: "client_config \<Rightarrow> int" where "eff_Burst c = (if cc_Burst c = 0 then DefaultBurst else cc_Burst c)"

lemma sources_NewForConfig_eq:
  "sources_NewForConfig connect ua c ls = (case connect (cfg_basePath c) of
      Inl e \<Rightarrow> (Err e, ls)
    | Inr base \<Rightarrow> NewRESTClient base (versioned_path (setConfigDefaults ua c)) (eff_QPS c) (eff_Burst c) (cc_RateLimiter c) ls)"
  by (simp add: sources_NewForConfig_def RESTClientFor_def Let_def thenG_def onErr_def liftG_def failG_def retG_def eff_QPS_def eff_Burst_def
      split: sum.split)

lemma NewDiscoveryClientForConfig_eq:
  "NewDiscoveryClientForConfig connect ua c ls = (case connect (cfg_basePath c) of
      Inl e \<Rightarrow> (Err e, ls)
    | Inr base \<Rightarrow> NewRESTClient base (versioned_path (setDiscoveryDefaults ua c)) (cc_QPS c) (cc_Burst c) (cc_RateLimiter c) ls)"
  by (simp add: NewDiscoveryClientForConfig_def UnversionedRESTClientFor_def thenG_def onErr_def liftG_def failG_def retG_def split: sum.split)

lemma OrDie_eq: "OrDie m s = (case m s of (Ok v, s') \<Rightarrow> (Ok v, s') | (Err e, s') \<Rightarrow> (Panic, s') | (Panic, s') \<Rightarrow> (Panic, s'))"
  by (simp add: OrDie_def onErr_def retG_def panicG_def split: prod.split outcome.split)

text \<open>
  A clientset is made or not as a whole.  If the configuration cannot be connected,
  \<open>NewForConfig\<close> returns the error and \<open>NewForConfigOrDie\<close>, which the controller uses,
  panics.  Else, with a rate and no limiter in the configuration, \<open>NewForConfig\<close> makes one
  token bucket that both clients share, while \<open>NewForConfigOrDie\<close> makes one for each, so
  that the process may send at twice the configured rate; a limiter of the
  caller is used, and without either the discovery client is not limited.
\<close>

theorem clientset_limiters:
  "case connect (cfg_basePath c) of
      Inl e \<Rightarrow> (\<exists>ls'. clientset_NewForConfig connect ua c ls = (Err e, ls')) \<and> clientset_NewForConfigOrDie connect ua c ls = (Panic, ls)
    | Inr base \<Rightarrow>
        (case cc_RateLimiter c of
           Some l \<Rightarrow> \<exists>cs cs'. clientset_NewForConfig connect ua c ls = (Ok cs, ls) \<and> clientset_NewForConfigOrDie connect ua c ls = (Ok cs', ls)
             \<and> rest_Throttle (SourcesV1alpha1 cs) = Some l \<and> rest_Throttle (SourcesV1alpha1 cs') = Some l
         | None \<Rightarrow> (if 0 < cc_QPS c then
             \<exists>cs cs'. clientset_NewForConfig connect ua c ls = (Ok cs, ls @ [(cc_QPS c, cc_Burst c)])
               \<and> clientset_NewForConfigOrDie connect ua c ls = (Ok cs', ls @ [(cc_QPS c, eff_Burst c), (cc_QPS c, cc_Burst c)])
               \<and> rest_Throttle (SourcesV1alpha1 cs) = Some (length ls) \<and> rest_Throttle (cs_DiscoveryClient cs) = Some (length ls)
               \<and> rest_Throttle (SourcesV1alpha1 cs') = Some (length ls) \<and> rest_Throttle (cs_DiscoveryClient cs') = Some (Suc (length ls))
             else \<exists>cs ls'. clientset_NewForConfig connect ua c ls = (Ok cs, ls') \<and> rest_Throttle (cs_DiscoveryClient cs) = None))"
proof (cases "connect (cfg_basePath c)")
  case (Inl e)
  then show ?thesis
    by (simp add: clientset_NewForConfig_def clientset_NewForConfigOrDie_def sources_NewForConfigOrDie_def go_seq_defs OrDie_eq
        sources_NewForConfig_eq NewTokenBucketRateLimiter_def)
next
  case (Inr base)
  then show ?thesis
    by (cases "cc_RateLimiter c") (simp_all add: clientset_NewForConfig_def clientset_NewForConfigOrDie_def sources_NewForConfigOrDie_def
        NewDiscoveryClientForConfigOrDie_def go_seq_defs OrDie_eq sources_NewForConfig_eq NewDiscoveryClientForConfig_eq NewRESTClient_eq
        NewTokenBucketRateLimiter_def limiter_for_def buckets_for_def eff_QPS_def SourcesV1alpha1_def)
qed

end
