(* ===== verification/FakeClient.thy ===== *)
theory FakeClient
  imports DeepCopy TypedClient DeltaFIFO
begin

text \<open>
  The fake client of GitLabSources the tests use
  (\<open>pkg/client/clientset/versioned/fake\<close>, \<open>.../typed/sources/v1alpha1/fake\<close>) with the object
  tracker it is backed by (\<open>k8s.io/client-go/testing/fixture.go\<close>, \<open>fake.go\<close>).  Objects are
  copied in and out, so they are values.  An operation returns a value and an error, either
  of which may be nil.  The parsers of selectors and the strategic merge of a patch are
  parameters: \<open>parse\<close> (\<open>ExtractFromListOptions\<close>) gives the label selector of the options, or
  none where a selector is invalid, at which the actions panic.
\<close>

section \<open>Tracker\<close>

record fakeWatcher =
  fw_gvr :: GroupVersionResource
  fw_ns :: string
  fw_result :: "watch_event list"
  fw_Stopped :: bool

datatype action =
    GetAction GroupVersionResource string string
  | ListAction GroupVersionResource GroupVersionKind string ListOptions
  | WatchAction GroupVersionResource string ListOptions
  | CreateAction GroupVersionResource string string GitLabSource
  | UpdateAction GroupVersionResource string string GitLabSource
  | DeleteAction GroupVersionResource string string
  | DeleteCollectionAction GroupVersionResource string ListOptions
  | PatchAction GroupVersionResource string string string string

record fakeClientset =
  fk_objects :: "GroupVersionResource \<rightharpoonup> GitLabSource list"
  fk_watchers :: "fakeWatcher list"
  fk_actions :: "action list"

definition DefaultChanSize :: nat where "DefaultChanSize = 100"

definition gvr_text :: "GroupVersionResource \<Rightarrow> string" where
  "gvr_text gvr = (if gvr_Group gvr = [] then gvr_Resource gvr else gvr_Resource gvr @ ''.'' @ gvr_Group gvr)"

definition status_NewNotFound :: "GroupVersionResource \<Rightarrow> string \<Rightarrow> go_error" where
  "status_NewNotFound gvr name = StatusError StatusReasonNotFound (gvr_text gvr @ '' '' @ quote name @ '' not found'')"

definition NewAlreadyExists :: "GroupVersionResource \<Rightarrow> string \<Rightarrow> go_error" where
  "NewAlreadyExists gvr name = StatusError (StatusReasonOther ''AlreadyExists'') (gvr_text gvr @ '' '' @ quote name @ '' already exists'')"

definition NewBadRequest :: "string \<Rightarrow> go_error" where
  "NewBadRequest msg = StatusError (StatusReasonOther ''BadRequest'') msg"

text \<open>The channel of a watcher holds so many events; sending one more panics.\<close>

definition watcher_send :: "watch_event \<Rightarrow> nat \<Rightarrow> (fakeClientset, unit) go" where
  "watcher_send ev i =
     thenG (getG (\<lambda>s. fk_watchers s ! i)) (\<lambda>w.
     if fw_Stopped w then retG ()
     else if length (fw_result w) < DefaultChanSize
     then modG (\<lambda>s. s\<lparr>fk_watchers := (fk_watchers s)[i := w\<lparr>fw_result := fw_result w @ [ev]\<rparr>]\<rparr>)
     else panicG)"

fun send_all :: "watch_event \<Rightarrow> nat list \<Rightarrow> (fakeClientset, unit) go" where
  "send_all ev [] = retG ()"
| "send_all ev (i # is) = seqG (watcher_send ev i) (send_all ev is)"

definition getWatches :: "GroupVersionResource \<Rightarrow> string \<Rightarrow> fakeClientset \<Rightarrow> nat list" where
  "getWatches gvr ns s =
     filter (\<lambda>i. fw_gvr (fk_watchers s ! i) = gvr \<and> fw_ns (fk_watchers s ! i) = ns) [0..<length (fk_watchers s)]
     @ filter (\<lambda>i. fw_gvr (fk_watchers s ! i) = gvr \<and> fw_ns (fk_watchers s ! i) = []) [0..<length (fk_watchers s)]"

definition notify :: "GroupVersionResource \<Rightarrow> string \<Rightarrow> watch_event \<Rightarrow> (fakeClientset, unit) go" where
  "notify gvr ns ev = thenG (getG (getWatches gvr ns)) (send_all ev)"

definition filterByNamespaceAndName :: "GitLabSource list \<Rightarrow> string \<Rightarrow> string \<Rightarrow> GitLabSource list" where
  "filterByNamespaceAndName objs ns name =
     filter (\<lambda>obj. (ns = [] \<or> om_Namespace (gs_meta obj) = ns) \<and> (name = [] \<or> om_Name (gs_meta obj) = name)) objs"

definition tracker_Get :: "GroupVersionResource \<Rightarrow> string \<Rightarrow> string \<Rightarrow> fakeClientset \<Rightarrow> go_error + GitLabSource" where
  "tracker_Get gvr ns name s =
     (case fk_objects s gvr of
        None \<Rightarrow> Inl (status_NewNotFound gvr name)
      | Some objs \<Rightarrow>
          (case filterByNamespaceAndName objs ns name of
             [] \<Rightarrow> Inl (status_NewNotFound gvr name)
           | [obj] \<Rightarrow> Inr obj
           | _ \<Rightarrow> Inl (PlainError (''more than one object matched gvr '' @ GroupVersionResource_String gvr @ '', ns: '' @ quote ns @ '' name: '' @ quote name))))"

definition gitlabsourcesResource :: GroupVersionResource where
  "gitlabsourcesResource = \<lparr>gvr_Group = ''sources.eventing.knative.dev'', gvr_Version = ''v1alpha1'', gvr_Resource = ''gitlabsources''\<rparr>"

definition gitlabsourcesKind :: GroupVersionKind where
  "gitlabsourcesKind = \<lparr>gvk_Group = ''sources.eventing.knative.dev'', gvk_Version = ''v1alpha1'', gvk_Kind = ''GitLabSource''\<rparr>"

text \<open>The one list kind the scheme of the fake clientset knows is that of GitLabSources.\<close>

definition tracker_List :: "GroupVersionResource \<Rightarrow> GroupVersionKind \<Rightarrow> string \<Rightarrow> fakeClientset \<Rightarrow> go_error + GitLabSourceList" where
  "tracker_List gvr gvk ns s =
     (let listGVK = gvk\<lparr>gvk_Kind := gvk_Kind gvk @ ''List''\<rparr>;
          list = \<lparr>gl_APIVersion = [], gl_Kind = [], gl_ResourceVersion = [], gl_Items = []\<rparr>
      in if listGVK \<noteq> gitlabsourcesKind\<lparr>gvk_Kind := ''GitLabSourceList''\<rparr>
         then Inl (PlainError (''no kind '' @ quote (gvk_Kind listGVK) @ '' is registered''))
         else case fk_objects s gvr of
           None \<Rightarrow> Inr list
         | Some objs \<Rightarrow> Inr (list\<lparr>gl_Items := filterByNamespaceAndName objs ns []\<rparr>))"

definition same_name :: "string \<Rightarrow> string \<Rightarrow> GitLabSource \<Rightarrow> bool" where
  "same_name ns name obj \<longleftrightarrow> om_Namespace (gs_meta obj) = ns \<and> om_Name (gs_meta obj) = name"

fun index_of :: "('a \<Rightarrow> bool) \<Rightarrow> 'a list \<Rightarrow> nat option" where
  "index_of P [] = None"
| "index_of P (x # xs) = (if P x then Some 0 else map_option Suc (index_of P xs))"

definition objects_of :: "GroupVersionResource \<Rightarrow> fakeClientset \<Rightarrow> GitLabSource list" where
  "objects_of gvr s = (case fk_objects s gvr of None \<Rightarrow> [] | Some objs \<Rightarrow> objs)"

definition put_objects :: "GroupVersionResource \<Rightarrow> GitLabSource list \<Rightarrow> fakeClientset \<Rightarrow> fakeClientset" where
  "put_objects gvr objs s = s\<lparr>fk_objects := (fk_objects s)(gvr \<mapsto> objs)\<rparr>"

definition tracker_add :: "GroupVersionResource \<Rightarrow> GitLabSource \<Rightarrow> string \<Rightarrow> bool \<Rightarrow> (fakeClientset, unit) go" where
  "tracker_add gvr obj ns replaceExisting =
     (let obj = (if length (om_Namespace (gs_meta obj)) = 0 then obj\<lparr>gs_meta := (gs_meta obj)\<lparr>om_Namespace := ns\<rparr>\<rparr> else obj);
          newMeta = gs_meta obj
      in if ns \<noteq> om_Namespace newMeta
         then failG (NewBadRequest (''request namespace does not match object namespace, request: '' @ quote ns
                       @ '' object: '' @ quote (om_Namespace newMeta)))
         else thenG (getG (objects_of gvr)) (\<lambda>objs.
           case index_of (same_name (om_Namespace newMeta) (om_Name newMeta)) objs of
             Some i \<Rightarrow>
               (if replaceExisting
                then seqG (notify gvr ns (WatchModified obj)) (modG (put_objects gvr (objs[i := obj])))
                else failG (NewAlreadyExists gvr (om_Name newMeta)))
           | None \<Rightarrow>
               (if replaceExisting then failG (status_NewNotFound gvr (om_Name newMeta))
                else seqG (modG (put_objects gvr (objs @ [obj]))) (notify gvr ns (WatchAdded obj)))))"

definition tracker_Create :: "GroupVersionResource \<Rightarrow> GitLabSource \<Rightarrow> string \<Rightarrow> (fakeClientset, unit) go" where
  "tracker_Create gvr obj ns = tracker_add gvr obj ns False"

definition tracker_Update :: "GroupVersionResource \<Rightarrow> GitLabSource \<Rightarrow> string \<Rightarrow> (fakeClientset, unit) go" where
  "tracker_Update gvr obj ns = tracker_add gvr obj ns True"

definition tracker_Delete :: "GroupVersionResource \<Rightarrow> string \<Rightarrow> string \<Rightarrow> (fakeClientset, unit) go" where
  "tracker_Delete gvr ns name =
     thenG (getG (objects_of gvr)) (\<lambda>objs.
     case index_of (same_name ns name) objs of
       Some i \<Rightarrow> seqG (modG (put_objects gvr (take i objs @ drop (Suc i) objs))) (notify gvr ns (WatchDeleted (objs ! i)))
     | None \<Rightarrow> failG (status_NewNotFound gvr name))"

text \<open>\<open>Add\<close> of a source: its kind is registered once, and its resource is guessed from the kind.\<close>

definition tracker_Add :: "GitLabSource \<Rightarrow> (fakeClientset, unit) go" where
  "tracker_Add obj = tracker_add (fst (UnsafeGuessKindToResource gitlabsourcesKind)) obj (om_Namespace (gs_meta obj)) False"

definition tracker_Watch :: "GroupVersionResource \<Rightarrow> string \<Rightarrow> (fakeClientset, nat) go" where
  "tracker_Watch gvr ns = (\<lambda>s. (Ok (length (fk_watchers s)),
     s\<lparr>fk_watchers := fk_watchers s @ [\<lparr>fw_gvr = gvr, fw_ns = ns, fw_result = [], fw_Stopped = False\<rparr>]\<rparr>))"

section \<open>Reaction\<close>

datatype object = ObjectSource GitLabSource | ObjectList GitLabSourceList

text \<open>Whether the action was handled, with what object and what error.\<close>

type_synonym reaction = "bool \<times> object option \<times> go_error option"

definition read_object :: "GroupVersionResource \<Rightarrow> string \<Rightarrow> string \<Rightarrow> (fakeClientset, reaction) go" where
  "read_object gvr ns name =
     thenG (getG (tracker_Get gvr ns name)) (\<lambda>r.
     retG (case r of Inl e \<Rightarrow> (True, None, Some e) | Inr obj \<Rightarrow> (True, Some (ObjectSource obj), None)))"

text \<open>The text of the last error, which \<open>Invokes\<close> drops, is not formatted.\<close>

definition ObjectReaction :: "(GitLabSource \<Rightarrow> string \<Rightarrow> go_error + GitLabSource) \<Rightarrow> action \<Rightarrow> (fakeClientset, reaction) go" where
  "ObjectReaction merge act =
     (case act of
        ListAction gvr kind ns opts \<Rightarrow>
          thenG (getG (tracker_List gvr kind ns)) (\<lambda>r.
          retG (case r of Inl e \<Rightarrow> (True, None, Some e) | Inr list \<Rightarrow> (True, Some (ObjectList list), None)))
      | GetAction gvr ns name \<Rightarrow> read_object gvr ns name
      | CreateAction gvr subresource ns obj \<Rightarrow>
          onErr (if subresource = [] then tracker_Create gvr obj ns else tracker_Update gvr obj ns)
            (\<lambda>err. retG (True, None, Some err))
            (\<lambda>_. read_object gvr ns (om_Name (gs_meta obj)))
      | UpdateAction gvr subresource ns obj \<Rightarrow>
          onErr (tracker_Update gvr obj ns)
            (\<lambda>err. retG (True, None, Some err))
            (\<lambda>_. read_object gvr ns (om_Name (gs_meta obj)))
      | DeleteAction gvr ns name \<Rightarrow>
          onErr (tracker_Delete gvr ns name)
            (\<lambda>err. retG (True, None, Some err))
            (\<lambda>_. retG (True, None, None))
      | PatchAction gvr ns name subresource patch \<Rightarrow>
          thenG (getG (tracker_Get gvr ns name)) (\<lambda>r.
          case r of
            Inl err \<Rightarrow> retG (False, None, Some err)
          | Inr obj \<Rightarrow>
              (case merge obj patch of
                 Inl err \<Rightarrow> retG (True, None, Some err)
               | Inr obj \<Rightarrow>
                   onErr (tracker_Update gvr obj ns)
                     (\<lambda>err. retG (True, None, Some err))
                     (\<lambda>_. retG (True, Some (ObjectSource obj), None))))
      | _ \<Rightarrow> retG (False, None, Some (PlainError ''no reaction implemented for %s'')))"

definition record_action :: "action \<Rightarrow> (fakeClientset, unit) go" where
  "record_action act = modG (\<lambda>s. s\<lparr>fk_actions := fk_actions s @ [act]\<rparr>)"

text \<open>\<open>Invokes\<close> with the one reactor \<open>NewSimpleClientset\<close> adds, which handles every verb and resource.\<close>

definition Invokes :: "(GitLabSource \<Rightarrow> string \<Rightarrow> go_error + GitLabSource) \<Rightarrow> action \<Rightarrow> object
    \<Rightarrow> (fakeClientset, object option \<times> go_error option) go" where
  "Invokes merge act defaultReturnObj =
     seqG (record_action act)
     (thenG (ObjectReaction merge act) (\<lambda>(handled, ret, err).
     retG (if handled then (ret, err) else (Some defaultReturnObj, None))))"

definition InvokesWatch :: "action \<Rightarrow> GroupVersionResource \<Rightarrow> string \<Rightarrow> (fakeClientset, nat) go" where
  "InvokesWatch act gvr ns = seqG (record_action act) (tracker_Watch gvr ns)"

fun add_objects :: "GitLabSource list \<Rightarrow> (fakeClientset, unit) go" where
  "add_objects [] = retG ()"
| "add_objects (obj # objs) = onErr (tracker_Add obj) (\<lambda>_. panicG) (\<lambda>_. add_objects objs)"

definition empty_clientset :: fakeClientset where
  "empty_clientset = \<lparr>fk_objects = Map.empty, fk_watchers = [], fk_actions = []\<rparr>"

definition NewSimpleClientset :: "GitLabSource list \<Rightarrow> unit outcome \<times> fakeClientset" where
  "NewSimpleClientset objects = add_objects objects empty_clientset"

section \<open>The fake client\<close>

record FakeGitLabSources =
  fg_ns :: string

definition fake_GitLabSources :: "string \<Rightarrow> FakeGitLabSources" where
  "fake_GitLabSources namespace = \<lparr>fg_ns = namespace\<rparr>"

definition zero_source :: GitLabSource where
  "zero_source = \<lparr>gs_APIVersion = [], gs_Kind = [], gs_meta = empty_meta,
     Spec = \<lparr>ServiceAccountName = [], ProjectURL = [], EventTypes = [], AccessToken = \<lparr>SecretKeyRef = None\<rparr>,
       SecretToken = \<lparr>SecretKeyRef = None\<rparr>, Sink = None, URI = None, Secure = False\<rparr>,
     Status = \<lparr>ObservedGeneration = 0, Conditions = [], WebhookIDKey = [], SinkURI = []\<rparr>\<rparr>"

definition zero_list :: GitLabSourceList where
  "zero_list = \<lparr>gl_APIVersion = [], gl_Kind = [], gl_ResourceVersion = [], gl_Items = []\<rparr>"

text \<open>\<open>if obj == nil { return nil, err }; return obj.(*v1alpha1.GitLabSource), err\<close>\<close>

definition as_source_result :: "object option \<times> go_error option \<Rightarrow> (fakeClientset, GitLabSource option \<times> go_error option) go" where
  "as_source_result r =
     (case r of
        (None, err) \<Rightarrow> retG (None, err)
      | (Some (ObjectSource src), err) \<Rightarrow> retG (Some src, err)
      | (Some (ObjectList _), err) \<Rightarrow> panicG)"

type_synonym merger = "GitLabSource \<Rightarrow> string \<Rightarrow> go_error + GitLabSource"
type_synonym source_result = "GitLabSource option \<times> go_error option"

definition fake_Get :: "merger \<Rightarrow> FakeGitLabSources \<Rightarrow> string \<Rightarrow> (fakeClientset, source_result) go" where
  "fake_Get merge c name =
     thenG (Invokes merge (GetAction gitlabsourcesResource (fg_ns c) name) (ObjectSource zero_source)) as_source_result"

definition fake_List :: "merger \<Rightarrow> (ListOptions \<Rightarrow> (labels \<Rightarrow> bool) option) \<Rightarrow> FakeGitLabSources \<Rightarrow> ListOptions
    \<Rightarrow> (fakeClientset, GitLabSourceList option \<times> go_error option) go" where
  "fake_List merge parse c opts =
     (case parse opts of
        None \<Rightarrow> panicG
      | Some label \<Rightarrow>
          thenG (Invokes merge (ListAction gitlabsourcesResource gitlabsourcesKind (fg_ns c) opts) (ObjectList zero_list)) (\<lambda>r.
          case r of
            (None, err) \<Rightarrow> retG (None, err)
          | (Some (ObjectSource _), err) \<Rightarrow> panicG
          | (Some (ObjectList l), err) \<Rightarrow>
              retG (Some (zero_list\<lparr>gl_ResourceVersion := gl_ResourceVersion l,
                            gl_Items := filter (\<lambda>item. label (om_Labels (gs_meta item))) (gl_Items l)\<rparr>), err)))"

definition fake_Watch :: "(ListOptions \<Rightarrow> (labels \<Rightarrow> bool) option) \<Rightarrow> FakeGitLabSources \<Rightarrow> ListOptions \<Rightarrow> (fakeClientset, nat) go" where
  "fake_Watch parse c opts =
     (if parse opts = None then panicG
      else InvokesWatch (WatchAction gitlabsourcesResource (fg_ns c) opts) gitlabsourcesResource (fg_ns c))"

definition fake_Create :: "merger \<Rightarrow> FakeGitLabSources \<Rightarrow> GitLabSource \<Rightarrow> (fakeClientset, source_result) go" where
  "fake_Create merge c src =
     thenG (Invokes merge (CreateAction gitlabsourcesResource [] (fg_ns c) src) (ObjectSource zero_source)) as_source_result"

definition fake_Update :: "merger \<Rightarrow> FakeGitLabSources \<Rightarrow> GitLabSource \<Rightarrow> (fakeClientset, source_result) go" where
  "fake_Update merge c src =
     thenG (Invokes merge (UpdateAction gitlabsourcesResource [] (fg_ns c) src) (ObjectSource zero_source)) as_source_result"

definition fake_UpdateStatus :: "merger \<Rightarrow> FakeGitLabSources \<Rightarrow> GitLabSource \<Rightarrow> (fakeClientset, source_result) go" where
  "fake_UpdateStatus merge c src =
     thenG (Invokes merge (UpdateAction gitlabsourcesResource ''status'' (fg_ns c) src) (ObjectSource zero_source)) as_source_result"

definition fake_Delete :: "merger \<Rightarrow> FakeGitLabSources \<Rightarrow> string \<Rightarrow> (fakeClientset, go_error option) go" where
  "fake_Delete merge c name =
     thenG (Invokes merge (DeleteAction gitlabsourcesResource (fg_ns c) name) (ObjectSource zero_source)) (\<lambda>r. retG (snd r))"

definition fake_DeleteCollection :: "merger \<Rightarrow> (ListOptions \<Rightarrow> (labels \<Rightarrow> bool) option) \<Rightarrow> FakeGitLabSources \<Rightarrow> ListOptions
    \<Rightarrow> (fakeClientset, go_error option) go" where
  "fake_DeleteCollection merge parse c listOptions =
     (if parse listOptions = None then panicG
      else thenG (Invokes merge (DeleteCollectionAction gitlabsourcesResource (fg_ns c) listOptions) (ObjectList zero_list)) (\<lambda>r.
           retG (snd r)))"

definition fake_Patch :: "merger \<Rightarrow> FakeGitLabSources \<Rightarrow> string \<Rightarrow> string \<Rightarrow> string list \<Rightarrow> (fakeClientset, source_result) go" where
  "fake_Patch merge c name data subresources =
     thenG (Invokes merge (PatchAction gitlabsourcesResource (fg_ns c) name (path_Join subresources) data) (ObjectSource zero_source)) as_source_result"

end
