(* ===== verification/ClientInterface.thy ===== *)
theory ClientInterface
  imports Clientset FakeClient
begin

text \<open>
  The interfaces of the generated clients (\<open>versioned.Interface\<close>, \<open>SourcesV1alpha1Interface\<close>,
  \<open>GitLabSourceInterface\<close>) that the informer factory and the injectors work with.  A value of
  an interface is one of its two implementations, the real or the fake; a call goes to the
  implementation's method.  A fake clientset is its place in the list of those made.
\<close>

datatype DiscoveryInterface = RealDiscovery RESTClient | FakeDiscovery nat

datatype GitLabSourceInterface = RealGitLabSources gitLabSources | FakeSources nat FakeGitLabSources

datatype SourcesV1alpha1Interface = RealSourcesV1alpha1 RESTClient | FakeSourcesV1alpha1 nat

datatype versioned_Interface = RealClientset Clientset | FakeClientset nat

section \<open>The fake implementations\<close>

definition fake_Discovery :: "nat \<Rightarrow> DiscoveryInterface" where
  "fake_Discovery c = FakeDiscovery c"

definition fake_SourcesV1alpha1 :: "nat \<Rightarrow> SourcesV1alpha1Interface" where
  "fake_SourcesV1alpha1 c = FakeSourcesV1alpha1 c"

definition fake_Sources :: "nat \<Rightarrow> SourcesV1alpha1Interface" where
  "fake_Sources c = FakeSourcesV1alpha1 c"

text \<open>The REST client of the fake is nil.\<close>

definition fake_RESTClient :: "nat \<Rightarrow> RESTClient option" where
  "fake_RESTClient c = None"

definition sources_RESTClient :: "RESTClient option \<Rightarrow> RESTClient option" where
  "sources_RESTClient c = (case c of None \<Rightarrow> None | Some restClient \<Rightarrow> Some restClient)"

section \<open>Calls of an interface\<close>

fun interface_SourcesV1alpha1 :: "versioned_Interface \<Rightarrow> SourcesV1alpha1Interface" where
  "interface_SourcesV1alpha1 (RealClientset c) = RealSourcesV1alpha1 (SourcesV1alpha1 c)"
| "interface_SourcesV1alpha1 (FakeClientset c) = fake_SourcesV1alpha1 c"

fun interface_Sources :: "versioned_Interface \<Rightarrow> SourcesV1alpha1Interface" where
  "interface_Sources (RealClientset c) = RealSourcesV1alpha1 (Sources c)"
| "interface_Sources (FakeClientset c) = fake_Sources c"

fun interface_GitLabSources :: "SourcesV1alpha1Interface \<Rightarrow> string \<Rightarrow> GitLabSourceInterface" where
  "interface_GitLabSources (RealSourcesV1alpha1 c) namespace = RealGitLabSources (sources_GitLabSources c namespace)"
| "interface_GitLabSources (FakeSourcesV1alpha1 c) namespace = FakeSources c (fake_GitLabSources namespace)"

text \<open>
  A list or a watch of sources as it is issued: a request to the API server, or a call of the
  fake of a clientset.
\<close>

datatype source_call =
    Request source_request
  | FakeListCall nat FakeGitLabSources ListOptions
  | FakeWatchCall nat FakeGitLabSources ListOptions

fun interface_List :: "GitLabSourceInterface \<Rightarrow> ListOptions \<Rightarrow> source_call" where
  "interface_List (RealGitLabSources c) opts = Request (client_List c opts)"
| "interface_List (FakeSources p c) opts = FakeListCall p c opts"

fun interface_Watch :: "GitLabSourceInterface \<Rightarrow> ListOptions \<Rightarrow> source_call" where
  "interface_Watch (RealGitLabSources c) opts = Request (client_Watch c opts)"
| "interface_Watch (FakeSources p c) opts = FakeWatchCall p c opts"

end
