(* ===== verification/Informers.thy ===== *)
theory Informers
  imports ClientInterface SourceCache
begin

text \<open>
  The generated shared informer factory (\<open>pkg/client/informers/externalversions\<close>): its
  options, the informers it makes and starts, the way from the factory to the informer of
  GitLabSources, and the generic access by resource.  A Go type is named by a string, an
  informer by its place in the list of those made so far; the map from types to informers
  is an association list, whose order is that of Go's iteration.  Every operation holds the
  factory's lock, so it is one step.
\<close>

section \<open>Informers\<close>

type_synonym TweakListOptionsFunc = "ListOptions \<Rightarrow> ListOptions"

record SharedIndexInformer =
  si_objectType :: string
  si_ListFunc :: "ListOptions \<Rightarrow> source_call"
  si_WatchFunc :: "ListOptions \<Rightarrow> source_call"
  si_resyncPeriod :: int
  si_indexers :: "(string \<times> IndexFunc) list"

definition sourceType :: string where "sourceType = ''*v1alpha1.GitLabSource''"

definition tweaked :: "TweakListOptionsFunc option \<Rightarrow> ListOptions \<Rightarrow> ListOptions" where
  "tweaked tweakListOptions options = (case tweakListOptions of None \<Rightarrow> options | Some tweak \<Rightarrow> tweak options)"

definition NewFilteredGitLabSourceInformer ::
    "versioned_Interface \<Rightarrow> string \<Rightarrow> int \<Rightarrow> (string \<times> IndexFunc) list \<Rightarrow> TweakListOptionsFunc option \<Rightarrow> SharedIndexInformer" where
  "NewFilteredGitLabSourceInformer client namespace resyncPeriod indexers tweakListOptions =
     \<lparr>si_objectType = sourceType,
      si_ListFunc = (\<lambda>options. interface_List (interface_GitLabSources (interface_SourcesV1alpha1 client) namespace) (tweaked tweakListOptions options)),
      si_WatchFunc = (\<lambda>options. interface_Watch (interface_GitLabSources (interface_SourcesV1alpha1 client) namespace) (tweaked tweakListOptions options)),
      si_resyncPeriod = resyncPeriod, si_indexers = indexers\<rparr>"

definition NewGitLabSourceInformer :: "versioned_Interface \<Rightarrow> string \<Rightarrow> int \<Rightarrow> (string \<times> IndexFunc) list \<Rightarrow> SharedIndexInformer" where
  "NewGitLabSourceInformer client namespace resyncPeriod indexers =
     NewFilteredGitLabSourceInformer client namespace resyncPeriod indexers None"

section \<open>Factory\<close>

text \<open>The fields of the factory, then the informers made and how often each was run.\<close>

record sharedInformerFactory =
  f_client :: versioned_Interface
  f_namespace :: string
  f_tweakListOptions :: "TweakListOptionsFunc option"
  f_defaultResync :: int
  f_customResync :: "string \<rightharpoonup> int"
  f_informers :: "(string \<times> nat) list"
  f_startedInformers :: "string \<Rightarrow> bool"
  f_made :: "SharedIndexInformer list"
  f_runs :: "nat \<Rightarrow> nat"

type_synonym SharedInformerOption = "sharedInformerFactory \<Rightarrow> sharedInformerFactory"

definition WithCustomResyncConfig :: "(string \<times> int) list \<Rightarrow> SharedInformerOption" where
  "WithCustomResyncConfig resyncConfig factory =
     foldl (\<lambda>factory (k, v). factory\<lparr>f_customResync := (f_customResync factory)(k \<mapsto> v)\<rparr>) factory resyncConfig"

definition WithTweakListOptions :: "TweakListOptionsFunc option \<Rightarrow> SharedInformerOption" where
  "WithTweakListOptions tweakListOptions factory = factory\<lparr>f_tweakListOptions := tweakListOptions\<rparr>"

definition WithNamespace :: "string \<Rightarrow> SharedInformerOption" where
  "WithNamespace namespace factory = factory\<lparr>f_namespace := namespace\<rparr>"

definition NewSharedInformerFactoryWithOptions :: "versioned_Interface \<Rightarrow> int \<Rightarrow> SharedInformerOption list \<Rightarrow> sharedInformerFactory" where
  "NewSharedInformerFactoryWithOptions client defaultResync options =
     foldl (\<lambda>factory opt. opt factory)
       \<lparr>f_client = client, f_namespace = [], f_tweakListOptions = None, f_defaultResync = defaultResync,
        f_customResync = Map.empty, f_informers = [], f_startedInformers = (\<lambda>_. False), f_made = [], f_runs = (\<lambda>_. 0)\<rparr>
       options"

definition NewSharedInformerFactory :: "versioned_Interface \<Rightarrow> int \<Rightarrow> sharedInformerFactory" where
  "NewSharedInformerFactory client defaultResync = NewSharedInformerFactoryWithOptions client defaultResync []"

definition NewFilteredSharedInformerFactory :: "versioned_Interface \<Rightarrow> int \<Rightarrow> string \<Rightarrow> TweakListOptionsFunc option \<Rightarrow> sharedInformerFactory" where
  "NewFilteredSharedInformerFactory client defaultResync namespace tweakListOptions =
     NewSharedInformerFactoryWithOptions client defaultResync [WithNamespace namespace, WithTweakListOptions tweakListOptions]"

text \<open>\<open>go informer.Run(stopCh)\<close> for each informer that was not started.\<close>

fun start_loop :: "(string \<times> nat) list \<Rightarrow> sharedInformerFactory \<Rightarrow> sharedInformerFactory" where
  "start_loop [] f = f"
| "start_loop ((informerType, informer) # rest) f =
     start_loop rest
       (if \<not> f_startedInformers f informerType
        then f\<lparr>f_runs := (f_runs f)(informer := Suc (f_runs f informer)),
               f_startedInformers := (f_startedInformers f)(informerType := True)\<rparr>
        else f)"

definition Start :: "sharedInformerFactory \<Rightarrow> sharedInformerFactory" where
  "Start f = start_loop (f_informers f) f"

text \<open>\<open>wait\<close> is what \<open>cache.WaitForCacheSync\<close> returns for an informer.\<close>

definition WaitForCacheSync :: "(nat \<Rightarrow> bool) \<Rightarrow> sharedInformerFactory \<Rightarrow> (string \<times> bool) list" where
  "WaitForCacheSync wait f =
     map (\<lambda>(informType, informer). (informType, wait informer))
       (filter (\<lambda>(informerType, informer). f_startedInformers f informerType) (f_informers f))"

definition InformerFor :: "string \<Rightarrow> (versioned_Interface \<Rightarrow> int \<Rightarrow> SharedIndexInformer) \<Rightarrow> (sharedInformerFactory, nat) go" where
  "InformerFor informerType newFunc =
     thenG (getG id) (\<lambda>f.
     case map_of (f_informers f) informerType of
       Some informer \<Rightarrow> retG informer
     | None \<Rightarrow>
         (let resyncPeriod = (case f_customResync f informerType of Some d \<Rightarrow> d | None \<Rightarrow> f_defaultResync f);
              informer = length (f_made f)
          in seqG (modG (\<lambda>f. f\<lparr>f_made := f_made f @ [newFunc (f_client f) resyncPeriod],
                              f_informers := AList.update informerType informer (f_informers f)\<rparr>))
             (retG informer)))"

section \<open>From the factory to the informer of GitLabSources\<close>

record scope =
  sc_namespace :: string
  sc_tweakListOptions :: "TweakListOptionsFunc option"

definition sources_New :: "string \<Rightarrow> TweakListOptionsFunc option \<Rightarrow> scope" where
  "sources_New namespace tweakListOptions = \<lparr>sc_namespace = namespace, sc_tweakListOptions = tweakListOptions\<rparr>"

definition factory_Sources :: "sharedInformerFactory \<Rightarrow> scope" where
  "factory_Sources f = sources_New (f_namespace f) (f_tweakListOptions f)"

definition v1alpha1_New :: "string \<Rightarrow> TweakListOptionsFunc option \<Rightarrow> scope" where
  "v1alpha1_New namespace tweakListOptions = \<lparr>sc_namespace = namespace, sc_tweakListOptions = tweakListOptions\<rparr>"

definition V1alpha1 :: "scope \<Rightarrow> scope" where
  "V1alpha1 g = v1alpha1_New (sc_namespace g) (sc_tweakListOptions g)"

record gitLabSourceInformer =
  gi_tweakListOptions :: "TweakListOptionsFunc option"
  gi_namespace :: string

definition scope_GitLabSources :: "scope \<Rightarrow> gitLabSourceInformer" where
  "scope_GitLabSources v = \<lparr>gi_tweakListOptions = sc_tweakListOptions v, gi_namespace = sc_namespace v\<rparr>"

definition defaultInformer :: "gitLabSourceInformer \<Rightarrow> versioned_Interface \<Rightarrow> int \<Rightarrow> SharedIndexInformer" where
  "defaultInformer g client resyncPeriod =
     NewFilteredGitLabSourceInformer client (gi_namespace g) resyncPeriod [(NamespaceIndex, MetaNamespaceIndexFunc)] (gi_tweakListOptions g)"

definition Informer :: "gitLabSourceInformer \<Rightarrow> (sharedInformerFactory, nat) go" where
  "Informer g = InformerFor sourceType (defaultInformer g)"

text \<open>A lister reads the indexer of an informer.\<close>

record gitLabSourceLister =
  gl_indexer :: nat

definition NewGitLabSourceLister :: "nat \<Rightarrow> gitLabSourceLister" where
  "NewGitLabSourceLister indexer = \<lparr>gl_indexer = indexer\<rparr>"

definition Lister :: "gitLabSourceInformer \<Rightarrow> (sharedInformerFactory, gitLabSourceLister) go" where
  "Lister g = thenG (Informer g) (\<lambda>informer. retG (NewGitLabSourceLister informer))"

section \<open>Access by resource\<close>

record genericInformer =
  ge_informer :: nat
  ge_resource :: "string \<times> string"

definition generic_Informer :: "genericInformer \<Rightarrow> nat" where
  "generic_Informer f = ge_informer f"

text \<open>A generic lister reads the same indexer, and names the resource in its errors.\<close>

record genericLister =
  gl_generic_indexer :: nat
  gl_resource :: "string \<times> string"

definition NewGenericLister :: "nat \<Rightarrow> string \<times> string \<Rightarrow> genericLister" where
  "NewGenericLister indexer resource = \<lparr>gl_generic_indexer = indexer, gl_resource = resource\<rparr>"

definition generic_Lister :: "genericInformer \<Rightarrow> genericLister" where
  "generic_Lister f = NewGenericLister (generic_Informer f) (ge_resource f)"

definition ForResource :: "GroupVersionResource \<Rightarrow> (sharedInformerFactory, genericInformer) go" where
  "ForResource resource =
     (if resource = \<lparr>gvr_Group = gv_Group SchemeGroupVersion, gvr_Version = gv_Version SchemeGroupVersion, gvr_Resource = ''gitlabsources''\<rparr>
      then thenG (getG (\<lambda>f. scope_GitLabSources (V1alpha1 (factory_Sources f)))) (\<lambda>g.
           thenG (Informer g) (\<lambda>informer.
           retG \<lparr>ge_informer = informer, ge_resource = (gvr_Group resource, gvr_Resource resource)\<rparr>))
      else failG (PlainError (''no informer found for '' @ GroupVersionResource_String resource)))"

section \<open>States of a factory\<close>

inductive factory_reach :: "sharedInformerFactory \<Rightarrow> sharedInformerFactory \<Rightarrow> bool" for f\<^sub>0 where
  new: "factory_reach f\<^sub>0 f\<^sub>0"
| request: "factory_reach f\<^sub>0 f \<Longrightarrow> InformerFor typ newFunc f = (r, f') \<Longrightarrow> factory_reach f\<^sub>0 f'"
| start: "factory_reach f\<^sub>0 f \<Longrightarrow> factory_reach f\<^sub>0 (Start f)"

definition factory_inv :: "sharedInformerFactory \<Rightarrow> bool" where
  "factory_inv f \<longleftrightarrow> distinct (map fst (f_informers f)) \<and> map snd (f_informers f) = [0..<length (f_made f)]
     \<and> (\<forall>typ p. (typ, p) \<in> set (f_informers f) \<longrightarrow> f_runs f p = (if f_startedInformers f typ then 1 else 0))
     \<and> (\<forall>typ. f_startedInformers f typ \<longrightarrow> typ \<in> fst ` set (f_informers f))
     \<and> (\<forall>p \<ge> length (f_made f). f_runs f p = 0)"

lemma InformerFor_eq: "InformerFor typ nf f =
    (case map_of (f_informers f) typ of
       Some p \<Rightarrow> (Ok p, f)
     | None \<Rightarrow> (Ok (length (f_made f)),
          f\<lparr>f_made := f_made f @ [nf (f_client f) (case f_customResync f typ of Some d \<Rightarrow> d | None \<Rightarrow> f_defaultResync f)],
            f_informers := f_informers f @ [(typ, length (f_made f))]\<rparr>))"
proof (cases "map_of (f_informers f) typ")
  case None
  have "AList.update typ p al = al @ [(typ, p)]" if "map_of al typ = None" for p and al :: "(string \<times> nat) list"
    using that by (induction al) auto
  then show ?thesis using None by (simp add: InformerFor_def Let_def thenG_def seqG_def onErr_def getG_def modG_def retG_def)
qed (simp add: InformerFor_def thenG_def onErr_def getG_def retG_def)

lemma start_loop_fields [simp]:
  "f_informers (start_loop ts f) = f_informers f" "f_made (start_loop ts f) = f_made f"
  "f_startedInformers (start_loop ts f) typ \<longleftrightarrow> f_startedInformers f typ \<or> typ \<in> fst ` set ts"
  by (induction ts f rule: start_loop.induct) auto

lemma start_loop_runs:
  "distinct (map fst ts) \<Longrightarrow> distinct (map snd ts) \<Longrightarrow>
     f_runs (start_loop ts f) p = f_runs f p + (if \<exists>typ. (typ, p) \<in> set ts \<and> \<not> f_startedInformers f typ then 1 else 0)"
proof (induction ts f rule: start_loop.induct)
  case (2 u q ts f)
  then show ?case by (cases "f_startedInformers f u"; cases "p = q") (force simp: image_iff)+
qed simp

lemma made_bound: "factory_inv f \<Longrightarrow> (t, p) \<in> set (f_informers f) \<Longrightarrow> p < length (f_made f)"
proof -
  assume inv: "factory_inv f" and p: "(t, p) \<in> set (f_informers f)"
  have "p \<in> set (map snd (f_informers f))" using p by force
  also have "map snd (f_informers f) = [0..<length (f_made f)]" using inv by (simp add: factory_inv_def)
  finally show ?thesis by simp
qed

lemma made_inj: "factory_inv f \<Longrightarrow> (t, p) \<in> set (f_informers f) \<Longrightarrow> (u, p) \<in> set (f_informers f) \<Longrightarrow> t = u"
proof -
  assume inv: "factory_inv f" and p: "(t, p) \<in> set (f_informers f)" "(u, p) \<in> set (f_informers f)"
  have "distinct (map snd (f_informers f))" using inv by (simp add: factory_inv_def)
  then have "inj_on snd (set (f_informers f))" by (simp add: distinct_map)
  from inj_onD [OF this _ p] show ?thesis by simp
qed

lemma factory_inv_request:
  assumes "factory_inv f" and "InformerFor typ nf f = (r, f')"
  shows "factory_inv f'"
proof (cases "map_of (f_informers f) typ")
  case None
  then have new: "typ \<notin> fst ` set (f_informers f)" by (simp add: map_of_eq_None_iff)
  then have "\<not> f_startedInformers f typ" using assms(1) by (auto simp: factory_inv_def)
  then show ?thesis using assms new None made_bound [OF assms(1)] by (auto simp: factory_inv_def InformerFor_eq)
qed (use assms in \<open>simp add: InformerFor_eq\<close>)

lemma Start_fields [simp]:
  "f_informers (Start f) = f_informers f" "f_made (Start f) = f_made f"
  "f_startedInformers (Start f) typ \<longleftrightarrow> f_startedInformers f typ \<or> typ \<in> fst ` set (f_informers f)"
  by (simp_all add: Start_def)

lemma Start_runs:
  assumes "factory_inv f"
  shows "f_runs (Start f) p = (if p < length (f_made f) then 1 else 0)"
proof -
  have d: "distinct (map fst (f_informers f))" "distinct (map snd (f_informers f))" using assms by (simp_all add: factory_inv_def)
  show ?thesis
  proof (cases "p < length (f_made f)")
    case True
    then have "p \<in> set (map snd (f_informers f))" using assms by (simp only: factory_inv_def set_upt atLeastLessThan_iff) simp
    then obtain u where u: "(u, p) \<in> set (f_informers f)" by auto
    have "f_runs f p = (if f_startedInformers f u then 1 else 0)" using assms u by (simp add: factory_inv_def)
    moreover have "(\<exists>v. (v, p) \<in> set (f_informers f) \<and> \<not> f_startedInformers f v) \<longleftrightarrow> \<not> f_startedInformers f u"
      using made_inj [OF assms u] u by blast
    ultimately show ?thesis using start_loop_runs [OF d] True by (simp add: Start_def)
  next
    case False
    then have "f_runs f p = 0" "\<not> (\<exists>v. (v, p) \<in> set (f_informers f) \<and> \<not> f_startedInformers f v)"
      using assms made_bound [OF assms] by (simp add: factory_inv_def, blast)
    then show ?thesis using start_loop_runs [OF d] False by (simp add: Start_def)
  qed
qed

lemma factory_inv_Start: "factory_inv f \<Longrightarrow> factory_inv (Start f)"
  using made_bound [of f] by (auto simp: factory_inv_def [of "Start f"] Start_runs image_iff) (auto simp: factory_inv_def image_iff)

lemma factory_inv_reach: "factory_reach f\<^sub>0 f \<Longrightarrow> factory_inv f\<^sub>0 \<Longrightarrow> factory_inv f"
  by (induction rule: factory_reach.induct) (auto intro: factory_inv_request factory_inv_Start)

lemma new_informers: "f_informers (NewSharedInformerFactory client resync) = []" "factory_inv (NewSharedInformerFactory client resync)"
  by (simp_all add: NewSharedInformerFactory_def NewSharedInformerFactoryWithOptions_def factory_inv_def)

lemma kept_informers: "factory_reach f\<^sub>0 f \<Longrightarrow> map_of (f_informers f\<^sub>0) typ = Some p \<Longrightarrow> map_of (f_informers f) typ = Some p"
proof (induction rule: factory_reach.induct)
  case (request f t nf r f')
  then show ?case by (auto simp: InformerFor_eq map_add_Some_iff split: option.splits)
qed (simp_all add: Start_def)

end
