(* ===== verification/Reflector.thy ===== *)
theory Reflector
  imports Informers InformerProperties
begin

text \<open>
  The reflector of the informer (\<open>client-go/tools/cache/reflector.go\<close>): it lists the sources,
  then watches them from the version of the list on, and starts over when a watch ends with an
  error.  What it hears goes into the queue of \<open>DeltaFIFO\<close>.  The calls block, so the reflector is
  a state that waits for an input: the answer to a call, an event of the watch, the end of it,
  or the stop channel.
\<close>

section \<open>State\<close>

text \<open>
  \<open>Waiting\<close> stands before a call of \<open>ListAndWatch\<close>, that is before its list; \<open>ToWatch\<close> at the
  head of its loop; \<open>Watching\<close> in \<open>watchHandler\<close> with the number of events so far; \<open>Exited\<close> after
  \<open>Run\<close>.  The version is the variable \<open>resourceVersion\<close> of \<open>ListAndWatch\<close>, which is not read
  before its list has set it.
\<close>

datatype reflector_phase = Waiting | ToWatch | Watching nat | Exited

record reflector =
  rf_phase :: reflector_phase
  rf_resourceVersion :: string
  rf_lastSyncResourceVersion :: string

definition NewReflector :: reflector where
  "NewReflector = \<lparr>rf_phase = Waiting, rf_resourceVersion = [], rf_lastSyncResourceVersion = []\<rparr>"

definition setLastSyncResourceVersion :: "string \<Rightarrow> reflector \<Rightarrow> reflector" where
  "setLastSyncResourceVersion v r = r\<lparr>rf_lastSyncResourceVersion := v\<rparr>"

section \<open>Calls\<close>

definition no_options :: ListOptions where
  "no_options = \<lparr>lo_LabelSelector = [], lo_FieldSelector = [], lo_IncludeUninitialized = False, lo_Watch = False,
     lo_ResourceVersion = [], lo_TimeoutSeconds = None, lo_Limit = 0, lo_Continue = []\<rparr>"

definition list_options :: ListOptions where
  "list_options = no_options\<lparr>lo_ResourceVersion := ''0''\<rparr>"

definition watch_options :: "string \<Rightarrow> int \<Rightarrow> ListOptions" where
  "watch_options resourceVersion timeoutSeconds =
     no_options\<lparr>lo_ResourceVersion := resourceVersion, lo_TimeoutSeconds := Some timeoutSeconds\<rparr>"

text \<open>The call the reflector waits on; the timeout of a watch is drawn at random.\<close>

definition reflector_call :: "SharedIndexInformer \<Rightarrow> int \<Rightarrow> reflector \<Rightarrow> source_call option" where
  "reflector_call i timeoutSeconds r =
     (case rf_phase r of
        Waiting \<Rightarrow> Some (si_ListFunc i list_options)
      | ToWatch \<Rightarrow> Some (si_WatchFunc i (watch_options (rf_resourceVersion r) timeoutSeconds))
      | _ \<Rightarrow> None)"

section \<open>Inputs\<close>

text \<open>
  An element of a watch: an event, an error, an object of another type than the informer's, or an
  event of a type the reflector does not know, with the object it carries.
\<close>

datatype wire = WireEvent watch_event | WireError go_error | WireOtherType | WireUnknown GitLabSource

datatype watch_reply = WatchOpened | WatchRefused | WatchFailed go_error

datatype reflector_input =
    ListReply "go_error + GitLabSourceList"
  | WatchReply watch_reply
  | Arrives wire
  | WatchEnds bool
  | ResyncFails go_error
  | StopRequested

text \<open>
  A step gives the next state and what the informer hears of it: the store of the reflector is the
  queue of the informer, so \<open>Replace\<close>, \<open>Add\<close>, \<open>Update\<close> and \<open>Delete\<close> of it are the steps
  of \<open>informer_step\<close>.
\<close>

definition syncWith :: "GitLabSource list \<Rightarrow> informer_event option" where
  "syncWith items = Some (Listed items)"

text \<open>\<open>ListAndWatch\<close> up to its loop; an error it returns is reported by \<open>Run\<close>, which calls it again.\<close>

definition ListAndWatch_list :: "go_error + GitLabSourceList \<Rightarrow> reflector \<Rightarrow> reflector \<times> informer_event option" where
  "ListAndWatch_list reply r =
     (case reply of
        Inl err \<Rightarrow> (r, None)
      | Inr list \<Rightarrow>
          (let resourceVersion = gl_ResourceVersion list
           in (setLastSyncResourceVersion resourceVersion (r\<lparr>rf_phase := ToWatch, rf_resourceVersion := resourceVersion\<rparr>),
               syncWith (gl_Items list))))"

text \<open>The answer to a call of \<open>Watch\<close>: a refused connection is tried again, any other error starts over.\<close>

definition ListAndWatch_watch :: "watch_reply \<Rightarrow> reflector \<Rightarrow> reflector" where
  "ListAndWatch_watch reply r =
     (case reply of
        WatchOpened \<Rightarrow> r\<lparr>rf_phase := Watching 0\<rparr>
      | WatchRefused \<Rightarrow> r
      | WatchFailed err \<Rightarrow> r\<lparr>rf_phase := Waiting\<rparr>)"

definition event_object :: "watch_event \<Rightarrow> GitLabSource" where
  "event_object e = (case e of WatchAdded obj \<Rightarrow> obj | WatchModified obj \<Rightarrow> obj | WatchDeleted obj \<Rightarrow> obj)"

definition seen_version :: "GitLabSource \<Rightarrow> nat \<Rightarrow> reflector \<Rightarrow> reflector" where
  "seen_version obj eventCount r =
     (let newResourceVersion = om_ResourceVersion (gs_meta obj)
      in setLastSyncResourceVersion newResourceVersion
           (r\<lparr>rf_phase := Watching (Suc eventCount), rf_resourceVersion := newResourceVersion\<rparr>))"

definition watchHandler_event :: "wire \<Rightarrow> nat \<Rightarrow> reflector \<Rightarrow> reflector \<times> informer_event option" where
  "watchHandler_event w eventCount r =
     (case w of
        WireError err \<Rightarrow> (r\<lparr>rf_phase := Waiting\<rparr>, None)
      | WireOtherType \<Rightarrow> (r, None)
      | WireEvent e \<Rightarrow> (seen_version (event_object e) eventCount r, Some (Watched e))
      | WireUnknown obj \<Rightarrow> (seen_version obj eventCount r, None))"

text \<open>The watch is closed; \<open>short\<close> tells that it lasted less than a second.\<close>

definition watchHandler_end :: "bool \<Rightarrow> nat \<Rightarrow> reflector \<Rightarrow> reflector" where
  "watchHandler_end short eventCount r =
     (if short \<and> eventCount = 0 then r\<lparr>rf_phase := Waiting\<rparr> else r\<lparr>rf_phase := ToWatch\<rparr>)"

text \<open>An input the reflector does not wait for has no effect.\<close>

fun reflector_step :: "reflector_input \<Rightarrow> reflector \<Rightarrow> reflector \<times> informer_event option" where
  "reflector_step (ListReply reply) r = (if rf_phase r = Waiting then ListAndWatch_list reply r else (r, None))"
| "reflector_step (WatchReply reply) r = (if rf_phase r = ToWatch then ListAndWatch_watch reply r else r, None)"
| "reflector_step (Arrives w) r =
     (case rf_phase r of Watching eventCount \<Rightarrow> watchHandler_event w eventCount r | _ \<Rightarrow> (r, None))"
| "reflector_step (WatchEnds short) r =
     (case rf_phase r of Watching eventCount \<Rightarrow> watchHandler_end short eventCount r | _ \<Rightarrow> r, None)"
| "reflector_step (ResyncFails err) r = (case rf_phase r of Watching _ \<Rightarrow> r\<lparr>rf_phase := Waiting\<rparr> | _ \<Rightarrow> r, None)"
| "reflector_step StopRequested r = (r\<lparr>rf_phase := Exited\<rparr>, None)"

definition heard :: "informer_event option \<Rightarrow> informer \<Rightarrow> informer" where
  "heard e s = (case e of None \<Rightarrow> s | Some e \<Rightarrow> informer_step e s)"

lemma heard_simps [simp]: "heard None s = s" "heard (Some e) s = informer_step e s"
  by (simp_all add: heard_def)

type_synonym reflecting = "reflector \<times> informer"

section \<open>The API server\<close>

text \<open>
  The server as its log: the changes of the sources one after another, and the resource
  version after each number of them.
\<close>

record server =
  sv_change :: "nat \<Rightarrow> watch_event"
  sv_version :: "nat \<Rightarrow> string"

fun snapshot :: "server \<Rightarrow> nat \<Rightarrow> (string \<rightharpoonup> GitLabSource)" where
  "snapshot sv 0 = Map.empty"
| "snapshot sv (Suc n) = watched_map (sv_change sv n) (snapshot sv n)"

text \<open>What the API documents of versions: they differ, and an object carries that of its change.\<close>

definition server_ok :: "server \<Rightarrow> bool" where
  "server_ok sv \<longleftrightarrow> inj (sv_version sv)
     \<and> (\<forall>n. om_ResourceVersion (gs_meta (event_object (sv_change sv n))) = sv_version sv (Suc n))"

text \<open>
  The answers of the server.  A list holds the sources at some version, which may be one of the past,
  as it asks for version 0; a watch goes on from the version the reflector has.  Calls
  and watches may fail and end at any time.
\<close>

definition answers :: "server \<Rightarrow> reflector \<Rightarrow> reflector_input \<Rightarrow> bool" where
  "answers sv r i =
     (case i of
        ListReply (Inr list) \<Rightarrow> (\<exists>n. listed_map (gl_Items list) = snapshot sv n \<and> gl_ResourceVersion list = sv_version sv n)
      | Arrives (WireEvent e) \<Rightarrow> (\<exists>n. rf_resourceVersion r = sv_version sv n \<and> e = sv_change sv n)
      | Arrives (WireUnknown obj) \<Rightarrow> om_ResourceVersion (gs_meta obj) = rf_resourceVersion r
      | _ \<Rightarrow> True)"

text \<open>
  The reflector, the loop of the informer and its resyncs interleave.  A list comes back when
  nothing is queued; \<open>relist_exact_iff\<close> says what happens otherwise.
\<close>

inductive reflect_step :: "server \<Rightarrow> reflecting \<Rightarrow> reflecting \<Rightarrow> bool" for sv where
  input: "answers sv r i \<Longrightarrow> (\<And>l. i = ListReply (Inr l) \<Longrightarrow> df_queue (inf_fifo s) = [])
    \<Longrightarrow> reflector_step i r = (r', e) \<Longrightarrow> reflect_step sv (r, s) (r', heard e s)"
| turn: "reflect_step sv (r, s) (r, informer_step Processed s)"
| resync: "reflect_step sv (r, s) (r, informer_step Resynced s)"

definition reflects :: "server \<Rightarrow> reflecting \<Rightarrow> reflecting \<Rightarrow> bool" where
  "reflects sv = (reflect_step sv)\<^sup>*\<^sup>*"

text \<open>The informer stands at a version of the server.\<close>

definition at_version :: "server \<Rightarrow> nat \<Rightarrow> reflecting \<Rightarrow> bool" where
  "at_version sv n = (\<lambda>(r, s). inf_ok s \<and> inf_map s = snapshot sv n \<and> rf_resourceVersion r = sv_version sv n
     \<and> rf_lastSyncResourceVersion r = sv_version sv n)"

definition unlisted :: "reflecting \<Rightarrow> bool" where
  "unlisted = (\<lambda>(r, s). inf_ok s \<and> inf_map s = Map.empty \<and> rf_phase r \<in> {Waiting, Exited} \<and> rf_lastSyncResourceVersion r = [])"

lemma at_versionI:
  "inf_ok s \<Longrightarrow> inf_map s = snapshot sv n \<Longrightarrow> rf_resourceVersion r = sv_version sv n \<Longrightarrow> rf_lastSyncResourceVersion r = sv_version sv n
     \<Longrightarrow> at_version sv n (r, s)"
  by (simp add: at_version_def)

lemma at_version_phase: "at_version sv n (r, s) \<Longrightarrow> at_version sv n (r\<lparr>rf_phase := p\<rparr>, s)"
  by (simp add: at_version_def)

text \<open>A list moves to the version it is of; an event moves to the next version.\<close>

lemma list_moves:
  assumes "inf_ok s" and "df_queue (inf_fifo s) = []"
    and "listed_map (gl_Items l) = snapshot sv n" and "gl_ResourceVersion l = sv_version sv n"
    and "ListAndWatch_list (Inr l) r = (r', e)"
  shows "at_version sv n (r', heard e s)"
proof -
  have "inf_map (informer_step (Listed (gl_Items l)) s) = server_map (Listed (gl_Items l)) (inf_map s)"
    using assms(1,2) by (intro informer_step_map) auto
  then show ?thesis
    using assms(3-5) informer_step_ok [OF assms(1), of "Listed (gl_Items l)"]
    by (auto simp: ListAndWatch_list_def at_version_def setLastSyncResourceVersion_def syncWith_def Let_def)
qed

lemma event_moves:
  assumes "server_ok sv" and "at_version sv n (r, s)" and "rf_phase r = Watching c"
    and "reflector_step (Arrives (WireEvent (sv_change sv n))) r = (r', e)"
  shows "at_version sv (Suc n) (r', heard e s)" and "rf_phase r' = Watching (Suc c)"
proof -
  let ?e = "Watched (sv_change sv n)"
  have ok: "inf_ok s" using assms(2) by (simp add: at_version_def)
  then have "inf_map (informer_step ?e s) = server_map ?e (inf_map s)" by (intro informer_step_map) auto
  then show "at_version sv (Suc n) (r', heard e s)"
    using assms informer_step_ok [OF ok, of ?e]
    by (auto simp: at_version_def watchHandler_event_def seen_version_def setLastSyncResourceVersion_def Let_def server_ok_def)
  show "rf_phase r' = Watching (Suc c)"
    using assms(3,4) by (auto simp: watchHandler_event_def seen_version_def setLastSyncResourceVersion_def Let_def)
qed

definition tracks :: "server \<Rightarrow> reflecting \<Rightarrow> bool" where
  "tracks sv s \<longleftrightarrow> unlisted s \<or> (\<exists>n. at_version sv n s)"

text \<open>Each step stays at the version, goes to the next, or is a list.\<close>

lemma reflect_step_moves:
  assumes "reflect_step sv s t" and "server_ok sv" and "at_version sv n s"
  shows "at_version sv n t \<or> at_version sv (Suc n) t \<or> (rf_phase (fst s) = Waiting \<and> (\<exists>m. at_version sv m t))"
  using assms(1)
proof cases
  case (input r i u r' e)
  have ok: "inf_ok u" using assms(3) input(1) by (simp add: at_version_def)
  have v: "rf_resourceVersion r = sv_version sv n" "at_version sv n (r, u)" using assms(3) input(1) by (simp_all add: at_version_def)
  show ?thesis
  proof (cases "\<exists>e. i = Arrives (WireEvent e)")
    case True
    then obtain ev where ev: "i = Arrives (WireEvent ev)" by blast
    with input(3) v(1) obtain m where "sv_version sv n = sv_version sv m" "ev = sv_change sv m" by (auto simp: answers_def)
    then have "ev = sv_change sv n" using assms(2) by (auto simp: server_ok_def dest: injD)
    then show ?thesis using event_moves(1) [OF assms(2) v(2)] ev input(2,5) v(2)
      by (cases "rf_phase r") auto
  next
    case False
    show ?thesis
    proof (cases "\<exists>l. i = ListReply (Inr l) \<and> rf_phase r = Waiting")
      case True
      then obtain l where l: "i = ListReply (Inr l)" "rf_phase r = Waiting" by blast
      with input(3) obtain m where m: "listed_map (gl_Items l) = snapshot sv m" "gl_ResourceVersion l = sv_version sv m"
        by (auto simp: answers_def)
      have "ListAndWatch_list (Inr l) r = (r', e)" using l input(5) by simp
      from list_moves [OF ok input(4) m this] l show ?thesis using input(1,2) by auto
    next
      case other: False
      have "at_version sv n t"
        using input(3,5) False other v input(2)
        by (cases i) (auto simp: answers_def ListAndWatch_list_def ListAndWatch_watch_def watchHandler_event_def watchHandler_end_def
            seen_version_def setLastSyncResourceVersion_def Let_def at_version_def
            split: reflector_phase.splits sum.splits watch_reply.splits wire.splits if_splits)
      then show ?thesis by blast
    qed
  qed
next
  case (turn r u)
  then show ?thesis using assms(3) informer_step_map [of u Processed] informer_step_ok [of u Processed] by (simp add: at_version_def)
next
  case (resync r u)
  then show ?thesis using assms(3) informer_step_map [of u Resynced] informer_step_ok [of u Resynced] by (simp add: at_version_def)
qed

lemma unlisted_moves:
  assumes "reflect_step sv s t" and "unlisted s"
  shows "tracks sv t"
  using assms(1)
proof cases
  case (input r i u r' e)
  have ok: "inf_ok u" and idle: "rf_phase r \<in> {Waiting, Exited}" using assms(2) input(1) by (simp_all add: unlisted_def)
  show ?thesis
  proof (cases "\<exists>l. i = ListReply (Inr l) \<and> rf_phase r = Waiting")
    case True
    then obtain l where l: "i = ListReply (Inr l)" "rf_phase r = Waiting" by blast
    with input(3) obtain m where m: "listed_map (gl_Items l) = snapshot sv m" "gl_ResourceVersion l = sv_version sv m"
      by (auto simp: answers_def)
    have "ListAndWatch_list (Inr l) r = (r', e)" using l input(5) by simp
    from list_moves [OF ok input(4) m this] l show ?thesis using input(2) by (auto simp: tracks_def)
  next
    case False
    have "unlisted t"
      using False assms(2) idle input(1,2,5)
      by (cases i) (auto simp: unlisted_def ListAndWatch_list_def split: sum.splits)
    then show ?thesis by (simp add: tracks_def)
  qed
next
  case (turn r u)
  then show ?thesis using assms(2) informer_step_map [of u Processed] informer_step_ok [of u Processed] by (simp add: unlisted_def tracks_def)
next
  case (resync r u)
  then show ?thesis using assms(2) informer_step_map [of u Resynced] informer_step_ok [of u Resynced] by (simp add: unlisted_def tracks_def)
qed

lemma reflects_tracks:
  assumes "reflects sv (NewReflector, NewInformer) s" and "server_ok sv"
  shows "tracks sv s"
  using assms(1) unfolding reflects_def
proof (induction rule: rtranclp_induct)
  case base
  then show ?case by (simp add: tracks_def unlisted_def NewReflector_def)
next
  case (step s t)
  from step(3) show ?case
    unfolding tracks_def using unlisted_moves [OF step(2), unfolded tracks_def] reflect_step_moves [OF step(2) assms(2)] by blast
qed

text \<open>The changes after a version, as the watch delivers them.\<close>

definition deliver_one :: "watch_event \<Rightarrow> reflecting \<Rightarrow> reflecting" where
  "deliver_one e s = (let (r, ev) = reflector_step (Arrives (WireEvent e)) (fst s) in (r, heard ev (snd s)))"

definition deliver :: "server \<Rightarrow> nat \<Rightarrow> nat \<Rightarrow> reflecting \<Rightarrow> reflecting" where
  "deliver sv n N s = fold (\<lambda>m. deliver_one (sv_change sv m)) [n..<N] s"

lemma deliver_moves:
  assumes "server_ok sv"
  shows "n \<le> N \<Longrightarrow> at_version sv n s \<Longrightarrow> rf_phase (fst s) = Watching c \<Longrightarrow> at_version sv N (deliver sv n N s)"
proof (induction "N - n" arbitrary: n s c)
  case (Suc k)
  obtain r u where s: "s = (r, u)" by (cases s)
  obtain r' e where e: "reflector_step (Arrives (WireEvent (sv_change sv n))) r = (r', e)" by fastforce
  let ?t = "(r', heard e u)"
  have t: "at_version sv (Suc n) ?t" "rf_phase (fst ?t) = Watching (Suc c)"
    using event_moves [OF assms _ _ e] Suc.prems by (simp_all add: s)
  have "deliver_one (sv_change sv n) s = ?t" by (simp add: deliver_one_def s e del: reflector_step.simps)
  then have "deliver sv n N s = deliver sv (Suc n) N ?t" using Suc(2) by (simp add: deliver_def upt_conv_Cons)
  then show ?case using Suc(1) [of "Suc n" ?t] Suc(2) t by simp
qed (simp add: deliver_def)

section \<open>Properties\<close>


definition demo_server :: server where
  "demo_server = \<lparr>sv_change = \<lambda>n. WatchModified (demo_source\<lparr>gs_meta := (gs_meta demo_source)\<lparr>om_ResourceVersion := replicate (Suc n) CHR ''1''\<rparr>\<rparr>),
     sv_version = \<lambda>n. replicate n CHR ''1''\<rparr>"

definition demo_empty_list :: GitLabSourceList where
  "demo_empty_list = \<lparr>gl_APIVersion = [], gl_Kind = [], gl_ResourceVersion = [], gl_Items = []\<rparr>"


text \<open>
  A list may go back.  The list asks for version 0, which any cache of the server may answer: when
  a watch has ended with an error, the next list may be of an older version than the last event,
  and the lister then reads older sources than before, until the watch from there has caught up.
\<close>

theorem relist_may_go_back:
  fixes l :: GitLabSourceList
  assumes "at_version sv n (r, s)" and "rf_phase r = Watching c" and "df_queue (inf_fifo s) = []"
    and "listed_map (gl_Items l) = snapshot sv m" and "gl_ResourceVersion l = sv_version sv m"
  shows "\<exists>t. (reflect_step sv)\<^sup>*\<^sup>* (r, s) t \<and> at_version sv m t"
proof -
  let ?r = "r\<lparr>rf_phase := Waiting\<rparr>"
  obtain r' e where e: "ListAndWatch_list (Inr l) ?r = (r', e)" by fastforce
  have "reflect_step sv (r, s) (?r, heard None s)"
    by (rule reflect_step.input [where i = "Arrives (WireError (PlainError []))"])
      (simp_all add: answers_def watchHandler_event_def assms(2))
  moreover have "reflect_step sv (?r, s) (r', heard e s)"
    by (rule reflect_step.input [where i = "ListReply (Inr l)"]) (use assms(3-5) e in \<open>auto simp: answers_def\<close>)
  ultimately have "(reflect_step sv)\<^sup>*\<^sup>* (r, s) (r', heard e s)"
    unfolding heard_simps by (intro rtranclp.rtrancl_into_rtrancl [OF r_into_rtranclp])
  moreover have "inf_ok s" using assms(1) by (simp add: at_version_def)
  ultimately show ?thesis using list_moves [OF _ assms(3-5) e] by blast
qed

end
