(* ===== verification/SystemProperties.thy ===== *)
theory SystemProperties
  imports System Reflector ControllerProperties
begin

text \<open>
  The properties of the whole: no change of a source is missed, from the log of the API server
  over the reflector, the informer and the queue to the run that returns nil.
\<close>

section \<open>No change is missed\<close>

lemma noticed_or_found:
  assumes "sys_reach (newReconciler env scheme img) (system_init n w) s"
    and "\<not> c_crashed (sy_ctl s)" and "\<not> q_shuttingDown (c_queue (sy_ctl s))"
    and "CHR ''/'' \<notin> set ns" and "CHR ''/'' \<notin> set name"
  shows "up_to_date (sy_last s (lister_key ns name)) (inf_map (sy_informer s) (lister_key ns name))
    \<or> lister_key ns name \<in> set (df_queue (inf_fifo (sy_informer s))) \<or> noticed s (lister_key ns name)"
proof -
  let ?key = "lister_key ns name" and ?source = "inf_map (sy_informer s) (lister_key ns name)"
  have inv: "sys_inv s" using assms(1) by (rule sys_inv_reach)
  then have inf: "inf_ok (sy_informer s)" unfolding sys_inv_def by blast
  have "up_to_date (sy_last s ?key) ?source" if q: "?key \<notin> set (df_queue (inf_fifo (sy_informer s)))" and "\<not> noticed s ?key"
  proof -
    have "object_key ?key" using assms(4,5) by (auto simp: object_key_def)
    then have "fresh s ?key" using inv assms(2,3) that by (auto simp: sys_inv_def)
    moreover have "?source = GetByKey ?key (inf_store (sy_informer s))"
      using inf q by (auto simp: inf_ok_def fifo_inv_def inf_map_def expected_def GetByKey_def tsm_Get_def split: option.splits)
    ultimately show ?thesis
      using inv up_to_date_wanted [of "st_cache (c_world (sy_ctl s)) ?key" ?source "sy_last s ?key"] by (simp add: fresh_def sys_inv_def)
  qed
  then show ?thesis by blast
qed

text \<open>The controller is level triggered: take any state it reaches, with lists, watch events,
  the informer, the delivery to the handlers, retries and workers interleaved in any way, in
  which it neither has crashed nor shuts down.  Compare the last run of a key with what the
  API server has said of that source.  Either the run found that source, as far as
  specification and metadata go, or found none and there is none, and it returned nil; or the
  key is still queued in the informer, on its way to the event handlers, due in the
  controller's queue or in the hands of a worker.  So once nothing is left to do, every
  source the server holds has been reconciled as it is now.\<close>

theorem no_change_missed:
  assumes "sys_reach (newReconciler env scheme img) (system_init n w) s" and "settled_lists (sy_heard s) NewInformer"
    and "\<not> c_crashed (sy_ctl s)" and "\<not> q_shuttingDown (c_queue (sy_ctl s))"
    and "CHR ''/'' \<notin> set ns" and "CHR ''/'' \<notin> set name"
  shows "let key = lister_key ns name
    in up_to_date (sy_last s key) (fold server_map (sy_heard s) Map.empty key)
       \<or> key \<in> set (df_queue (inf_fifo (sy_informer s))) \<or> key \<in> notified_key ` set (sy_pending s)
       \<or> due (sy_ctl s) key \<or> (\<exists>i. c_workers (sy_ctl s) i = Busy key)"
proof -
  have "sys_inv s" using assms(1) by (rule sys_inv_reach)
  then have "inf_map (sy_informer s) = fold server_map (sy_heard s) Map.empty"
    using informer_run_map [OF NewInformer_ok assms(2)] by (auto simp: sys_inv_def)
  with noticed_or_found [OF assms(1,3-6)] show ?thesis by (auto simp: Let_def noticed_def)
qed

text \<open>The demonstration's source from the first list to the end of the run of its key.\<close>

lemma demo_source_key: "source_key demo_source = ''ns/src''" "lister_key ''ns'' ''src'' = ''ns/src''"
  "MetaNamespaceKeyFunc (gs_meta demo_source) = ''ns/src''"
  by (simp_all add: source_key_def DeletionHandlingMetaNamespaceKeyFunc_def MetaNamespaceKeyFunc_def demo_source_def demo_meta_def lister_key_def)

definition listed_informer :: informer where
  "listed_informer = informer_step (Listed [demo_source]) NewInformer"

lemma listed_informer:
  "df_queue (inf_fifo listed_informer) = [''ns/src'']" "df_items (inf_fifo listed_informer) ''ns/src'' = Some [Sync demo_source]"
  "inf_told listed_informer = []" "inf_store listed_informer = NewIndexer source_indexers"
  by (simp_all add: listed_informer_def NewInformer_def NewDeltaFIFO_def fifo_Replace_def sync_items_def bury_keys_def gone_keys_def
      tsm_ListKeys_def NewIndexer_def NewThreadSafeStore_def queueActionLocked_def demo_source_key willObjectBeDeletedLocked_def
      deltas_of_def dedupDeltas_def Let_def)

lemma processed_informer:
  "inf_told (informer_step Processed listed_informer) = [OnAdd demo_source]" "df_queue (inf_fifo (informer_step Processed listed_informer)) = []"
  "GetByKey k (inf_store (informer_step Processed listed_informer)) = (if k = ''ns/src'' then Some demo_source else None)"
proof -
  have "tsm_items (inf_store listed_informer) = []" by (simp add: listed_informer NewIndexer_def NewThreadSafeStore_def)
  then have "map_of (tsm_items (inf_store listed_informer)) = Map.empty" by simp
  with HandleDeltas_ok [OF NewIndexer_ok, of "[Sync demo_source]" "[]"] obtain c where
    h: "HandleDeltas [Sync demo_source] (NewIndexer source_indexers, []) = (Ok (), (c, [OnAdd demo_source]))"
      "map_of (tsm_items c) = [''ns/src'' \<mapsto> demo_source]"
    by (auto simp: listed_informer demo_source_key apply_delta_def)
  then have "informer_step Processed listed_informer =
      listed_informer\<lparr>inf_fifo := snd (fifo_Pop (inf_fifo listed_informer)), inf_store := c, inf_told := [OnAdd demo_source]\<rparr>"
    by (simp add: processLoop_turn_def fifo_Pop_def listed_informer Let_def)
  with h(2) show "inf_told (informer_step Processed listed_informer) = [OnAdd demo_source]"
    "df_queue (inf_fifo (informer_step Processed listed_informer)) = []"
    "GetByKey k (inf_store (informer_step Processed listed_informer)) = (if k = ''ns/src'' then Some demo_source else None)"
    by (simp_all add: fifo_Pop_def listed_informer Let_def GetByKey_def tsm_Get_def)
qed

text \<open>The informer lists the source, processes it, the handler enqueues it, a worker takes it and is done.\<close>

definition rest_of_demo :: "rstate \<Rightarrow> system" where
  "rest_of_demo w = \<lparr>sy_informer = informer_step Processed listed_informer, sy_pending = [],
     sy_ctl = set_worker 0 Idle (after_run 0 ''ns/src'' (Ok ()) (set_worker 0 (Finishing ''ns/src'') (busy_controller (demo_state demo_source)\<lparr>c_world := w\<rparr>)))
        \<lparr>c_queue := q_Done ''ns/src'' (q_New\<lparr>q_processing := {''ns/src''}\<rparr>)\<rparr>,
     sy_heard = [Listed [demo_source], Processed], sy_last = [''ns/src'' \<mapsto> (Some demo_source, Ok ())]\<rparr>"

lemma demo_started:
  "ctl_step run env (EnqueueKey ''ns/src'' (ctl_init 2 w)) (Started 0 ''ns/src'') (busy_controller w)"
proof -
  let ?k = "''ns/src''" and ?c = "EnqueueKey ''ns/src'' (ctl_init 2 w)"
  have "q_Get (q_Add ?k q_New) = (Got ?k, q_New\<lparr>q_processing := {?k}\<rparr>)"
    by (simp add: q_Get_def q_Add_def q_New_def Let_def)
  then have "ctl_step run env ?c (Started 0 ?k) (set_worker 0 (Busy ?k) (?c\<lparr>c_queue := q_New\<lparr>q_processing := {?k}\<rparr>\<rparr>))"
    by (intro ctl_step.start) (simp_all add: ctl_init_def)
  moreover have "set_worker 0 (Busy ?k) (?c\<lparr>c_queue := q_New\<lparr>q_processing := {?k}\<rparr>\<rparr>) = busy_controller w"
    by (simp add: busy_controller_def EnqueueKey_def)
  ultimately show ?thesis by simp
qed

lemma sys_reach_step: "sys_reach r s t \<Longrightarrow> sys_step r t u \<Longrightarrow> sys_reach r s u"
  unfolding sys_reach_def by (rule rtranclp.rtrancl_into_rtrancl)

definition heard_demo :: system where
  "heard_demo = \<lparr>sy_informer = informer_step Processed listed_informer, sy_pending = [OnAdd demo_source],
     sy_ctl = ctl_init 2 (demo_state demo_source), sy_heard = [Listed [demo_source], Processed], sy_last = Map.empty\<rparr>"

lemma heard_demo_eq: "hear Processed (hear (Listed [demo_source]) (system_init 2 (demo_state demo_source))) = heard_demo"
proof -
  let ?w = "demo_state demo_source" and ?k = "''ns/src''"
  let ?s0 = "system_init 2 ?w" and ?i = "informer_step Processed listed_informer"
  let ?c0 = "ctl_init 2 (?w\<lparr>st_cache := Map.empty\<rparr>) :: (string, rstate) controller"
  have s0: "?s0 = \<lparr>sy_informer = NewInformer, sy_pending = [], sy_ctl = ?c0, sy_heard = [], sy_last = Map.empty\<rparr>"
    by (simp add: system_init_def)
  have l: "informer_step (Listed [demo_source]) NewInformer = listed_informer" "inf_told NewInformer = []"
    by (simp_all only: listed_informer_def) (simp add: NewInformer_def)
  have s1: "hear (Listed [demo_source]) ?s0 =
      \<lparr>sy_informer = listed_informer, sy_pending = [], sy_ctl = ?c0, sy_heard = [Listed [demo_source]], sy_last = Map.empty\<rparr>"
    by (simp add: s0 hear_def Let_def l listed_informer(3) onWorld_def refresh_def ctl_init_def del: informer_step.simps)
  have fill: "refresh {?k} (inf_store ?i) (?w\<lparr>st_cache := Map.empty\<rparr>) = ?w"
    unfolding refresh_def processed_informer(3) by (simp add: demo_state_def fun_eq_iff)
  show ?thesis
    unfolding s1 heard_demo_def using fill
    by (simp add: hear_def Let_def listed_informer(3) processed_informer(1) demo_source_key(3) onWorld_def ctl_init_def del: informer_step.simps)
qed

lemma hear_crashed [simp]: "c_crashed (sy_ctl (hear e s)) = c_crashed (sy_ctl s)"
  by (simp add: hear_def Let_def onWorld_def)

lemma init_running [simp]: "\<not> c_crashed (sy_ctl (system_init n w))"
  by (simp add: system_init_def ctl_init_def)

lemma heard_reached: "sys_reach r (system_init 2 (demo_state demo_source)) heard_demo"
proof -
  let ?s0 = "system_init 2 (demo_state demo_source)"
  have "sys_reach r ?s0 ?s0" by (simp add: sys_reach_def)
  moreover have "sys_step r ?s0 (hear (Listed [demo_source]) ?s0)" by (rule sys_step.sys_hear) simp
  moreover have "sys_step r (hear (Listed [demo_source]) ?s0) (hear Processed (hear (Listed [demo_source]) ?s0))"
    by (rule sys_step.sys_hear) simp
  ultimately show ?thesis unfolding heard_demo_eq [symmetric] by (blast intro: sys_reach_step)
qed

text \<open>A worker takes the key, runs it and is done.\<close>

lemma rest_from_heard:
  "sys_reach (demo_reconciler demo_env) heard_demo
     (rest_of_demo (snd (Reconcile (demo_reconciler demo_env) ''ns/src'' (demo_state demo_source))))"
proof -
  let ?r = "demo_reconciler demo_env" and ?w = "demo_state demo_source" and ?k = "''ns/src''"
  let ?w' = "snd (Reconcile ?r ?k ?w)" and ?run = "Reconcile ?r"
  let ?c3 = "EnqueueKey ?k (ctl_init 2 ?w) :: (string, rstate) controller"
  let ?s3 = "heard_demo\<lparr>sy_pending := [], sy_ctl := ?c3\<rparr>"
  let ?s4 = "?s3\<lparr>sy_ctl := busy_controller ?w\<rparr>"
  let ?c5 = "after_run 0 ?k (Ok ()) (set_worker 0 (Finishing ?k) (busy_controller ?w\<lparr>c_world := ?w'\<rparr>))"
  let ?s5 = "?s4\<lparr>sy_ctl := ?c5, sy_last := [?k \<mapsto> (Some demo_source, Ok ())]\<rparr>"
  let ?c6 = "set_worker 0 Idle (?c5\<lparr>c_queue := q_Done ?k (c_queue ?c5)\<rparr>)"
  have a: "sys_step ?r heard_demo ?s3"
    using sys_step.sys_deliver [of heard_demo "OnAdd demo_source" "[]" ?r]
    by (simp add: heard_demo_def ctl_init_def demo_source_key event_handler_enqueues del: informer_step.simps event_handler.simps)
  have b: "sys_step ?r ?s3 ?s4"
    using sys_step.sys_ctl [of ?r ?s3 "Started 0 ?k" "busy_controller ?w"] demo_started [of ?run same_cache ?w]
    by (simp add: note_run_def heard_demo_def)
  have c: "sys_step ?r ?s4 ?s5"
  proof -
    have "?run ?k (c_world (busy_controller ?w)) = (Ok (), ?w')" using demo_Reconcile by (simp add: prod_eq_iff)
    from ctl_step.run [of "busy_controller ?w" 0 ?k ?run "Ok ()" ?w' same_cache 0, OF _ _ this]
    have "ctl_step ?run same_cache (busy_controller ?w) (Ran 0 ?k (Ok ())) ?c5" by simp
    moreover have "found ?k ?w = Some demo_source" using demo_key by (simp add: found_def demo_source_key demo_state_def)
    ultimately show ?thesis
      using sys_step.sys_ctl [of ?r ?s4 "Ran 0 ?k (Ok ())" ?c5] by (simp add: note_run_def heard_demo_def)
  qed
  have d: "sys_step ?r ?s5 (?s5\<lparr>sy_ctl := ?c6\<rparr>)"
  proof -
    have "ctl_step ?run same_cache ?c5 (Finished 0 ?k) ?c6" by (rule ctl_step.finish) (simp_all add: after_run_def)
    then show ?thesis using sys_step.sys_ctl [of ?r ?s5 "Finished 0 ?k" ?c6] by (simp add: note_run_def heard_demo_def)
  qed
  have e: "?s5\<lparr>sy_ctl := ?c6\<rparr> = rest_of_demo ?w'"
    by (simp add: rest_of_demo_def heard_demo_def set_worker_def after_run_def Forget_def busy_controller_def)
  have "sys_reach ?r heard_demo heard_demo" by (simp add: sys_reach_def)
  from sys_reach_step [OF sys_reach_step [OF sys_reach_step [OF sys_reach_step [OF this a] b] c] d]
  show ?thesis unfolding e .
qed

lemma rest_reached:
  "sys_reach (demo_reconciler demo_env) (system_init 2 (demo_state demo_source))
     (rest_of_demo (snd (Reconcile (demo_reconciler demo_env) ''ns/src'' (demo_state demo_source))))"
  using heard_reached rest_from_heard unfolding sys_reach_def by (rule rtranclp_trans)

lemma rest_of_demo_rest:
  "df_queue (inf_fifo (sy_informer (rest_of_demo w))) = []" "sy_pending (rest_of_demo w) = []" "\<not> due (sy_ctl (rest_of_demo w)) ''ns/src''"
  "\<not> (\<exists>i. c_workers (sy_ctl (rest_of_demo w)) i = Busy ''ns/src'')" "\<not> c_crashed (sy_ctl (rest_of_demo w))"
  "\<not> q_shuttingDown (c_queue (sy_ctl (rest_of_demo w)))"
  by (simp_all add: rest_of_demo_def processed_informer due_def set_worker_def after_run_def Forget_def busy_controller_def
      ctl_init_def q_Done_def q_New_def Let_def del: informer_step.simps)

text \<open>There nothing is left to do, and the last run found the source as the server holds it.\<close>

theorem no_change_missed_witness:
  "\<exists>s. sys_reach (demo_reconciler demo_env) (system_init 2 (demo_state demo_source)) s
     \<and> df_queue (inf_fifo (sy_informer s)) = [] \<and> sy_pending s = [] \<and> \<not> due (sy_ctl s) ''ns/src''
     \<and> \<not> (\<exists>i. c_workers (sy_ctl s) i = Busy ''ns/src'')
     \<and> up_to_date (sy_last s ''ns/src'') (fold server_map (sy_heard s) Map.empty ''ns/src'')"
proof -
  let ?s = "rest_of_demo (snd (Reconcile (demo_reconciler demo_env) ''ns/src'' (demo_state demo_source)))"
  note reach = rest_reached [unfolded demo_reconciler_def] and rest = rest_of_demo_rest
  have "settled_lists (sy_heard ?s) NewInformer" by (simp add: rest_of_demo_def NewInformer_def NewDeltaFIFO_def)
  from no_change_missed [OF reach, folded demo_reconciler_def, OF this rest(5,6), of "''ns''" "''src''"] rest
  show ?thesis using rest_reached by (auto simp: demo_source_key Let_def)
qed

section \<open>From the log of the server\<close>

text \<open>
  The reflector and the system behind it: an input of the reflector that says something to the
  informer is heard by the system; turns of the informer's loop and resyncs, deliveries to the
  handlers and steps of the controller go on as they like.
\<close>

inductive whole_step :: "server \<Rightarrow> Reconciler \<Rightarrow> reflector \<times> system \<Rightarrow> reflector \<times> system \<Rightarrow> bool" for sv r where
  quiet: "answers sv rf i \<Longrightarrow> reflector_step i rf = (rf', None) \<Longrightarrow> whole_step sv r (rf, s) (rf', s)"
| heard: "\<not> c_crashed (sy_ctl s) \<Longrightarrow> answers sv rf i \<Longrightarrow> (\<And>l. i = ListReply (Inr l) \<Longrightarrow> df_queue (inf_fifo (sy_informer s)) = [])
    \<Longrightarrow> reflector_step i rf = (rf', Some e) \<Longrightarrow> whole_step sv r (rf, s) (rf', hear e s)"
| loop: "\<not> c_crashed (sy_ctl s) \<Longrightarrow> e \<in> {Processed, Resynced} \<Longrightarrow> whole_step sv r (rf, s) (rf, hear e s)"
| inner: "sys_step r s t \<Longrightarrow> sy_heard t = sy_heard s \<Longrightarrow> whole_step sv r (rf, s) (rf, t)"

definition whole_reach :: "server \<Rightarrow> Reconciler \<Rightarrow> reflector \<times> system \<Rightarrow> reflector \<times> system \<Rightarrow> bool" where
  "whole_reach sv r = (whole_step sv r)\<^sup>*\<^sup>*"

lemma hear_informer [simp]: "sy_informer (hear e s) = informer_step e (sy_informer s)"
  by (simp add: hear_def Let_def)

lemma quiet_informer: "sys_step r s t \<Longrightarrow> sy_heard t = sy_heard s \<Longrightarrow> sy_informer t = sy_informer s"
  by (induction rule: sys_step.induct) (simp_all add: hear_def Let_def)

lemma reflector_quiet_list: "reflector_step i rf = (rf', None) \<Longrightarrow> i = ListReply (Inr l) \<Longrightarrow> rf_phase rf \<noteq> Waiting \<and> rf' = rf"
  by (auto simp: ListAndWatch_list_def syncWith_def Let_def split: if_splits)

text \<open>A step of the whole is a step of the system or none, and a step of the reflector on the informer or none.\<close>

lemma whole_step_parts:
  assumes "whole_step sv r (rf, s) (rf', s')"
  shows "sys_step r s s' \<or> s' = s"
    and "reflect_step sv (rf, sy_informer s) (rf', sy_informer s') \<or> (rf', sy_informer s') = (rf, sy_informer s)"
proof -
  show "sys_step r s s' \<or> s' = s"
    using assms by (cases rule: whole_step.cases) (auto intro: sys_step.sys_hear)
  show "reflect_step sv (rf, sy_informer s) (rf', sy_informer s') \<or> (rf', sy_informer s') = (rf, sy_informer s)"
    using assms
  proof (cases rule: whole_step.cases)
    case (quiet i)
    show ?thesis
    proof (cases "\<exists>l. i = ListReply (Inr l)")
      case True
      then show ?thesis using reflector_quiet_list [OF quiet(3)] quiet(1) by auto
    next
      case False
      then show ?thesis using reflect_step.input [OF quiet(2) _ quiet(3), of "sy_informer s"] quiet(1) by auto
    qed
  next
    case (heard i e)
    from reflect_step.input [OF heard(3) heard(4) heard(5)] show ?thesis using heard(1) by simp
  next
    case (loop e)
    then show ?thesis using reflect_step.turn reflect_step.resync by auto
  next
    case inner
    from quiet_informer [OF inner(2,3)] show ?thesis using inner(1) by simp
  qed
qed

lemma whole_reach_parts:
  assumes "whole_reach sv r (rf, s) (rf', s')"
  shows "sys_reach r s s'" and "reflects sv (rf, sy_informer s) (rf', sy_informer s')"
proof -
  have "sys_reach r s s' \<and> reflects sv (rf, sy_informer s) (rf', sy_informer s')"
    using assms unfolding whole_reach_def
  proof (induction rule: rtranclp_induct2)
    case refl
    show ?case by (simp add: sys_reach_def reflects_def)
  next
    case (step rf1 s1 rf2 s2)
    from whole_step_parts [OF step(2)] step(3) show ?case
      unfolding sys_reach_def reflects_def by (metis Pair_inject rtranclp.rtrancl_into_rtrancl)
  qed
  then show "sys_reach r s s'" "reflects sv (rf, sy_informer s) (rf', sy_informer s')" by simp_all
qed


text \<open>Steps in which the system hears nothing are steps of the whole.\<close>

lemma inner_reach:
  "sys_reach r s t \<Longrightarrow> \<exists>es. sy_heard t = sy_heard s @ es \<and> (es = [] \<longrightarrow> whole_reach sv r (rf, s) (rf, t))"
  unfolding sys_reach_def
proof (induction rule: rtranclp_induct)
  case base
  show ?case by (simp add: whole_reach_def)
next
  case (step t u)
  then obtain es where es: "sy_heard t = sy_heard s @ es" "es = [] \<longrightarrow> whole_reach sv r (rf, s) (rf, t)" by blast
  from step(2) have "sy_heard u = sy_heard t \<or> (\<exists>e. sy_heard u = sy_heard t @ [e])"
    by (cases rule: sys_step.cases) (simp_all add: hear_def Let_def)
  then show ?case
  proof
    assume u: "sy_heard u = sy_heard t"
    have "whole_reach sv r (rf, s) (rf, u)" if "es = []"
      using es(2) that whole_step.inner [OF step(2) u] unfolding whole_reach_def by (auto intro: rtranclp.rtrancl_into_rtrancl)
    then show ?thesis using es(1) u by auto
  qed (use es(1) in auto)
qed

text \<open>The server adds the demonstration's source; the versions after that change it.\<close>

definition demo_log :: server where
  "demo_log = \<lparr>sv_change = \<lambda>n. WatchAdded (demo_source\<lparr>gs_meta := (gs_meta demo_source)\<lparr>om_ResourceVersion := replicate n CHR ''1''\<rparr>\<rparr>),
     sv_version = \<lambda>n. case n of 0 \<Rightarrow> ''0'' | Suc m \<Rightarrow> replicate m CHR ''1''\<rparr>"

lemma demo_log_ok: "server_ok demo_log"
proof -
  have "replicate m CHR ''1'' \<noteq> ''0''" for m by (cases m) auto
  then show ?thesis
    by (auto simp: server_ok_def demo_log_def event_object_def inj_def split: nat.split dest: arg_cong [of _ _ length] sym)
qed

lemma demo_log_snapshot: "snapshot demo_log 1 = listed_map [demo_source]"
proof -
  have "demo_source\<lparr>gs_meta := (gs_meta demo_source)\<lparr>om_ResourceVersion := []\<rparr>\<rparr> = demo_source"
    by (simp add: demo_source_def demo_meta_def empty_meta_def)
  then show ?thesis by (simp add: demo_log_def listed_map_def)
qed


end
