(* ===== verification/Injection.thy ===== *)
theory Injection
  imports Informers ControllerLoop
begin

text \<open>
  How the controller process is put together: the injectors that fill the context with the
  client, the informer factory and the informer (\<open>pkg/client/injection\<close>), the registry that
  runs them (\<open>knative.dev/pkg/injection\<close>), and the main function (\<open>cmd/controller/main.go\<close>,
  \<open>knative.dev/pkg/injection/sharedmain\<close>).  The state of the process is its rate limiters,
  the fake clientsets its tests make and its informer factories.  \<open>log.Fatal\<close>, which ends the process, is a \<open>Panic\<close>.
\<close>

section \<open>Context and process\<close>

text \<open>A factory is its place in the list of those made, an informer is that of its factory and its own.\<close>

type_synonym informer_ref = "nat \<times> nat"

record proc_state =
  pr_limiters :: limiters
  pr_fakes :: "fakeClientset list"
  pr_factories :: "sharedInformerFactory list"

record appContext =
  cx_client :: "versioned_Interface option"
  cx_factory :: "nat option"
  cx_informer :: "(nat \<times> gitLabSourceInformer) option"
  cx_resyncPeriod :: "int option"

definition DefaultResyncPeriod :: int where "DefaultResyncPeriod = 10 * 3600 * 1000000000"

definition GetResyncPeriod :: "appContext \<Rightarrow> int" where
  "GetResyncPeriod ctx = (case cx_resyncPeriod ctx of None \<Rightarrow> DefaultResyncPeriod | Some rp \<Rightarrow> rp)"

definition onLimiters :: "(limiters, 'a) go \<Rightarrow> (proc_state, 'a) go" where
  "onLimiters m = (\<lambda>s. let (r, ls) = m (pr_limiters s) in (r, s\<lparr>pr_limiters := ls\<rparr>))"

definition onFactory :: "nat \<Rightarrow> (sharedInformerFactory, 'a) go \<Rightarrow> (proc_state, 'a) go" where
  "onFactory p m = (\<lambda>s. let (r, f) = m (pr_factories s ! p) in (r, s\<lparr>pr_factories := (pr_factories s)[p := f]\<rparr>))"

definition addFactory :: "sharedInformerFactory \<Rightarrow> (proc_state, nat) go" where
  "addFactory f = (\<lambda>s. (Ok (length (pr_factories s)), s\<lparr>pr_factories := pr_factories s @ [f]\<rparr>))"

section \<open>Injectors\<close>

definition injected_client :: "appContext \<Rightarrow> (proc_state, versioned_Interface) go" where
  "injected_client ctx = (case cx_client ctx of None \<Rightarrow> panicG | Some c \<Rightarrow> retG c)"

definition withClient :: "(string \<Rightarrow> go_error + string) \<Rightarrow> string \<Rightarrow> appContext \<Rightarrow> client_config \<Rightarrow> (proc_state, appContext) go" where
  "withClient connect userAgent ctx cfg =
     thenG (onLimiters (clientset_NewForConfigOrDie connect userAgent cfg)) (\<lambda>c. retG (ctx\<lparr>cx_client := Some (RealClientset c)\<rparr>))"

definition factory_Get :: "appContext \<Rightarrow> (proc_state, nat) go" where
  "factory_Get ctx = (case cx_factory ctx of None \<Rightarrow> panicG | Some f \<Rightarrow> retG f)"

definition withInformerFactory :: "appContext \<Rightarrow> (proc_state, appContext) go" where
  "withInformerFactory ctx =
     thenG (injected_client ctx) (\<lambda>c.
     thenG (addFactory (NewSharedInformerFactory c (GetResyncPeriod ctx))) (\<lambda>f.
     retG (ctx\<lparr>cx_factory := Some f\<rparr>)))"

definition informer_Get :: "appContext \<Rightarrow> (proc_state, nat \<times> gitLabSourceInformer) go" where
  "informer_Get ctx = (case cx_informer ctx of None \<Rightarrow> panicG | Some i \<Rightarrow> retG i)"

definition withInformer :: "appContext \<Rightarrow> (proc_state, appContext \<times> informer_ref) go" where
  "withInformer ctx =
     thenG (factory_Get ctx) (\<lambda>f.
     thenG (getG (\<lambda>s. scope_GitLabSources (V1alpha1 (factory_Sources (pr_factories s ! f))))) (\<lambda>inf.
     thenG (onFactory f (Informer inf)) (\<lambda>i.
     retG (ctx\<lparr>cx_informer := Some (f, inf)\<rparr>, (f, i)))))"

section \<open>Registry\<close>

record injection =
  in_clients :: "(appContext \<Rightarrow> client_config \<Rightarrow> (proc_state, appContext) go) list"
  in_factories :: "(appContext \<Rightarrow> (proc_state, appContext) go) list"
  in_informers :: "(appContext \<Rightarrow> (proc_state, appContext \<times> informer_ref) go) list"

definition RegisterClient :: "(appContext \<Rightarrow> client_config \<Rightarrow> (proc_state, appContext) go) \<Rightarrow> injection \<Rightarrow> injection" where
  "RegisterClient ci i = i\<lparr>in_clients := in_clients i @ [ci]\<rparr>"

definition RegisterInformerFactory :: "(appContext \<Rightarrow> (proc_state, appContext) go) \<Rightarrow> injection \<Rightarrow> injection" where
  "RegisterInformerFactory ifi i = i\<lparr>in_factories := in_factories i @ [ifi]\<rparr>"

definition RegisterInformer :: "(appContext \<Rightarrow> (proc_state, appContext \<times> informer_ref) go) \<Rightarrow> injection \<Rightarrow> injection" where
  "RegisterInformer ii i = i\<lparr>in_informers := in_informers i @ [ii]\<rparr>"

text \<open>What the \<open>init\<close> functions of the generated packages leave in \<open>injection.Default\<close>.\<close>

definition Default :: "(string \<Rightarrow> go_error + string) \<Rightarrow> string \<Rightarrow> injection" where
  "Default connect userAgent =
     RegisterInformer withInformer (RegisterInformerFactory withInformerFactory
       (RegisterClient (withClient connect userAgent) \<lparr>in_clients = [], in_factories = [], in_informers = []\<rparr>))"

fun run_clients :: "(appContext \<Rightarrow> client_config \<Rightarrow> (proc_state, appContext) go) list \<Rightarrow> client_config \<Rightarrow> appContext \<Rightarrow> (proc_state, appContext) go" where
  "run_clients [] cfg ctx = retG ctx"
| "run_clients (ci # rest) cfg ctx = thenG (ci ctx cfg) (\<lambda>ctx. run_clients rest cfg ctx)"

fun run_factories :: "(appContext \<Rightarrow> (proc_state, appContext) go) list \<Rightarrow> appContext \<Rightarrow> (proc_state, appContext) go" where
  "run_factories [] ctx = retG ctx"
| "run_factories (ifi # ifis) ctx = thenG (ifi ctx) (\<lambda>ctx. run_factories ifis ctx)"

fun run_informers :: "(appContext \<Rightarrow> (proc_state, appContext \<times> informer_ref) go) list \<Rightarrow> appContext \<Rightarrow> informer_ref list \<Rightarrow> (proc_state, appContext \<times> informer_ref list) go" where
  "run_informers [] ctx informers = retG (ctx, informers)"
| "run_informers (ii # iis) ctx informers = thenG (ii ctx) (\<lambda>(ctx, inf). run_informers iis ctx (informers @ [inf]))"

definition SetupInformers :: "injection \<Rightarrow> appContext \<Rightarrow> client_config \<Rightarrow> (proc_state, appContext \<times> informer_ref list) go" where
  "SetupInformers i ctx cfg =
     thenG (run_clients (in_clients i) cfg ctx) (\<lambda>ctx.
     thenG (run_factories (in_factories i) ctx) (\<lambda>ctx.
     run_informers (in_informers i) ctx []))"

section \<open>Starting\<close>

definition run_informer :: "nat \<Rightarrow> (sharedInformerFactory, unit) go" where
  "run_informer p = modG (\<lambda>f. f\<lparr>f_runs := (f_runs f)(p := Suc (f_runs f p))\<rparr>)"

fun run_all :: "informer_ref list \<Rightarrow> (proc_state, unit) go" where
  "run_all [] = retG ()"
| "run_all ((f, p) # infs) = seqG (onFactory f (run_informer p)) (run_all infs)"

fun wait_all :: "(informer_ref \<Rightarrow> bool) \<Rightarrow> nat \<Rightarrow> informer_ref list \<Rightarrow> (proc_state, unit) go" where
  "wait_all synced i [] = retG ()"
| "wait_all synced i (informer # infs) =
     (if synced informer then wait_all synced (Suc i) infs
      else failG (PlainError (''Failed to wait for cache at index '' @ Itoa (int i) @ '' to sync'')))"

definition StartInformers :: "(informer_ref \<Rightarrow> bool) \<Rightarrow> informer_ref list \<Rightarrow> (proc_state, unit) go" where
  "StartInformers synced informers = seqG (run_all informers) (wait_all synced 0 informers)"

text \<open>\<open>StartAll\<close> runs each controller; \<open>Run\<close> of a nil controller dereferences it.\<close>

definition StartAll :: "'c option list \<Rightarrow> (proc_state, 'c list) go" where
  "StartAll controllers = (if None \<in> set controllers then panicG else retG (map the controllers))"

fun construct :: "(appContext \<Rightarrow> (proc_state, 'c) go) list \<Rightarrow> appContext \<Rightarrow> 'c list \<Rightarrow> (proc_state, 'c list) go" where
  "construct [] ctx controllers = retG controllers"
| "construct (cf # ctors) ctx controllers = thenG (cf ctx) (\<lambda>c. construct ctors ctx (controllers @ [c]))"

text \<open>
  \<open>MainWithConfig\<close>: \<open>logging\<close> is what loading and parsing the logging configuration gives,
  \<open>cmw\<close> what starting the watch of the configuration maps gives, and \<open>synced\<close> what
  waiting for an informer's cache gives.
\<close>

definition MainWithConfig ::
    "injection \<Rightarrow> go_error + unit \<Rightarrow> go_error + unit \<Rightarrow> (informer_ref \<Rightarrow> bool) \<Rightarrow> appContext \<Rightarrow> client_config
      \<Rightarrow> (appContext \<Rightarrow> (proc_state, 'c option) go) list \<Rightarrow> (proc_state, 'c list) go" where
  "MainWithConfig registry logging cmw synced ctx cfg ctors =
     seqG (OrDie (liftG logging))
     (thenG (SetupInformers registry ctx (cfg\<lparr>cc_QPS := of_nat (length ctors) * DefaultQPS, cc_Burst := int (length ctors) * DefaultBurst\<rparr>)) (\<lambda>(ctx, informers).
     thenG (construct ctors ctx []) (\<lambda>controllers.
     seqG (OrDie (liftG cmw))
     (seqG (OrDie (StartInformers synced informers))
     (StartAll controllers)))))"

section \<open>The controller of GitLabSources\<close>

text \<open>The reconciler with the lister it reads and the informer its event handlers are installed on.\<close>

record wired =
  w_reconciler :: Reconciler
  w_lister :: "nat \<times> gitLabSourceLister"
  w_handled :: informer_ref

definition NewController_ctor :: "(string \<rightharpoonup> string) \<Rightarrow> Scheme \<Rightarrow> env \<Rightarrow> appContext \<Rightarrow> (proc_state, wired option) go" where
  "NewController_ctor LookupEnv scheme env ctx =
     thenG (injected_client ctx) (\<lambda>_.
     thenG (informer_Get ctx) (\<lambda>(f, sourceInformer).
     case NewController LookupEnv scheme env of
       None \<Rightarrow> retG None
     | Some r \<Rightarrow>
         thenG (onFactory f (Lister sourceInformer)) (\<lambda>lister.
         thenG (onFactory f (Informer sourceInformer)) (\<lambda>i.
         retG (Some \<lparr>w_reconciler = r, w_lister = (f, lister), w_handled = (f, i)\<rparr>)))))"

definition controller_main ::
    "(string \<Rightarrow> go_error + string) \<Rightarrow> string \<Rightarrow> go_error + unit \<Rightarrow> go_error + unit \<Rightarrow> (informer_ref \<Rightarrow> bool) \<Rightarrow> client_config
      \<Rightarrow> (string \<rightharpoonup> string) \<Rightarrow> Scheme \<Rightarrow> env \<Rightarrow> (proc_state, wired list) go" where
  "controller_main connect userAgent logging cmw synced cfg LookupEnv scheme env =
     MainWithConfig (Default connect userAgent) logging cmw synced
       \<lparr>cx_client = None, cx_factory = None, cx_informer = None, cx_resyncPeriod = None\<rparr> cfg
       [NewController_ctor LookupEnv scheme env]"

end
