(* ===== verification/StartupProperties.thy ===== *)
theory StartupProperties
  imports Injection
begin

text \<open>
  The properties of the informer factory and of the start of the controller process.
\<close>

section \<open>Informer factory\<close>

text \<open>In every state of a factory, whatever is requested and started in whatever order, there
  is one informer for each requested type, and it was run once if its type was started and
  never if not; starting the factory again runs none of the started ones a second time.\<close>

theorem informers_run_once:
  assumes "factory_reach (NewSharedInformerFactory client resync) f"
  shows "distinct (map fst (f_informers f)) \<and> map snd (f_informers f) = [0..<length (f_made f)]
    \<and> ((typ, p) \<in> set (f_informers f) \<longrightarrow>
         f_runs f p = (if f_startedInformers f typ then 1 else 0) \<and> f_runs (Start f) p = 1 \<and> f_runs (Start (Start f)) p = 1)"
proof -
  have inv: "factory_inv f" using factory_inv_reach [OF assms] new_informers by simp
  then show ?thesis using made_bound [OF inv] Start_runs [OF inv] Start_runs [OF factory_inv_Start [OF inv]]
    by (simp add: factory_inv_def)
qed

definition demo_client :: versioned_Interface where
  "demo_client = RealClientset (clientset_New \<lparr>rest_conn = NewForConfig ''ua'' \<lparr>cfg_basePath = [], cfg_GroupVersion = None, cfg_APIPath = [], cfg_UserAgent = []\<rparr>,
     rest_Throttle = None\<rparr>)"

definition demo_informer :: gitLabSourceInformer where
  "demo_informer = \<lparr>gi_tweakListOptions = None, gi_namespace = []\<rparr>"

definition demo_factory :: sharedInformerFactory where
  "demo_factory = snd (Informer demo_informer (NewSharedInformerFactory demo_client 0))"

lemma demo_factory_eq: "Informer demo_informer (NewSharedInformerFactory demo_client 0) = (Ok 0, demo_factory)"
  by (simp add: demo_factory_def Informer_def InformerFor_eq new_informers) (simp add: NewSharedInformerFactory_def NewSharedInformerFactoryWithOptions_def)

theorem informers_run_once_witness: "f_runs (Start (Start demo_factory)) 0 = 1"
proof -
  have "factory_reach (NewSharedInformerFactory demo_client 0) demo_factory"
    using demo_factory_eq unfolding Informer_def by (rule factory_reach.request [OF factory_reach.new])
  moreover have "(sourceType, 0) \<in> set (f_informers demo_factory)"
    by (simp add: demo_factory_def Informer_def InformerFor_eq new_informers) (simp add: NewSharedInformerFactory_def NewSharedInformerFactoryWithOptions_def)
  ultimately show ?thesis using informers_run_once by blast
qed

text \<open>The informer of a type is shared: whoever asks for it at any later time, with whatever
  function to make one, gets the one made at the first request, and nothing changes.\<close>

theorem informer_shared:
  assumes "InformerFor typ newFunc f = (Ok p, f1)" and "factory_reach f1 f2"
  shows "InformerFor typ newFunc' f2 = (Ok p, f2)"
proof -
  have "map_of (f_informers f1) typ = Some p"
    using assms(1) by (auto simp: InformerFor_eq map_add_Some_iff map_of_eq_None_iff split: option.splits)
  from kept_informers [OF assms(2) this] show ?thesis by (simp add: InformerFor_eq)
qed

theorem informer_shared_witness: "fst (Informer demo_informer (Start demo_factory)) = Ok 0"
  using informer_shared [OF demo_factory_eq [unfolded Informer_def] factory_reach.start [OF factory_reach.new]]
  by (simp add: Informer_def)

text \<open>Generic access: \<open>ForResource\<close> knows the resource gitlabsources of the version v1alpha1
  only and gives the very informer the typed way gives, made if it was not there; any other
  resource is an error that names it, and the factory stays as it is.\<close>

theorem for_resource:
  "(if resource = \<lparr>gvr_Group = ''sources.eventing.knative.dev'', gvr_Version = ''v1alpha1'', gvr_Resource = ''gitlabsources''\<rparr>
    then \<exists>g f'. ForResource resource f = (Ok g, f')
        \<and> Informer (scope_GitLabSources (V1alpha1 (factory_Sources f))) f = (Ok (generic_Informer g), f')
    else ForResource resource f
        = (Err (PlainError (''no informer found for '' @ gvr_Group resource @ ''/'' @ gvr_Version resource @ '', Resource='' @ gvr_Resource resource)), f))"
  by (simp add: ForResource_def SchemeGroupVersion_def GroupVersionResource_String_def failG_def thenG_def onErr_def getG_def retG_def
      generic_Informer_def Informer_def InformerFor_eq split: option.split)

section \<open>Start of the process\<close>

lemma OrDie_liftG: "OrDie (liftG (Inr v)) = retG v" "OrDie (liftG (Inl e)) = panicG"
  by (simp_all add: fun_eq_iff OrDie_def onErr_def liftG_def retG_def failG_def panicG_def)

text \<open>The process before \<open>main\<close>, its context, and what the injectors make of them.\<close>

definition fresh_process :: proc_state where
  "fresh_process = \<lparr>pr_limiters = [], pr_fakes = [], pr_factories = []\<rparr>"

definition conn_for :: "string \<Rightarrow> rest_client" where
  "conn_for base = NewForConfig [] \<lparr>cfg_basePath = base, cfg_GroupVersion = None, cfg_APIPath = [], cfg_UserAgent = []\<rparr>"

lemma OrDie_clientset:
  "clientset_NewForConfigOrDie connect ua c ls =
    (case connect (cfg_basePath c) of
       Inl e \<Rightarrow> (Panic, ls)
     | Inr base \<Rightarrow> (let ls' = buckets_for (eff_QPS c) (eff_Burst c) (cc_RateLimiter c) ls
         in (Ok \<lparr>cs_DiscoveryClient = \<lparr>rest_conn = \<lparr>rc_basePath = base, rc_versionedAPIPath = versioned_path (setDiscoveryDefaults ua c)\<rparr>,
                                 rest_Throttle = limiter_for (cc_QPS c) (cc_RateLimiter c) ls'\<rparr>,
                 cs_sourcesV1alpha1 = \<lparr>rest_conn = conn_for base, rest_Throttle = limiter_for (eff_QPS c) (cc_RateLimiter c) ls\<rparr>\<rparr>,
             buckets_for (cc_QPS c) (cc_Burst c) (cc_RateLimiter c) ls')))"
proof -
  have "\<lparr>rc_basePath = base, rc_versionedAPIPath = versioned_path (setConfigDefaults ua c)\<rparr> = conn_for base" for base
    by (simp add: conn_for_def NewForConfig_def versioned_path_def setConfigDefaults_def Let_def)
  then show ?thesis
    by (simp add: clientset_NewForConfigOrDie_def sources_NewForConfigOrDie_def NewDiscoveryClientForConfigOrDie_def go_seq_defs OrDie_eq
        sources_NewForConfig_eq NewDiscoveryClientForConfig_eq NewRESTClient_eq Let_def panicG_def split: sum.split)
qed

lemma setup_fails:
  assumes "connect (cfg_basePath cfg) = Inl e"
  shows "SetupInformers (Default connect ua) ctx cfg s = (Panic, s)"
  using assms by (simp add: SetupInformers_def Default_def RegisterClient_def RegisterInformerFactory_def RegisterInformer_def withClient_def
      onLimiters_def OrDie_clientset go_seq_defs)

definition setup_client :: "string \<Rightarrow> string \<Rightarrow> client_config \<Rightarrow> versioned_Interface" where
  "setup_client base ua cfg = RealClientset
     \<lparr>cs_DiscoveryClient = \<lparr>rest_conn = \<lparr>rc_basePath = base, rc_versionedAPIPath = versioned_path (setDiscoveryDefaults ua cfg)\<rparr>,
        rest_Throttle = limiter_for (cc_QPS cfg) (cc_RateLimiter cfg) (buckets_for (eff_QPS cfg) (eff_Burst cfg) (cc_RateLimiter cfg) [])\<rparr>,
      cs_sourcesV1alpha1 = \<lparr>rest_conn = conn_for base, rest_Throttle = limiter_for (eff_QPS cfg) (cc_RateLimiter cfg) []\<rparr>\<rparr>"

definition all_sources :: gitLabSourceInformer where
  "all_sources = \<lparr>gi_tweakListOptions = None, gi_namespace = []\<rparr>"

definition setup_factory :: "versioned_Interface \<Rightarrow> sharedInformerFactory" where
  "setup_factory c = (NewSharedInformerFactory c DefaultResyncPeriod)\<lparr>f_made := [defaultInformer all_sources c DefaultResyncPeriod],
     f_informers := [(sourceType, 0)]\<rparr>"

lemma setup_succeeds:
  assumes "connect (cfg_basePath cfg) = Inr base"
  shows "\<exists>ls. SetupInformers (Default connect ua) \<lparr>cx_client = None, cx_factory = None, cx_informer = None, cx_resyncPeriod = None\<rparr> cfg fresh_process
     = (Ok (\<lparr>cx_client = Some (setup_client base ua cfg), cx_factory = Some 0, cx_informer = Some (0, all_sources), cx_resyncPeriod = None\<rparr>, [(0, 0)]),
        \<lparr>pr_limiters = ls, pr_fakes = [], pr_factories = [setup_factory (setup_client base ua cfg)]\<rparr>)"
proof -
  have i: "Informer all_sources (NewSharedInformerFactory c DefaultResyncPeriod) = (Ok 0, setup_factory c)"
    "scope_GitLabSources (V1alpha1 (factory_Sources (NewSharedInformerFactory c DefaultResyncPeriod))) = all_sources" for c
    by (simp_all add: Informer_def InformerFor_eq new_informers setup_factory_def)
      (simp_all add: NewSharedInformerFactory_def NewSharedInformerFactoryWithOptions_def scope_GitLabSources_def V1alpha1_def
        v1alpha1_New_def factory_Sources_def sources_New_def all_sources_def)
  show ?thesis
    by (simp add: SetupInformers_def Default_def RegisterClient_def RegisterInformerFactory_def RegisterInformer_def withClient_def
        withInformerFactory_def withInformer_def injected_client_def factory_Get_def addFactory_def GetResyncPeriod_def
        onLimiters_def onFactory_def OrDie_clientset assms go_seq_defs getG_def fresh_process_def Let_def i setup_client_def [symmetric])
qed

lemma list_all_path:
  assumes "list_all plain_segment base"
  shows "rest_send (client_List (newGitLabSources (conn_for (path_of base)) []) opts)
    = Inr (''GET'', path_of (api_segments base @ [''gitlabsources'']), [OptList opts], None)"
proof -
  let ?v = "Verb (conn_for (path_of base)) ''GET''"
  have q: "client_List (newGitLabSources (conn_for (path_of base)) []) opts
      = ?v\<lparr>rr_namespaceSet := True, rr_namespace := [], rr_resource := ''gitlabsources'', rr_params := [OptList opts]\<rparr>"
    using segments(5) by (simp add: client_List_def newGitLabSources_def Namespace_def Resource_def VersionedParams_def IsValidPathSegmentName_def)
  have pre: "rr_pathPrefix ?v = path_of (api_segments base)"
    unfolding conn_for_def by (rule Verb_prefix [OF assms]) simp
  have "path_Join (path_of (api_segments base) # [''gitlabsources'']) = path_of (api_segments base @ filter (\<lambda>e. e \<noteq> []) [''gitlabsources''])"
    using segments(2) api_segments_plain [OF assms] by (intro path_Join_plain) (simp_all add: api_segments_def)
  then show ?thesis
    unfolding q rest_send_def rest_path_def Let_def using segments(4) by (simp add: pre del: path_Join.simps)
qed

text \<open>
  C25: the start of the controller process.  With its image in the environment and a server it
  can connect to, \<open>main\<close> ends with the one controller running, whose reconciler has the
  image and the scheme of the sources; the event handlers are installed on the informer its
  lister reads, that informer is the only one, it has been run exactly once, indexes by
  namespace and lists the sources of all namespaces from the group's API path.
\<close>

theorem main_wires_controller:
  assumes "connect (cfg_basePath cfg) = Inr (path_of base)" and "list_all plain_segment base" and "LookupEnv ''GL_RA_IMAGE'' = Some img"
  shows "\<exists>w ls f. controller_main connect ua (Inr ()) (Inr ()) (\<lambda>_. True) cfg LookupEnv scheme env fresh_process
      = (Ok [w], \<lparr>pr_limiters = ls, pr_fakes = [], pr_factories = [f]\<rparr>)
    \<and> w_reconciler w = newReconciler env (AddToScheme scheme) img
    \<and> w_handled w = (0, gl_indexer (snd (w_lister w))) \<and> fst (w_lister w) = 0
    \<and> length (f_made f) = 1 \<and> gl_indexer (snd (w_lister w)) = 0 \<and> f_runs f 0 = 1
    \<and> si_indexers (f_made f ! 0) = source_indexers
    \<and> (\<exists>req. si_ListFunc (f_made f ! 0) opts = Request req
         \<and> rest_send req = Inr (''GET'', path_of (api_segments base @ [''gitlabsources'']), [OptList opts], None))"
proof -
  let ?cfg = "cfg\<lparr>cc_QPS := 1 * DefaultQPS, cc_Burst := 1 * DefaultBurst\<rparr>"
  have c: "connect (cfg_basePath ?cfg) = Inr (path_of base)" using assms(1) by simp
  let ?f = "setup_factory (setup_client (path_of base) ua ?cfg)"
  from setup_succeeds [of connect ?cfg "path_of base" ua, OF c] obtain ls where
    s: "SetupInformers (Default connect ua) \<lparr>cx_client = None, cx_factory = None, cx_informer = None, cx_resyncPeriod = None\<rparr> ?cfg fresh_process
     = (Ok (\<lparr>cx_client = Some (setup_client (path_of base) ua ?cfg), cx_factory = Some 0, cx_informer = Some (0, all_sources), cx_resyncPeriod = None\<rparr>, [(0, 0)]),
        \<lparr>pr_limiters = ls, pr_fakes = [], pr_factories = [?f]\<rparr>)" by blast
  have i: "Informer all_sources ?f = (Ok 0, ?f)" by (simp add: Informer_def InformerFor_eq setup_factory_def)
  define w where "w = \<lparr>w_reconciler = newReconciler env (AddToScheme scheme) img, w_lister = (0 :: nat, NewGitLabSourceLister 0), w_handled = (0 :: nat, 0 :: nat)\<rparr>"
  define f where "f = ?f\<lparr>f_runs := (f_runs ?f)(0 := Suc (f_runs ?f 0))\<rparr>"
  have "controller_main connect ua (Inr ()) (Inr ()) (\<lambda>_. True) cfg LookupEnv scheme env fresh_process
      = (Ok [w], \<lparr>pr_limiters = ls, pr_fakes = [], pr_factories = [f]\<rparr>)"
    using assms(3) s i
    by (simp add: controller_main_def MainWithConfig_def OrDie_liftG seqG_def go_seq_defs NewController_ctor_def injected_client_def informer_Get_def
        NewController_def raImageEnvVar_def Let_def onFactory_def Lister_def StartInformers_def run_informer_def modG_def OrDie_eq StartAll_def
        w_def f_def)
  moreover have "f_runs ?f 0 = 0" by (simp add: setup_factory_def NewSharedInformerFactory_def NewSharedInformerFactoryWithOptions_def)
  moreover have "si_ListFunc (f_made f ! 0) opts = Request (client_List (newGitLabSources (conn_for (path_of base)) []) opts)"
    by (simp add: f_def setup_factory_def defaultInformer_def sources_GitLabSources_def NewFilteredGitLabSourceInformer_def setup_client_def SourcesV1alpha1_def
        all_sources_def tweaked_def)
  moreover have "si_indexers (f_made f ! 0) = source_indexers" "length (f_made f) = 1"
    by (simp_all add: f_def setup_factory_def defaultInformer_def sources_GitLabSources_def NewFilteredGitLabSourceInformer_def source_indexers_def)
  ultimately show ?thesis using list_all_path [OF assms(2)]
    by (intro exI [of _ w] exI [of _ ls] exI [of _ f]) (simp add: w_def f_def NewGitLabSourceLister_def)
qed

text \<open>
  C26: the start fails as a whole: a configuration that cannot be connected ends the process
  before a factory is made, and so does an informer whose cache does not sync; and without the image in
  the environment \<open>NewController\<close> logs the variable and returns nil, but \<open>main\<close> goes on,
  starts the informers and then dereferences the nil controller.
\<close>

theorem main_fails:
  shows "(connect (cfg_basePath cfg) = Inl e \<longrightarrow>
       controller_main connect ua (Inr ()) cmw synced cfg LookupEnv scheme env fresh_process = (Panic, fresh_process))
    \<and> (connect (cfg_basePath cfg) = Inr base \<and> LookupEnv ''GL_RA_IMAGE'' = None \<longrightarrow>
       (\<exists>s f. controller_main connect ua (Inr ()) (Inr ()) (\<lambda>_. True) cfg LookupEnv scheme env fresh_process = (Panic, s)
          \<and> pr_factories s = [f] \<and> f_runs f 0 = 1))
    \<and> (\<not> synced (0, 0) \<longrightarrow> fst (controller_main connect ua (Inr ()) (Inr ()) synced cfg LookupEnv scheme env fresh_process) = Panic)"
proof -
  let ?cfg = "cfg\<lparr>cc_QPS := 1 * DefaultQPS, cc_Burst := 1 * DefaultBurst\<rparr>"
  let ?ctx = "\<lparr>cx_client = None, cx_factory = None, cx_informer = None, cx_resyncPeriod = None\<rparr>"
  have bad: "SetupInformers (Default connect ua) ?ctx ?cfg fresh_process = (Panic, fresh_process)" if "connect (cfg_basePath cfg) = Inl e" for e
    by (rule setup_fails) (use that in simp)
  have good: "\<exists>ls. SetupInformers (Default connect ua) ?ctx ?cfg fresh_process
      = (Ok (\<lparr>cx_client = Some (setup_client b ua ?cfg), cx_factory = Some 0, cx_informer = Some (0, all_sources), cx_resyncPeriod = None\<rparr>, [(0, 0)]),
         \<lparr>pr_limiters = ls, pr_fakes = [], pr_factories = [setup_factory (setup_client b ua ?cfg)]\<rparr>)" if "connect (cfg_basePath cfg) = Inr b" for b
    by (rule setup_succeeds) (use that in simp)
  have i: "Informer all_sources (setup_factory c) = (Ok 0, setup_factory c)" for c by (simp add: Informer_def InformerFor_eq setup_factory_def)
  have z: "f_runs (setup_factory c) 0 = 0" for c by (simp add: setup_factory_def NewSharedInformerFactory_def NewSharedInformerFactoryWithOptions_def)
  note defs = controller_main_def MainWithConfig_def OrDie_liftG seqG_def go_seq_defs NewController_ctor_def injected_client_def informer_Get_def
    NewController_def raImageEnvVar_def Let_def onFactory_def Lister_def StartInformers_def run_informer_def modG_def OrDie_eq StartAll_def panicG_def
  have "controller_main connect ua (Inr ()) cmw synced cfg LookupEnv scheme env fresh_process = (Panic, fresh_process)"
    if "connect (cfg_basePath cfg) = Inl e"
    using bad [OF that] by (simp add: defs)
  moreover have "\<exists>s f. controller_main connect ua (Inr ()) (Inr ()) (\<lambda>_. True) cfg LookupEnv scheme env fresh_process = (Panic, s)
      \<and> pr_factories s = [f] \<and> f_runs f 0 = 1" if "connect (cfg_basePath cfg) = Inr base" "LookupEnv ''GL_RA_IMAGE'' = None"
    using good [OF that(1)] that(2) by (auto simp add: defs z)
  moreover have "fst (controller_main connect ua (Inr ()) (Inr ()) synced cfg LookupEnv scheme env fresh_process) = Panic"
    if "\<not> synced (0, 0)"
  proof (cases "connect (cfg_basePath cfg)")
    case (Inl e)
    from bad [OF this] show ?thesis by (simp add: defs)
  next
    case (Inr b)
    from good [OF this] that i show ?thesis by (cases "LookupEnv ''GL_RA_IMAGE''") (auto simp: defs)
  qed
  ultimately show ?thesis by blast
qed

definition demo_cfg :: client_config where
  "demo_cfg = \<lparr>cfg_basePath = [], cfg_GroupVersion = None, cfg_APIPath = [], cfg_UserAgent = [], cc_QPS = 0, cc_Burst = 0, cc_RateLimiter = None\<rparr>"

theorem main_wires_controller_witness:
  "\<exists>w s. controller_main Inr [] (Inr ()) (Inr ()) (\<lambda>_. True) demo_cfg [''GL_RA_IMAGE'' \<mapsto> ''image''] Map.empty demo_env fresh_process = (Ok [w], s)
     \<and> w_handled w = (0, 0)"
proof -
  let ?opts = "\<lparr>lo_LabelSelector = [], lo_FieldSelector = [], lo_IncludeUninitialized = False, lo_Watch = False,
      lo_ResourceVersion = [], lo_TimeoutSeconds = None, lo_Limit = 0, lo_Continue = []\<rparr>"
  have "(Inr :: string \<Rightarrow> go_error + string) (cfg_basePath demo_cfg) = Inr (path_of [])" "list_all plain_segment []"
    "[''GL_RA_IMAGE'' \<mapsto> ''image''] ''GL_RA_IMAGE'' = Some ''image''"
    by (simp_all add: demo_cfg_def path_of_def)
  from main_wires_controller [of Inr demo_cfg "[]" "[''GL_RA_IMAGE'' \<mapsto> ''image'']" "''image''" "[]" Map.empty demo_env ?opts, OF this] show ?thesis by (elim exE conjE) (intro exI conjI, assumption, simp)
qed

theorem main_fails_witness:
  "fst (controller_main (\<lambda>_. Inl (PlainError ''no server'')) [] (Inr ()) (Inr ()) (\<lambda>_. True) demo_cfg Map.empty Map.empty demo_env fresh_process) = Panic"
  using main_fails [of "\<lambda>_. Inl (PlainError ''no server'')" demo_cfg "PlainError ''no server''" "[]" "Inr ()" "\<lambda>_. True" Map.empty Map.empty demo_env "[]"]
  by simp

end
