(* ===== verification/FakeProperties.thy ===== *)
theory FakeProperties
  imports FakeClient
begin

text \<open>
  The properties of the fake client: it is a map from namespaces and names to sources, with
  the errors of a real server; and where it is not like a real server.
\<close>

section \<open>The objects as a map\<close>

definition okey :: "GitLabSource \<Rightarrow> string \<times> string" where
  "okey obj = (om_Namespace (gs_meta obj), om_Name (gs_meta obj))"

definition kv :: "GitLabSource list \<Rightarrow> ((string \<times> string) \<times> GitLabSource) list" where
  "kv objs = map (\<lambda>obj. (okey obj, obj)) objs"

definition fake_map :: "fakeClientset \<Rightarrow> (string \<times> string \<rightharpoonup> GitLabSource)" where
  "fake_map s = map_of (kv (objects_of gitlabsourcesResource s))"

definition fake_inv :: "fakeClientset \<Rightarrow> bool" where
  "fake_inv s \<longleftrightarrow> distinct (map okey (objects_of gitlabsourcesResource s))"

definition roomy :: "fakeClientset \<Rightarrow> bool" where
  "roomy s \<longleftrightarrow> (\<forall>w\<in>set (fk_watchers s). fw_Stopped w \<or> length (fw_result w) < DefaultChanSize)"

lemma same_okey: "same_name ns name obj \<longleftrightarrow> okey obj = (ns, name)"
  by (simp add: same_name_def okey_def)

lemma index_of_None: "index_of P xs = None \<longleftrightarrow> (\<forall>x\<in>set xs. \<not> P x)"
  by (induction xs) auto

lemma index_of_Some: "index_of P xs = Some i \<Longrightarrow> i < length xs \<and> P (xs ! i)"
  by (induction xs arbitrary: i) (auto split: if_splits)

lemma kv_None: "map_of (kv objs) k = None \<longleftrightarrow> k \<notin> okey ` set objs"
  by (simp add: kv_def map_of_eq_None_iff image_image)

lemma kv_nth: "distinct (map okey objs) \<Longrightarrow> i < length objs \<Longrightarrow> map_of (kv objs) (okey (objs ! i)) = Some (objs ! i)"
  by (rule map_of_is_SomeI) (auto simp: kv_def comp_def)

lemma kv_update:
  "distinct (map okey objs) \<Longrightarrow> i < length objs \<Longrightarrow> okey (objs ! i) = okey obj \<Longrightarrow> map_of (kv (objs[i := obj])) = (map_of (kv objs))(okey obj \<mapsto> obj)"
proof (induction objs arbitrary: i)
  case (Cons x xs)
  show ?case
  proof (cases i)
    case 0
    then show ?thesis using Cons.prems by (intro ext) (simp add: kv_def)
  next
    case (Suc j)
    have "distinct (map okey xs)" "j < length xs" "okey (xs ! j) = okey obj" using Cons.prems Suc by simp_all
    note Cons.IH [OF this]
    moreover have "okey obj \<noteq> okey x"
    proof
      assume "okey obj = okey x"
      then have "okey x = okey (xs ! j)" and "j < length xs" using Cons.prems Suc by auto
      then have "okey x \<in> okey ` set xs" by simp
      then show False using Cons.prems(1) by simp
    qed
    ultimately show ?thesis using Suc by (intro ext) (simp add: kv_def)
  qed
qed simp

lemma kv_append: "map_of (kv objs) (okey obj) = None \<Longrightarrow> map_of (kv (objs @ [obj])) = (map_of (kv objs))(okey obj \<mapsto> obj)"
  by (induction objs) (auto simp: kv_def fun_eq_iff split: if_splits)

lemma kv_delete:
  "distinct (map okey objs) \<Longrightarrow> i < length objs \<Longrightarrow> map_of (kv (take i objs @ drop (Suc i) objs)) = (map_of (kv objs))(okey (objs ! i) := None)"
proof (induction objs arbitrary: i)
  case (Cons x xs)
  show ?case
  proof (cases i)
    case 0
    have "map_of (kv xs) (okey x) = None" using Cons.prems(1) by (simp add: kv_None)
    then show ?thesis using 0 by (auto simp: kv_def)
  next
    case (Suc j)
    have "distinct (map okey xs)" "j < length xs" using Cons.prems Suc by simp_all
    note Cons.IH [OF this]
    moreover have "okey (xs ! j) \<noteq> okey x"
    proof
      assume "okey (xs ! j) = okey x"
      then have "okey x \<in> okey ` set xs" using Cons.prems(2) Suc by (metis Suc_less_SucD image_eqI length_Cons nth_mem)
      then show False using Cons.prems(1) by simp
    qed
    ultimately show ?thesis using Suc by (intro ext) (simp add: kv_def)
  qed
qed simp

lemma kv_filter:
  assumes "distinct (map okey objs)" and "ns \<noteq> []" and "name \<noteq> []"
  shows "filterByNamespaceAndName objs ns name = (case map_of (kv objs) (ns, name) of None \<Rightarrow> [] | Some obj \<Rightarrow> [obj])"
  using assms(1)
proof (induction objs)
  case (Cons x xs)
  show ?case
  proof (cases "okey x = (ns, name)")
    case True
    then have "map_of (kv xs) (ns, name) = None" using Cons.prems by (simp add: kv_None)
    then have "filterByNamespaceAndName xs ns name = []" using Cons by simp
    then show ?thesis using True by (simp add: filterByNamespaceAndName_def kv_def okey_def)
  next
    case False
    then have "filterByNamespaceAndName (x # xs) ns name = filterByNamespaceAndName xs ns name"
      using assms(2,3) by (simp add: filterByNamespaceAndName_def okey_def)
    then show ?thesis using False Cons by (simp add: kv_def)
  qed
qed (simp add: filterByNamespaceAndName_def kv_def)

section \<open>The tracker\<close>

lemmas fake_seq = thenG_def seqG_def onErr_def retG_def failG_def getG_def modG_def panicG_def

lemma send_all_ok:
  "distinct is \<Longrightarrow> \<forall>i\<in>set is. i < length (fk_watchers s) \<and> (fw_Stopped (fk_watchers s ! i) \<or> length (fw_result (fk_watchers s ! i)) < DefaultChanSize)
   \<Longrightarrow> \<exists>ws. send_all ev is s = (Ok (), s\<lparr>fk_watchers := ws\<rparr>) \<and> length ws = length (fk_watchers s)"
proof (induction "is" arbitrary: s)
  case Nil
  then show ?case by (auto simp: fake_seq intro!: exI [of _ "fk_watchers s"])
next
  case (Cons i js)
  let ?w = "fk_watchers s ! i"
  define t where "t = (if fw_Stopped ?w then s else s\<lparr>fk_watchers := (fk_watchers s)[i := ?w\<lparr>fw_result := fw_result ?w @ [ev]\<rparr>]\<rparr>)"
  have "watcher_send ev i s = (Ok (), t)" using Cons.prems(2) by (auto simp: watcher_send_def fake_seq t_def)
  moreover have "fk_watchers t ! j = fk_watchers s ! j" if "j \<in> set js" for j
  proof -
    have "i \<noteq> j" using Cons.prems(1) that by auto
    then show ?thesis by (simp add: t_def)
  qed
  moreover have "length (fk_watchers t) = length (fk_watchers s)" by (simp add: t_def)
  moreover from this calculation(2) Cons obtain ws where "send_all ev js t = (Ok (), t\<lparr>fk_watchers := ws\<rparr>)" "length ws = length (fk_watchers t)"
    by (metis distinct.simps(2) list.set_intros(2))
  moreover have "t\<lparr>fk_watchers := ws\<rparr> = s\<lparr>fk_watchers := ws\<rparr>" for ws by (simp add: t_def)
  ultimately show ?case by (auto simp: fake_seq)
qed

lemma notify_ok:
  assumes "roomy s" and "ns \<noteq> []"
  shows "\<exists>ws. notify gvr ns ev s = (Ok (), s\<lparr>fk_watchers := ws\<rparr>)"
proof -
  have "distinct (getWatches gvr ns s)" using assms(2) by (auto simp: getWatches_def)
  moreover have "\<forall>i\<in>set (getWatches gvr ns s). i < length (fk_watchers s)
      \<and> (fw_Stopped (fk_watchers s ! i) \<or> length (fw_result (fk_watchers s ! i)) < DefaultChanSize)"
    using assms(1) by (auto simp: getWatches_def roomy_def)
  ultimately show ?thesis using send_all_ok [of "getWatches gvr ns s" s ev] by (auto simp: notify_def fake_seq)
qed

lemma put_objects_fields [simp]:
  "objects_of gvr (put_objects gvr objs s) = objs" "fk_watchers (put_objects gvr objs s) = fk_watchers s"
  "objects_of gvr (s\<lparr>fk_watchers := ws\<rparr>) = objects_of gvr s" "objects_of gvr (s\<lparr>fk_actions := acts\<rparr>) = objects_of gvr s"
  "roomy (put_objects gvr objs s) = roomy s"
  by (simp_all add: put_objects_def objects_of_def roomy_def)

definition placed :: "string \<Rightarrow> GitLabSource \<Rightarrow> GitLabSource" where
  "placed ns obj = (if om_Namespace (gs_meta obj) = [] then obj\<lparr>gs_meta := (gs_meta obj)\<lparr>om_Namespace := ns\<rparr>\<rparr> else obj)"

lemma placed_okey: "om_Namespace (gs_meta obj) \<in> {[], ns} \<Longrightarrow> okey (placed ns obj) = (ns, om_Name (gs_meta obj))"
  by (auto simp: placed_def okey_def)

lemma tracker_add_eq:
  assumes "om_Namespace (gs_meta obj) \<in> {[], ns}"
  shows "tracker_add gvr obj ns rep s =
    (case index_of (same_name ns (om_Name (gs_meta obj))) (objects_of gvr s) of
       Some i \<Rightarrow> if rep then seqG (notify gvr ns (WatchModified (placed ns obj))) (modG (put_objects gvr ((objects_of gvr s)[i := placed ns obj]))) s
                 else (Err (NewAlreadyExists gvr (om_Name (gs_meta obj))), s)
     | None \<Rightarrow> if rep then (Err (status_NewNotFound gvr (om_Name (gs_meta obj))), s)
               else seqG (modG (put_objects gvr (objects_of gvr s @ [placed ns obj]))) (notify gvr ns (WatchAdded (placed ns obj))) s)"
  using assms by (auto simp: tracker_add_def Let_def placed_def fake_seq split: option.split)

lemma index_of_map:
  assumes "fake_inv s"
  shows "(case index_of (same_name ns name) (objects_of gitlabsourcesResource s) of
      None \<Rightarrow> fake_map s (ns, name) = None
    | Some i \<Rightarrow> i < length (objects_of gitlabsourcesResource s) \<and> okey (objects_of gitlabsourcesResource s ! i) = (ns, name)
        \<and> fake_map s (ns, name) = Some (objects_of gitlabsourcesResource s ! i))"
proof (cases "index_of (same_name ns name) (objects_of gitlabsourcesResource s)")
  case None
  then show ?thesis by (auto simp: fake_map_def kv_None index_of_None [THEN iffD1] same_okey image_iff dest!: index_of_None [THEN iffD1])
next
  case (Some i)
  from index_of_Some [OF this] have "i < length (objects_of gitlabsourcesResource s)" "okey (objects_of gitlabsourcesResource s ! i) = (ns, name)"
    by (simp_all add: same_okey)
  then show ?thesis using Some assms kv_nth [of "objects_of gitlabsourcesResource s" i] by (simp add: fake_map_def fake_inv_def)
qed

lemma tracker_add_map:
  assumes "fake_inv s" and "roomy s" and "ns \<noteq> []" and "om_Namespace (gs_meta obj) \<in> {[], ns}"
  shows "(if (fake_map s (ns, om_Name (gs_meta obj)) \<noteq> None) = rep
      then \<exists>s'. tracker_add gitlabsourcesResource obj ns rep s = (Ok (), s') \<and> fake_inv s'
        \<and> fake_map s' = (fake_map s)((ns, om_Name (gs_meta obj)) \<mapsto> placed ns obj)
      else tracker_add gitlabsourcesResource obj ns rep s
        = (Err (if rep then status_NewNotFound gitlabsourcesResource (om_Name (gs_meta obj))
                else NewAlreadyExists gitlabsourcesResource (om_Name (gs_meta obj))), s))"
proof (cases "index_of (same_name ns (om_Name (gs_meta obj))) (objects_of gitlabsourcesResource s)")
  case None
  let ?n = "om_Name (gs_meta obj)" and ?objs = "objects_of gitlabsourcesResource s"
  have m: "fake_map s (ns, ?n) = None" using index_of_map [OF assms(1), of ns ?n] None by simp
  let ?t = "put_objects gitlabsourcesResource (?objs @ [placed ns obj]) s"
  obtain ws where ws: "notify gitlabsourcesResource ns (WatchAdded (placed ns obj)) ?t = (Ok (), ?t\<lparr>fk_watchers := ws\<rparr>)"
    using notify_ok [of ?t ns] assms(2,3) by auto
  have "map_of (kv (?objs @ [placed ns obj])) = (map_of (kv ?objs))(okey (placed ns obj) \<mapsto> placed ns obj)"
    by (rule kv_append) (use m in \<open>simp add: placed_okey [OF assms(4)] fake_map_def\<close>)
  moreover have "distinct (map okey (?objs @ [placed ns obj]))"
    using assms(1) m by (auto simp: fake_inv_def fake_map_def kv_None placed_okey [OF assms(4)])
  ultimately show ?thesis using m None ws
    by (simp add: tracker_add_eq [OF assms(4)] fake_seq fake_map_def fake_inv_def placed_okey [OF assms(4)])
next
  case (Some i)
  let ?n = "om_Name (gs_meta obj)" and ?objs = "objects_of gitlabsourcesResource s"
  have m: "i < length ?objs" "okey (?objs ! i) = (ns, ?n)" "fake_map s (ns, ?n) = Some (?objs ! i)"
    using index_of_map [OF assms(1), of ns ?n] Some by simp_all
  obtain ws where ws: "notify gitlabsourcesResource ns (WatchModified (placed ns obj)) s = (Ok (), s\<lparr>fk_watchers := ws\<rparr>)"
    using notify_ok [OF assms(2,3)] by blast
  have "map_of (kv (?objs[i := placed ns obj])) = (map_of (kv ?objs))(okey (placed ns obj) \<mapsto> placed ns obj)"
    using assms(1) m by (intro kv_update) (simp_all add: fake_inv_def placed_okey [OF assms(4)])
  moreover have "map okey (?objs[i := placed ns obj]) = map okey ?objs"
    using m by (simp add: map_update placed_okey [OF assms(4)]) (metis list_update_id length_map nth_map)
  ultimately show ?thesis using assms(1) m Some ws
    by (simp add: tracker_add_eq [OF assms(4)] fake_seq fake_map_def fake_inv_def placed_okey [OF assms(4)])
qed

lemma tracker_Get_map:
  assumes "fake_inv s" and "ns \<noteq> []" and "name \<noteq> []"
  shows "tracker_Get gitlabsourcesResource ns name s
    = (case fake_map s (ns, name) of None \<Rightarrow> Inl (status_NewNotFound gitlabsourcesResource name) | Some obj \<Rightarrow> Inr obj)"
proof (cases "fk_objects s gitlabsourcesResource")
  case None
  then show ?thesis by (simp add: tracker_Get_def fake_map_def objects_of_def kv_def)
next
  case (Some objs)
  then show ?thesis using kv_filter [of objs ns name] assms
    by (simp add: tracker_Get_def fake_map_def objects_of_def fake_inv_def split: option.split)
qed

lemma tracker_Delete_map:
  assumes "fake_inv s" and "roomy s" and "ns \<noteq> []"
  shows "(case fake_map s (ns, name) of
      None \<Rightarrow> tracker_Delete gitlabsourcesResource ns name s = (Err (status_NewNotFound gitlabsourcesResource name), s)
    | Some _ \<Rightarrow> \<exists>s'. tracker_Delete gitlabsourcesResource ns name s = (Ok (), s') \<and> fake_inv s' \<and> fake_map s' = (fake_map s)((ns, name) := None))"
proof (cases "index_of (same_name ns name) (objects_of gitlabsourcesResource s)")
  case None
  then show ?thesis using index_of_map [OF assms(1), of ns name] by (simp add: tracker_Delete_def fake_seq)
next
  case (Some i)
  let ?objs = "objects_of gitlabsourcesResource s"
  have m: "i < length ?objs" "okey (?objs ! i) = (ns, name)" "fake_map s (ns, name) = Some (?objs ! i)"
    using index_of_map [OF assms(1), of ns name] Some by simp_all
  let ?t = "put_objects gitlabsourcesResource (take i ?objs @ drop (Suc i) ?objs) s"
  obtain ws where ws: "notify gitlabsourcesResource ns (WatchDeleted (?objs ! i)) ?t = (Ok (), ?t\<lparr>fk_watchers := ws\<rparr>)"
    using notify_ok [of ?t ns] assms(2,3) by auto
  have d: "distinct (map okey ?objs)" using assms(1) by (simp add: fake_inv_def)
  have "map_of (kv (take i ?objs @ drop (Suc i) ?objs)) = (map_of (kv ?objs))((ns, name) := None)"
    using kv_delete [OF d m(1)] m(2) by simp
  moreover have "distinct (map okey (take i ?objs @ drop (Suc i) ?objs))"
  proof -
    have "map okey ?objs = map okey (take i ?objs) @ okey (?objs ! i) # map okey (drop (Suc i) ?objs)"
      using m(1) by (simp add: id_take_nth_drop [symmetric] flip: map_append list.map(2))
    then have "distinct (map okey (take i ?objs) @ okey (?objs ! i) # map okey (drop (Suc i) ?objs))" using d by simp
    then show ?thesis by simp
  qed
  ultimately show ?thesis using Some m(3) ws by (simp add: tracker_Delete_def fake_seq fake_map_def fake_inv_def)
qed

lemma recorded [simp]:
  "fake_inv (s\<lparr>fk_actions := acts\<rparr>) = fake_inv s" "fake_map (s\<lparr>fk_actions := acts\<rparr>) = fake_map s" "roomy (s\<lparr>fk_actions := acts\<rparr>) = roomy s"
  by (simp_all add: fake_inv_def fake_map_def roomy_def)

section \<open>Properties\<close>

lemma fake_write_map:
  assumes "fake_inv s" and "roomy s" and "ns \<noteq> []" and "om_Name (gs_meta src) \<noteq> []" and "om_Namespace (gs_meta src) \<in> {[], ns}"
    and s1_def: "s1 = s\<lparr>fk_actions := fk_actions s @ [act]\<rparr>"
  shows "(if (fake_map s (ns, om_Name (gs_meta src)) \<noteq> None) = rep
      then \<exists>s'. onErr (tracker_add gitlabsourcesResource src ns rep) (\<lambda>err. retG (True, None, Some err))
              (\<lambda>_. read_object gitlabsourcesResource ns (om_Name (gs_meta src))) s1
            = (Ok (True, Some (ObjectSource (placed ns src)), None), s') \<and> fake_inv s'
          \<and> fake_map s' = (fake_map s)((ns, om_Name (gs_meta src)) \<mapsto> placed ns src)
      else onErr (tracker_add gitlabsourcesResource src ns rep) (\<lambda>err. retG (True, None, Some err))
              (\<lambda>_. read_object gitlabsourcesResource ns (om_Name (gs_meta src))) s1
            = (Ok (True, None, Some (if rep then status_NewNotFound gitlabsourcesResource (om_Name (gs_meta src))
                                     else NewAlreadyExists gitlabsourcesResource (om_Name (gs_meta src)))), s1))"
proof (cases "(fake_map s (ns, om_Name (gs_meta src)) \<noteq> None) = rep")
  case True
  with tracker_add_map [of s1 ns src rep] assms obtain s' where
    s': "tracker_add gitlabsourcesResource src ns rep s1 = (Ok (), s')" "fake_inv s'"
      "fake_map s' = (fake_map s)((ns, om_Name (gs_meta src)) \<mapsto> placed ns src)" by (auto simp: s1_def)
  have "tracker_Get gitlabsourcesResource ns (om_Name (gs_meta src)) s' = Inr (placed ns src)"
    using tracker_Get_map [OF s'(2) assms(3,4)] s'(3) by simp
  then show ?thesis using True s' by (simp add: fake_seq read_object_def)
next
  case False
  with tracker_add_map [of s1 ns src rep] assms(1-5) show ?thesis by (simp add: s1_def fake_seq)
qed

lemma fake_Get_map:
  assumes "fake_inv s" and "ns \<noteq> []" and "n \<noteq> []"
  shows "\<exists>sg. fake_Get merge (fake_GitLabSources ns) n s
       = (Ok (fake_map s (ns, n), if fake_map s (ns, n) = None then Some (status_NewNotFound gitlabsourcesResource n) else None), sg)
     \<and> fake_map sg = fake_map s \<and> fake_inv sg"
  using tracker_Get_map [of "s\<lparr>fk_actions := fk_actions s @ [GetAction gitlabsourcesResource ns n]\<rparr>" ns n] assms
  by (auto simp: fake_Get_def Invokes_def ObjectReaction_def record_action_def fake_seq as_source_result_def fake_GitLabSources_def
      read_object_def split: option.split)

text \<open>
  C38: the fake client of a namespace is a map from names to sources.  \<open>Get\<close> returns the
  source of the name or NotFound; \<open>Create\<close> puts a source that was not there and returns it,
  with its namespace set, or returns AlreadyExists; \<open>Update\<close> replaces one that was there, or
  returns NotFound; \<open>Delete\<close> takes it away, or returns NotFound.  Each name has one source at
  most, and an operation that fails changes none.
\<close>

theorem fake_client_is_map:
  assumes "fake_inv s" and "roomy s" and "ns \<noteq> []" and "om_Name (gs_meta src) = n" and "n \<noteq> []" and "om_Namespace (gs_meta src) \<in> {[], ns}"
  shows "\<exists>sg sc su sd.
     fake_Get merge (fake_GitLabSources ns) n s
       = (Ok (fake_map s (ns, n), if fake_map s (ns, n) = None then Some (status_NewNotFound gitlabsourcesResource n) else None), sg)
   \<and> fake_Create merge (fake_GitLabSources ns) src s
       = (Ok (if fake_map s (ns, n) = None then (Some (placed ns src), None) else (None, Some (NewAlreadyExists gitlabsourcesResource n))), sc)
   \<and> fake_Update merge (fake_GitLabSources ns) src s
       = (Ok (if fake_map s (ns, n) = None then (None, Some (status_NewNotFound gitlabsourcesResource n)) else (Some (placed ns src), None)), su)
   \<and> fake_Delete merge (fake_GitLabSources ns) n s
       = (Ok (if fake_map s (ns, n) = None then Some (status_NewNotFound gitlabsourcesResource n) else None), sd)
   \<and> fake_map sg = fake_map s
   \<and> fake_map sc = (if fake_map s (ns, n) = None then (fake_map s)((ns, n) \<mapsto> placed ns src) else fake_map s)
   \<and> fake_map su = (if fake_map s (ns, n) = None then fake_map s else (fake_map s)((ns, n) \<mapsto> placed ns src))
   \<and> fake_map sd = (fake_map s)((ns, n) := None)
   \<and> fake_inv sg \<and> fake_inv sc \<and> fake_inv su \<and> fake_inv sd"
proof -
  note defs = Invokes_def ObjectReaction_def record_action_def fake_seq as_source_result_def fake_GitLabSources_def
  note g = fake_Get_map [OF assms(1,3,5), of merge]
  have c: "\<exists>sc. fake_Create merge (fake_GitLabSources ns) src s
       = (Ok (if fake_map s (ns, n) = None then (Some (placed ns src), None) else (None, Some (NewAlreadyExists gitlabsourcesResource n))), sc)
     \<and> fake_map sc = (if fake_map s (ns, n) = None then (fake_map s)((ns, n) \<mapsto> placed ns src) else fake_map s) \<and> fake_inv sc"
    using fake_write_map [of s ns src "s\<lparr>fk_actions := fk_actions s @ [CreateAction gitlabsourcesResource [] ns src]\<rparr>" "CreateAction gitlabsourcesResource [] ns src" False] assms
    by (auto simp: fake_Create_def Invokes_def ObjectReaction_def record_action_def tracker_Create_def fake_GitLabSources_def
        seqG_def thenG_def onErr_def modG_def retG_def as_source_result_def split: if_splits)
  have u: "\<exists>su. fake_Update merge (fake_GitLabSources ns) src s
       = (Ok (if fake_map s (ns, n) = None then (None, Some (status_NewNotFound gitlabsourcesResource n)) else (Some (placed ns src), None)), su)
     \<and> fake_map su = (if fake_map s (ns, n) = None then fake_map s else (fake_map s)((ns, n) \<mapsto> placed ns src)) \<and> fake_inv su"
    using fake_write_map [of s ns src "s\<lparr>fk_actions := fk_actions s @ [UpdateAction gitlabsourcesResource [] ns src]\<rparr>" "UpdateAction gitlabsourcesResource [] ns src" True] assms
    by (auto simp: fake_Update_def Invokes_def ObjectReaction_def record_action_def tracker_Update_def fake_GitLabSources_def
        seqG_def thenG_def onErr_def modG_def retG_def as_source_result_def split: if_splits)
  have d: "\<exists>sd. fake_Delete merge (fake_GitLabSources ns) n s
       = (Ok (if fake_map s (ns, n) = None then Some (status_NewNotFound gitlabsourcesResource n) else None), sd)
     \<and> fake_map sd = (fake_map s)((ns, n) := None) \<and> fake_inv sd"
  proof -
    let ?s = "s\<lparr>fk_actions := fk_actions s @ [DeleteAction gitlabsourcesResource ns n]\<rparr>"
    have "fake_map s = (fake_map s)((ns, n) := None)" if "fake_map s (ns, n) = None" using that by (simp add: fun_upd_idem)
    then show ?thesis using tracker_Delete_map [of ?s ns n] assms
      by (auto simp: fake_Delete_def defs split: option.splits)
  qed
  from g c u d show ?thesis by metis
qed

lemma empty_inv: "fake_inv empty_clientset" "roomy empty_clientset" "fake_map empty_clientset = Map.empty"
  by (simp_all add: fake_inv_def roomy_def fake_map_def empty_clientset_def objects_of_def kv_def)

definition fake_demo :: GitLabSource where
  "fake_demo = zero_source\<lparr>gs_meta := empty_meta\<lparr>om_Name := ''src''\<rparr>\<rparr>"

theorem fake_client_is_map_witness:
  "\<exists>s. fake_Create (\<lambda>obj _. Inr obj) (fake_GitLabSources ''ns'') fake_demo empty_clientset = (Ok (Some (placed ''ns'' fake_demo), None), s)
     \<and> fake_map s = [(''ns'', ''src'') \<mapsto> placed ''ns'' fake_demo]"
  using fake_client_is_map [OF empty_inv(1,2), of "''ns''" fake_demo "''src''" "\<lambda>obj _. Inr obj"]
  by (auto simp: fake_demo_def zero_source_def empty_meta_def empty_inv(3))

text \<open>
  Where the fake client is not like a server.  \<open>DeleteCollection\<close> has no reaction, so it
  reports success and deletes nothing; and \<open>Patch\<close> of a name that is not there, which \<open>Get\<close>
  reports as NotFound, returns an empty source and no error.
\<close>

theorem fake_client_silent:
  assumes "fake_inv s" and "ns \<noteq> []" and "n \<noteq> []" and "fake_map s (ns, n) = None" and "parse opts = Some sel"
  shows "\<exists>s1 s2 s3. fake_DeleteCollection merge parse (fake_GitLabSources ns) opts s = (Ok None, s1) \<and> fake_map s1 = fake_map s
    \<and> fake_Get merge (fake_GitLabSources ns) n s = (Ok (None, Some (status_NewNotFound gitlabsourcesResource n)), s2)
    \<and> fake_Patch merge (fake_GitLabSources ns) n data subresources s = (Ok (Some zero_source, None), s3) \<and> fake_map s3 = fake_map s"
proof -
  have g: "tracker_Get gitlabsourcesResource ns n (s\<lparr>fk_actions := acts\<rparr>) = Inl (status_NewNotFound gitlabsourcesResource n)" for acts
    using tracker_Get_map [of "s\<lparr>fk_actions := acts\<rparr>" ns n] assms by simp
  note defs = Invokes_def ObjectReaction_def record_action_def fake_seq as_source_result_def fake_GitLabSources_def read_object_def
  show ?thesis
    using assms(5) by (simp add: fake_DeleteCollection_def fake_Get_def fake_Patch_def defs g del: path_Join.simps)
qed

theorem fake_client_silent_witness:
  "fst (fake_Patch (\<lambda>obj _. Inr obj) (fake_GitLabSources ''ns'') ''src'' [] [] empty_clientset) = Ok (Some zero_source, None)"
proof -
  let ?opts = "\<lparr>lo_LabelSelector = [], lo_FieldSelector = [], lo_IncludeUninitialized = False, lo_Watch = False,
      lo_ResourceVersion = [], lo_TimeoutSeconds = None, lo_Limit = 0, lo_Continue = []\<rparr>"
  have "fake_map empty_clientset (''ns'', ''src'') = None" by (simp add: empty_inv(3))
  from fake_client_silent [OF empty_inv(1) _ _ this, of "\<lambda>_. Some (\<lambda>_. True)" ?opts "\<lambda>_. True" "\<lambda>obj _. Inr obj" "[]" "[]"] show ?thesis by auto
qed

end
