(* ===== verification/FakeInjection.thy ===== *)
theory FakeInjection
  imports StartupProperties FakeProperties
begin

text \<open>
  The injectors that fill the context of a test (\<open>pkg/client/injection/.../fake\<close>): they
  register in \<open>injection.Fake\<close> and put a fake clientset where the controller process has its
  client of the API server.
\<close>

section \<open>Injectors\<close>

definition fakeinj_With :: "GitLabSource list \<Rightarrow> appContext \<Rightarrow> (proc_state, appContext \<times> nat) go" where
  "fakeinj_With objects ctx =
     (case NewSimpleClientset objects of
        (Ok _, cs) \<Rightarrow>
          thenG (\<lambda>s. (Ok (length (pr_fakes s)), s\<lparr>pr_fakes := pr_fakes s @ [cs]\<rparr>)) (\<lambda>p.
          retG (ctx\<lparr>cx_client := Some (FakeClientset p)\<rparr>, p))
      | _ \<Rightarrow> panicG)"

definition fakeinj_withClient :: "appContext \<Rightarrow> client_config \<Rightarrow> (proc_state, appContext) go" where
  "fakeinj_withClient ctx cfg = thenG (fakeinj_With [] ctx) (\<lambda>(ctx, _). retG ctx)"

text \<open>The type assertion at the end panics for the client of a real server.\<close>

definition fakeinj_Get :: "appContext \<Rightarrow> (proc_state, nat) go" where
  "fakeinj_Get ctx =
     (case cx_client ctx of
        None \<Rightarrow> panicG
      | Some (FakeClientset p) \<Rightarrow> retG p
      | Some (RealClientset _) \<Rightarrow> panicG)"

definition fakeinj_withInformerFactory :: "appContext \<Rightarrow> (proc_state, appContext) go" where
  "fakeinj_withInformerFactory ctx =
     thenG (fakeinj_Get ctx) (\<lambda>c.
     thenG (addFactory (NewSharedInformerFactory (FakeClientset c) (GetResyncPeriod ctx))) (\<lambda>f.
     retG (ctx\<lparr>cx_factory := Some f\<rparr>)))"

definition fakeinj_withInformer :: "appContext \<Rightarrow> (proc_state, appContext \<times> informer_ref) go" where
  "fakeinj_withInformer ctx =
     thenG (factory_Get ctx) (\<lambda>f.
     thenG (getG (\<lambda>s. scope_GitLabSources (V1alpha1 (factory_Sources (pr_factories s ! f))))) (\<lambda>inf.
     thenG (onFactory f (Informer inf)) (\<lambda>i.
     retG (ctx\<lparr>cx_informer := Some (f, inf)\<rparr>, (f, i)))))"

text \<open>What the \<open>init\<close> functions of the fake packages leave in \<open>injection.Fake\<close>.\<close>

definition Fake :: injection where
  "Fake =
     RegisterInformer fakeinj_withInformer (RegisterInformerFactory fakeinj_withInformerFactory
       (RegisterClient fakeinj_withClient \<lparr>in_clients = [], in_factories = [], in_informers = []\<rparr>))"

text \<open>A list of sources as the informer issues it, carried out on the fake clientsets.\<close>

definition fake_list_call :: "merger \<Rightarrow> (ListOptions \<Rightarrow> (labels \<Rightarrow> bool) option) \<Rightarrow> source_call \<Rightarrow> proc_state
    \<Rightarrow> (GitLabSourceList option \<times> go_error option) outcome option" where
  "fake_list_call merge selectors call s =
     (case call of
        FakeListCall p c opts \<Rightarrow> (if p < length (pr_fakes s) then Some (fst (fake_List merge selectors c opts (pr_fakes s ! p))) else None)
      | _ \<Rightarrow> None)"

section \<open>Objects of a fake clientset\<close>

lemma add_objects_map:
  assumes "fake_inv s" and "fk_watchers s = []" and "list_all (\<lambda>obj. om_Namespace (gs_meta obj) \<noteq> []) objects"
    and "distinct (map okey objects)" and "\<forall>obj\<in>set objects. fake_map s (okey obj) = None"
  shows "\<exists>s'. add_objects objects s = (Ok (), s') \<and> fk_watchers s' = [] \<and> fake_inv s'
    \<and> objects_of gitlabsourcesResource s' = objects_of gitlabsourcesResource s @ objects"
  using assms
proof (induction objects arbitrary: s)
  case Nil
  then show ?case by (simp add: retG_def)
next
  case (Cons obj objs)
  let ?ns = "om_Namespace (gs_meta obj)" and ?n = "om_Name (gs_meta obj)"
  let ?t = "put_objects gitlabsourcesResource (objects_of gitlabsourcesResource s @ [obj]) s"
  have r: "fst (UnsafeGuessKindToResource gitlabsourcesKind) = gitlabsourcesResource"
    by (simp add: UnsafeGuessKindToResource_def gitlabsourcesKind_def gitlabsourcesResource_def) code_simp
  have new: "okey obj \<notin> okey ` set (objects_of gitlabsourcesResource s)"
    using Cons.prems(5) by (simp add: fake_map_def kv_None)
  then have i: "index_of (same_name ?ns ?n) (objects_of gitlabsourcesResource s) = None"
    by (auto simp: index_of_None same_okey okey_def image_iff)
  have "placed ?ns obj = obj" using Cons.prems(3) by (simp add: placed_def)
  then have t: "tracker_Add obj s = (Ok (), ?t)"
    using i Cons.prems(2) by (simp add: tracker_Add_def r tracker_add_eq fake_seq notify_def getWatches_def)
  have "fake_inv ?t" using Cons.prems(1) new by (simp add: fake_inv_def)
  moreover have "\<forall>o'\<in>set objs. fake_map ?t (okey o') = None"
    using Cons.prems(4,5) by (auto simp: fake_map_def kv_None image_iff)
  ultimately obtain s' where "add_objects objs ?t = (Ok (), s')" "fk_watchers s' = []" "fake_inv s'"
    "objects_of gitlabsourcesResource s' = objects_of gitlabsourcesResource s @ obj # objs"
    using Cons.IH [of ?t] Cons.prems by auto
  then show ?case using t by (simp add: fake_seq)
qed

section \<open>The context of a test\<close>

definition listed :: "GitLabSource list \<Rightarrow> GitLabSourceList" where
  "listed objects = zero_list\<lparr>gl_Items := objects\<rparr>"

lemma all_namespaces:
  "scope_GitLabSources (V1alpha1 (factory_Sources (NewSharedInformerFactory c resync))) = all_sources"
  "Informer all_sources (NewSharedInformerFactory c resync)
     = (Ok 0, (NewSharedInformerFactory c resync)\<lparr>f_made := [defaultInformer all_sources c resync], f_informers := [(sourceType, 0)]\<rparr>)"
  by (simp_all add: Informer_def InformerFor_eq new_informers)
    (simp_all add: NewSharedInformerFactory_def NewSharedInformerFactoryWithOptions_def scope_GitLabSources_def V1alpha1_def
      v1alpha1_New_def factory_Sources_def sources_New_def all_sources_def)

definition test_factory :: "nat \<Rightarrow> int \<Rightarrow> sharedInformerFactory" where
  "test_factory p resync = (NewSharedInformerFactory (FakeClientset p) resync)
     \<lparr>f_made := [defaultInformer all_sources (FakeClientset p) resync], f_informers := [(sourceType, 0)]\<rparr>"

lemma test_factory_lists:
  "si_ListFunc (f_made (test_factory p resync) ! 0) opts = FakeListCall p (fake_GitLabSources []) opts"
  by (simp add: test_factory_def defaultInformer_def NewFilteredGitLabSourceInformer_def all_sources_def tweaked_def fake_SourcesV1alpha1_def)

lemma With_ok:
  "add_objects objects empty_clientset = (Ok (), cs) \<Longrightarrow>
     fakeinj_With objects ctx s = (Ok (ctx\<lparr>cx_client := Some (FakeClientset (length (pr_fakes s)))\<rparr>, length (pr_fakes s)), s\<lparr>pr_fakes := pr_fakes s @ [cs]\<rparr>)"
  by (simp add: fakeinj_With_def NewSimpleClientset_def go_seq_defs)

lemma fake_setup:
  "SetupInformers Fake ctx cfg s
      = (Ok (ctx\<lparr>cx_client := Some (FakeClientset (length (pr_fakes s))), cx_factory := Some (length (pr_factories s)),
               cx_informer := Some (length (pr_factories s), all_sources)\<rparr>, [(length (pr_factories s), 0)]),
         s\<lparr>pr_fakes := pr_fakes s @ [empty_clientset], pr_factories := pr_factories s @ [test_factory (length (pr_fakes s)) (GetResyncPeriod ctx)]\<rparr>)"
proof -
  have "add_objects [] empty_clientset = (Ok (), empty_clientset)" by (simp add: retG_def)
  from With_ok [OF this] show ?thesis
    by (simp add: SetupInformers_def Fake_def RegisterClient_def RegisterInformerFactory_def RegisterInformer_def
        fakeinj_withClient_def fakeinj_withInformerFactory_def fakeinj_Get_def fakeinj_withInformer_def factory_Get_def
        addFactory_def onFactory_def all_namespaces go_seq_defs getG_def GetResyncPeriod_def test_factory_def)
qed

lemma fake_list_all:
  assumes "selectors opts = Some (\<lambda>_. True)" and "\<forall>objs. fk_objects cs gitlabsourcesResource = Some objs \<longrightarrow> objs = objects"
    and "fk_objects cs gitlabsourcesResource = None \<longrightarrow> objects = []"
  shows "fst (fake_List merge selectors (fake_GitLabSources []) opts cs) = Ok (Some (listed objects), None)"
  using assms by (cases "fk_objects cs gitlabsourcesResource")
    (auto simp: fake_List_def Invokes_def ObjectReaction_def record_action_def fake_seq fake_GitLabSources_def tracker_List_def
      gitlabsourcesKind_def filterByNamespaceAndName_def zero_list_def listed_def)

text \<open>
  The context of a test.  The fake injectors make a new clientset without objects and an informer
  of all namespaces that lists from it, so its first list is empty.  \<open>With\<close> then makes a
  second clientset that holds the objects and puts it into the context; what a reconciler
  takes from the context is that one, but the informer goes on listing from the first: the
  objects do not reach its cache.
\<close>

theorem test_context:
  assumes "list_all (\<lambda>obj. om_Namespace (gs_meta obj) \<noteq> []) objects" and "distinct (map okey objects)"
    and "selectors opts = Some (\<lambda>_. True)"
  shows "\<exists>ctx1 s1 i ctx2 p s2 f. SetupInformers Fake ctx cfg s = (Ok (ctx1, [i]), s1)
    \<and> fakeinj_With objects ctx1 s1 = (Ok (ctx2, p), s2) \<and> cx_client ctx2 = Some (FakeClientset p)
    \<and> pr_factories s2 = pr_factories s @ [f] \<and> i = (length (pr_factories s), 0) \<and> cx_informer ctx2 = cx_informer ctx1
    \<and> fake_list_call merge selectors (interface_List (interface_GitLabSources (interface_SourcesV1alpha1 (FakeClientset p)) []) opts) s2
        = Some (Ok (Some (listed objects), None))
    \<and> fake_list_call merge selectors (si_ListFunc (f_made f ! 0) opts) s2 = Some (Ok (Some (listed []), None))"
proof -
  obtain cs where cs: "add_objects objects empty_clientset = (Ok (), cs)"
    "objects_of gitlabsourcesResource cs = objects"
    using add_objects_map [of empty_clientset objects] assms(1,2) empty_inv
    by (auto simp: empty_clientset_def objects_of_def)
  have "fst (fake_List merge selectors (fake_GitLabSources []) opts cs) = Ok (Some (listed objects), None)"
    by (rule fake_list_all) (use cs(2) assms(3) in \<open>auto simp: objects_of_def split: option.splits\<close>)
  moreover have "fst (fake_List merge selectors (fake_GitLabSources []) opts empty_clientset) = Ok (Some (listed []), None)"
    by (rule fake_list_all) (use assms(3) in \<open>auto simp: empty_clientset_def\<close>)
  ultimately show ?thesis
    by (simp add: fake_setup With_ok [OF cs(1)] test_factory_lists fake_list_call_def fake_SourcesV1alpha1_def nth_append)
qed

theorem test_context_witness:
  "fst (fakeinj_With [placed ''ns'' fake_demo] \<lparr>cx_client = None, cx_factory = None, cx_informer = None, cx_resyncPeriod = None\<rparr> fresh_process)
     \<noteq> Panic"
proof -
  let ?obj = "placed ''ns'' fake_demo" and ?ctx = "\<lparr>cx_client = None, cx_factory = None, cx_informer = None, cx_resyncPeriod = None\<rparr>"
  have "om_Namespace (gs_meta ?obj) = ''ns''" by (simp add: placed_def fake_demo_def zero_source_def empty_meta_def)
  then show ?thesis
    using test_context [of "[?obj]" "\<lambda>_. Some (\<lambda>_. True)" undefined ?ctx undefined fresh_process]
    by (auto simp: fakeinj_With_def go_seq_defs panicG_def fresh_process_def split: prod.splits outcome.splits)
qed

text \<open>The registries do not mix: the fake factory panics on the client of a real server, the real one takes a fake.\<close>

theorem fake_factory_needs_fake:
  "fakeinj_withInformerFactory (ctx\<lparr>cx_client := Some (RealClientset c)\<rparr>) s = (Panic, s)
   \<and> (\<exists>f. withInformerFactory (ctx\<lparr>cx_client := Some (FakeClientset p)\<rparr>) s
       = (Ok (ctx\<lparr>cx_client := Some (FakeClientset p), cx_factory := Some (length (pr_factories s))\<rparr>), s\<lparr>pr_factories := pr_factories s @ [f]\<rparr>)
      \<and> f_client f = FakeClientset p)"
proof -
  have "f_client (NewSharedInformerFactory c resync) = c" for c resync
    by (simp add: NewSharedInformerFactory_def NewSharedInformerFactoryWithOptions_def)
  then show ?thesis
    by (auto simp: fakeinj_withInformerFactory_def withInformerFactory_def fakeinj_Get_def injected_client_def addFactory_def go_seq_defs panicG_def)
qed

end
