(* ===== verification/Webhook.thy ===== *)
theory Webhook
  imports SourceTypes
begin

text \<open>
  The admission webhook: the command (\<open>cmd/webhook/main.go\<close>) and what the admission
  controller of knative does with a request (\<open>knative.dev/pkg/webhook/webhook.go\<close>).  A
  GitLabSource has no immutable fields and no \<open>GetUntypedSpec\<close>, so the checks and the
  annotations for types that have do not apply.  JSON and JSON patches are parameters
  (\<open>codec\<close>): decoding, where \<open>null\<close> gives a nil object, encoding, and the patch between two
  documents.
\<close>

section \<open>Command\<close>

definition SystemNamespaceEnvVar :: string where "SystemNamespaceEnvVar = ''SYSTEM_NAMESPACE''"
definition DefaultNamespace :: string where "DefaultNamespace = ''tekton-sources''"

text \<open>\<open>os.Getenv\<close> is empty for a variable that is not set.\<close>

definition getNamespace :: "(string \<rightharpoonup> string) \<Rightarrow> string" where
  "getNamespace env =
     (let systemNamespace = (case env SystemNamespaceEnvVar of None \<Rightarrow> [] | Some v \<Rightarrow> v)
      in if systemNamespace = [] then DefaultNamespace else systemNamespace)"

record ControllerOptions =
  wo_ServiceName :: string
  wo_DeploymentName :: string
  wo_Namespace :: string
  wo_Port :: int
  wo_SecretName :: string
  wo_WebhookName :: string

text \<open>The handlers map each kind to an empty object of its type, here always a GitLabSource.\<close>

record AdmissionController =
  ac_Options :: ControllerOptions
  ac_Handlers :: "GroupVersionKind list"
  ac_DisallowUnknownFields :: bool

definition webhook_controller :: "(string \<rightharpoonup> string) \<Rightarrow> AdmissionController" where
  "webhook_controller env =
     \<lparr>ac_Options = \<lparr>wo_ServiceName = ''tekton-sources-webhook'', wo_DeploymentName = ''tekton-sources-webhook'',
        wo_Namespace = getNamespace env, wo_Port = 8443, wo_SecretName = ''sources-webhook-certs'',
        wo_WebhookName = ''sources-webhook.tekton.dev''\<rparr>,
      ac_Handlers = [WithKind SchemeGroupVersion ''GitLabSource''], ac_DisallowUnknownFields = True\<rparr>"

text \<open>
  \<open>main\<close>: what loading and parsing the logging configuration, the cluster configuration,
  the client and the watch of the namespace's configuration maps give, what running the
  controller gives, and what the deferred \<open>Sync\<close> of the logger gives; \<open>Fatal\<close> ends the process.
\<close>

record webhook_steps =
  ws_load :: "go_error + unit"
  ws_parse :: "go_error + unit"
  ws_cluster :: "go_error + unit"
  ws_client :: "go_error + unit"
  ws_watch :: "string \<Rightarrow> go_error + unit"
  ws_run :: "AdmissionController \<Rightarrow> go_error + unit"
  ws_sync :: "go_error + unit"

definition fatal :: "go_error + unit \<Rightarrow> ('s, unit) go" where
  "fatal r = (case r of Inl _ \<Rightarrow> panicG | Inr _ \<Rightarrow> retG ())"

definition webhook_main :: "webhook_steps \<Rightarrow> (string \<rightharpoonup> string) \<Rightarrow> ('s, unit) go" where
  "webhook_main w env =
     seqG (fatal (ws_load w))
     (seqG (fatal (ws_parse w))
     (seqG (fatal (ws_cluster w))
     (seqG (fatal (ws_client w))
     (seqG (fatal (ws_watch w (getNamespace env)))
     (seqG (fatal (ws_run w (webhook_controller env)))
     (fatal (ws_sync w)))))))"

section \<open>Admission\<close>

record 'p codec =
  co_decode :: "bool \<Rightarrow> string \<Rightarrow> go_error + GitLabSource option"
  co_marshal :: "GitLabSource \<Rightarrow> go_error + string"
  co_diff :: "string \<Rightarrow> string \<Rightarrow> go_error + 'p list"
  co_encode :: "'p list \<Rightarrow> go_error + string"

record AdmissionRequest =
  rq_UID :: string
  rq_Kind :: GroupVersionKind
  rq_Operation :: string
  rq_Object :: string
  rq_OldObject :: string

record AdmissionResponse =
  ar_UID :: string
  ar_Allowed :: bool
  ar_Patch :: "string option"
  ar_Message :: "string option"

definition wrap_error :: "string \<Rightarrow> ('s, 'a) go \<Rightarrow> ('s, 'a) go" where
  "wrap_error prefix m = onErr m (\<lambda>e. failG (PlainError (prefix @ err_text e))) retG"

definition decode_object :: "'p codec \<Rightarrow> bool \<Rightarrow> string \<Rightarrow> string \<Rightarrow> ('s, GitLabSource option) go" where
  "decode_object co strict which raw =
     (if length raw \<noteq> 0 then wrap_error (''cannot decode incoming '' @ which @ '' object: '') (liftG (co_decode co strict raw))
      else retG None)"

definition roundTripPatch :: "'p codec \<Rightarrow> string \<Rightarrow> GitLabSource option \<Rightarrow> ('s, 'p list) go" where
  "roundTripPatch co bytes unmarshalled =
     (case unmarshalled of
        None \<Rightarrow> retG []
      | Some obj \<Rightarrow>
          thenG (wrap_error ''cannot marshal interface: '' (liftG (co_marshal co obj))) (\<lambda>marshaledBytes.
          liftG (co_diff co bytes marshaledBytes)))"

text \<open>\<open>setDefaults\<close> copies the object first, which panics on a nil object.\<close>

definition setDefaults :: "'p codec \<Rightarrow> 'p list \<Rightarrow> GitLabSource option \<Rightarrow> ('s, 'p list) go" where
  "setDefaults co patches crd =
     (case crd of
        None \<Rightarrow> panicG
      | Some before \<Rightarrow>
          thenG (liftG (co_marshal co before)) (\<lambda>rawBefore.
          thenG (liftG (co_marshal co (SetDefaults before))) (\<lambda>rawAfter.
          thenG (liftG (co_diff co rawBefore rawAfter)) (\<lambda>patch.
          retG (patches @ patch)))))"

definition validate_object :: "GitLabSource \<Rightarrow> ('s, unit) go" where
  "validate_object new = (case Validate new of Some e \<Rightarrow> failG (PlainError e) | None \<Rightarrow> retG ())"

definition mutate :: "'p codec \<Rightarrow> AdmissionController \<Rightarrow> AdmissionRequest \<Rightarrow> ('s, string) go" where
  "mutate co ac req =
     (if rq_Kind req \<notin> set (ac_Handlers ac)
      then failG (PlainError (''unhandled kind: '' @ GroupVersionKind_String (rq_Kind req)))
      else
        thenG (decode_object co (ac_DisallowUnknownFields ac) ''new'' (rq_Object req)) (\<lambda>newObj.
        thenG (decode_object co (ac_DisallowUnknownFields ac) ''old'' (rq_OldObject req)) (\<lambda>oldObj.
        thenG (wrap_error ''cannot create patch for round tripped newBytes: '' (roundTripPatch co (rq_Object req) newObj)) (\<lambda>rtp.
        thenG (setDefaults co rtp newObj) (\<lambda>patches.
        case newObj of
          None \<Rightarrow> failG (PlainError ''the new object may not be nil'')
        | Some new \<Rightarrow> seqG (validate_object new) (liftG (co_encode co patches)))))))"

definition makeErrorStatus :: "string \<Rightarrow> AdmissionResponse" where
  "makeErrorStatus msg = \<lparr>ar_UID = [], ar_Allowed = False, ar_Patch = None, ar_Message = Some msg\<rparr>"

definition admit :: "'p codec \<Rightarrow> AdmissionController \<Rightarrow> AdmissionRequest \<Rightarrow> ('s, AdmissionResponse) go" where
  "admit co ac request =
     (if rq_Operation request \<noteq> ''CREATE'' \<and> rq_Operation request \<noteq> ''UPDATE''
      then retG \<lparr>ar_UID = [], ar_Allowed = True, ar_Patch = None, ar_Message = None\<rparr>
      else onErr (mutate co ac request)
        (\<lambda>err. retG (makeErrorStatus (''mutation failed: '' @ err_text err)))
        (\<lambda>patchBytes. retG \<lparr>ar_UID = [], ar_Allowed = True, ar_Patch = Some patchBytes, ar_Message = None\<rparr>))"

text \<open>
  \<open>ServeHTTP\<close>: \<open>review\<close> decodes the body; a review without a request is dereferenced.
\<close>

datatype http_answer = HTTPError nat string | Answer AdmissionResponse

definition ServeHTTP :: "'p codec \<Rightarrow> AdmissionController \<Rightarrow> (string \<Rightarrow> go_error + AdmissionRequest option) \<Rightarrow> string \<Rightarrow> string
    \<Rightarrow> ('s, http_answer) go" where
  "ServeHTTP co ac review contentType body =
     (if contentType \<noteq> ''application/json'' then retG (HTTPError 415 ''invalid Content-Type, want `application/json`'')
      else case review body of
          Inl err \<Rightarrow> retG (HTTPError 400 (''could not decode body: '' @ err_text err))
        | Inr None \<Rightarrow> panicG
        | Inr (Some request) \<Rightarrow>
            thenG (admit co ac request) (\<lambda>reviewResponse.
            retG (Answer (reviewResponse\<lparr>ar_UID := rq_UID request\<rparr>))))"

end
