(* ===== verification/WebhookProperties.thy ===== *)
theory WebhookProperties
  imports Webhook ControllerLoop
begin

text \<open>The properties of the admission webhook.\<close>

lemmas webhook_seq = thenG_def seqG_def onErr_def retG_def failG_def liftG_def panicG_def wrap_error_def

definition good_codec :: "'p codec \<Rightarrow> bool" where
  "good_codec co \<longleftrightarrow> (\<forall>obj. \<exists>b. co_marshal co obj = Inr b) \<and> (\<forall>a b. \<exists>p. co_diff co a b = Inr p) \<and> (\<forall>p. \<exists>b. co_encode co p = Inr b)"

lemma mutate_decoded:
  assumes "good_codec co" and "rq_Kind req \<in> set (ac_Handlers ac)" and "rq_Object req \<noteq> []"
    and "co_decode co (ac_DisallowUnknownFields ac) (rq_Object req) = Inr (Some src)"
    and "rq_OldObject req = [] \<or> (\<exists>old. co_decode co (ac_DisallowUnknownFields ac) (rq_OldObject req) = Inr old)"
  shows "\<exists>patch. mutate co ac req s = (Ok patch, s)"
proof -
  obtain b where b: "co_marshal co src = Inr b" using assms(1) unfolding good_codec_def by blast
  obtain p where p: "co_diff co (rq_Object req) b = Inr p" using assms(1) unfolding good_codec_def by blast
  obtain q where q: "co_diff co b b = Inr q" using assms(1) unfolding good_codec_def by blast
  obtain e where e: "co_encode co (p @ q) = Inr e" using assms(1) unfolding good_codec_def by blast
  show ?thesis using assms(2-5) b p q e
    by (auto simp: mutate_def decode_object_def roundTripPatch_def setDefaults_def SetDefaults_def validate_object_def Validate_def
        Spec_Validate_def webhook_seq)
qed


text \<open>
  What the webhook does not admit.  A kind without a handler and an object that does not
  decode are refused with the reason, other operations pass unread, a body of another
  content type or no review is an HTTP error; and two requests make the handler
  panic: a review without a request, and a CREATE without an object, which the check for a
  missing object comes too late for.
\<close>

theorem webhook_refuses:
  "(rq_Operation req = ''CREATE'' \<and> rq_Kind req \<notin> set (ac_Handlers ac) \<longrightarrow>
       admit co ac req s = (Ok (makeErrorStatus (''mutation failed: unhandled kind: '' @ GroupVersionKind_String (rq_Kind req))), s))
   \<and> (rq_Operation req = ''CREATE'' \<and> rq_Kind req \<in> set (ac_Handlers ac) \<and> rq_Object req \<noteq> [] \<and> co_decode co (ac_DisallowUnknownFields ac) (rq_Object req) = Inl e \<longrightarrow>
       admit co ac req s = (Ok (makeErrorStatus (''mutation failed: cannot decode incoming new object: '' @ err_text e)), s))
   \<and> (rq_Operation req = ''DELETE'' \<longrightarrow> (\<exists>res. admit co ac req s = (Ok res, s) \<and> ar_Allowed res \<and> ar_Patch res = None))
   \<and> (contentType \<noteq> ''application/json'' \<longrightarrow> (\<exists>msg. ServeHTTP co ac review contentType body s = (Ok (HTTPError 415 msg), s)))
   \<and> (review body = Inr None \<longrightarrow> fst (ServeHTTP co ac review ''application/json'' body s) = Panic)
   \<and> (rq_Operation req = ''CREATE'' \<and> rq_Kind req \<in> set (ac_Handlers ac) \<and> rq_Object req = [] \<and> rq_OldObject req = [] \<longrightarrow> fst (admit co ac req s) = Panic)"
  by (simp add: admit_def mutate_def decode_object_def roundTripPatch_def setDefaults_def ServeHTTP_def webhook_seq)

definition demo_codec :: "GitLabSource \<Rightarrow> unit codec" where
  "demo_codec src = \<lparr>co_decode = (\<lambda>_ _. Inr (Some src)), co_marshal = (\<lambda>_. Inr ''{}''), co_diff = (\<lambda>_ _. Inr []), co_encode = (\<lambda>_. Inr ''[]'')\<rparr>"

definition demo_request :: AdmissionRequest where
  "demo_request = \<lparr>rq_UID = ''1'', rq_Kind = WithKind SchemeGroupVersion ''GitLabSource'', rq_Operation = ''CREATE'', rq_Object = ''{}'', rq_OldObject = []\<rparr>"

definition bare_source :: GitLabSource where
  "bare_source = demo_source\<lparr>Spec := demo_spec\<lparr>AccessToken := \<lparr>SecretKeyRef = None\<rparr>\<rparr>\<rparr>"


theorem webhook_refuses_witness:
  "fst (admit (demo_codec bare_source) (webhook_controller Map.empty) (demo_request\<lparr>rq_Object := []\<rparr>) ()) = Panic"
  using webhook_refuses [of "demo_request\<lparr>rq_Object := []\<rparr>" "webhook_controller Map.empty" "demo_codec bare_source" "()" "PlainError []"
      "[]" "\<lambda>_. Inr None" "[]"]
  by (simp add: demo_request_def webhook_controller_def)

text \<open>The command runs its controller only after every step before has succeeded.\<close>

lemma webhook_main_runs:
  "webhook_main w env s = (Ok (), s) \<longleftrightarrow> ws_load w = Inr () \<and> ws_parse w = Inr () \<and> ws_cluster w = Inr () \<and> ws_client w = Inr ()
     \<and> ws_watch w (getNamespace env) = Inr () \<and> ws_run w (webhook_controller env) = Inr () \<and> ws_sync w = Inr ()"
  by (auto simp: webhook_main_def fatal_def webhook_seq split: sum.splits)

end
