(* ===== verification/RestExchange.thy ===== *)
theory RestExchange
  imports TypedClient FakeClient
begin

text \<open>
  What becomes of a request of the generated client (\<open>Request.request\<close>, \<open>Do\<close>, \<open>Watch\<close> and
  \<open>Result\<close> of \<open>k8s.io/client-go/rest/request.go\<close>, \<open>NewGenericServerResponse\<close> of
  apimachinery): the attempts, the answer as a result, the result as an object or an error, and
  with it what each operation of \<open>typed/sources/v1alpha1\<close> returns.  The network answers each
  attempt by a function of all that was sent; the decoders are parameters.  Back-off and
  throttling only delay, and are left out.
\<close>

section \<open>Answers\<close>

type_synonym sent = "string \<times> string \<times> options list \<times> body option"

text \<open>A response, with what reading its body gives.\<close>

datatype body_read = ReadAll string | StreamError string | ReadFails string

record http_response =
  hs_StatusCode :: int
  hs_ContentType :: string
  hs_RetryAfter :: string
  hs_Body :: body_read

text \<open>A failed attempt: whether the connection was reset, whether it looks like an end of file, and the error.\<close>

record net_error =
  ne_Reset :: bool
  ne_EOF :: bool
  ne_error :: go_error

type_synonym network = "sent list \<Rightarrow> net_error + http_response"

record net =
  nt_sent :: "sent list"
  nt_waits :: "int list"

section \<open>Attempts\<close>

definition retryAfterSeconds :: "http_response \<Rightarrow> int \<times> bool" where
  "retryAfterSeconds resp =
     (let h = hs_RetryAfter resp
      in if 0 < length h then (case Atoi h of Inr i \<Rightarrow> (i, True) | Inl _ \<Rightarrow> (0, False)) else (0, False))"

definition checkWait :: "http_response \<Rightarrow> int \<times> bool" where
  "checkWait resp =
     (if hs_StatusCode resp = 429 \<or> 500 \<le> hs_StatusCode resp then retryAfterSeconds resp else (0, False))"

definition maxRetries :: nat where "maxRetries = 10"

text \<open>The response put in the place of a reset connection.\<close>

definition reset_response :: http_response where
  "reset_response = \<lparr>hs_StatusCode = 500, hs_ContentType = [], hs_RetryAfter = ''1'', hs_Body = ReadAll []\<rparr>"

text \<open>
  The loop of \<open>request\<close> after so many attempts; the bodies of the generated client can be read
  again from their start.
\<close>

function request_loop :: "network \<Rightarrow> sent \<Rightarrow> nat \<Rightarrow> net \<Rightarrow> http_response outcome \<times> net" where
  "request_loop network out retries s =
     (let s1 = s\<lparr>nt_sent := nt_sent s @ [out]\<rparr>;
          answer = (case network (nt_sent s1) of
                      Inr resp \<Rightarrow> Inr resp
                    | Inl err \<Rightarrow> if \<not> ne_Reset err \<or> fst out \<noteq> ''GET'' then Inl (ne_error err) else Inr reset_response)
      in case answer of
           Inl err \<Rightarrow> (Err err, s1)
         | Inr resp \<Rightarrow>
             if snd (checkWait resp) \<and> Suc retries < maxRetries
             then request_loop network out (Suc retries) (s1\<lparr>nt_waits := nt_waits s1 @ [fst (checkWait resp)]\<rparr>)
             else (Ok resp, s1))"
  by pat_completeness auto
termination
  by (relation "measure (\<lambda>(network, out, retries, s). maxRetries - retries)") auto

declare request_loop.simps [simp del]

definition rest_do :: "network \<Rightarrow> source_request \<Rightarrow> (net, http_response) go" where
  "rest_do network r = (case rest_send r of Inl err \<Rightarrow> failG err | Inr out \<Rightarrow> request_loop network out 0)"

section \<open>Errors of the server\<close>

definition reason_of :: "string \<Rightarrow> status_reason" where
  "reason_of s = (if s = ''NotFound'' then StatusReasonNotFound else StatusReasonOther s)"

record meta_status =
  ms_Status :: string
  ms_Reason :: string
  ms_Message :: string

text \<open>\<open>FromObject\<close> of a status\<close>

definition FromObject :: "meta_status \<Rightarrow> go_error" where
  "FromObject t = StatusError (reason_of (ms_Reason t)) (ms_Message t)"

definition group_resource_text :: "string \<Rightarrow> string \<Rightarrow> string" where
  "group_resource_text grp res = (if grp = [] then res else res @ ''.'' @ grp)"

definition generic_reason :: "int \<Rightarrow> string \<Rightarrow> string" where
  "generic_reason code verb =
     (if code = 409 then (if verb = ''POST'' then ''AlreadyExists'' else ''Conflict'')
      else if code = 404 then ''NotFound''
      else if code = 400 then ''BadRequest''
      else if code = 401 then ''Unauthorized''
      else if code = 403 then ''Forbidden''
      else if code = 406 then ''NotAcceptable''
      else if code = 415 then ''UnsupportedMediaType''
      else if code = 405 then ''MethodNotAllowed''
      else if code = 422 then ''Invalid''
      else if code = 503 then ''ServiceUnavailable''
      else if code = 504 then ''Timeout''
      else if code = 429 then ''TooManyRequests''
      else if 500 \<le> code then ''InternalError'' else [])"

definition generic_message :: "int \<Rightarrow> string \<Rightarrow> string" where
  "generic_message code serverMessage =
     (if code = 409 then ''the server reported a conflict''
      else if code = 404 then ''the server could not find the requested resource''
      else if code = 400 then ''the server rejected our request for an unknown reason''
      else if code = 401 then ''the server has asked for the client to provide credentials''
      else if code = 403 \<or> code = 406 \<or> code = 415 then serverMessage
      else if code = 405 then ''the server does not allow this method on the requested resource''
      else if code = 422 then ''the server rejected our request due to an error in our request''
      else if code = 503 then ''the server is currently unable to handle the request''
      else if code = 504 then ''the server was unable to return a response in the time allotted, but may still be processing the request''
      else if code = 429 then ''the server has received too many requests and has asked us to try again later''
      else if 500 \<le> code then ''an error on the server ('' @ quote serverMessage @ '') has prevented the request from succeeding''
      else ''the server responded with the status code '' @ Itoa code @ '' but did not return more information'')"

definition NewGenericServerResponse :: "int \<Rightarrow> string \<Rightarrow> string \<Rightarrow> string \<Rightarrow> string \<Rightarrow> string \<Rightarrow> go_error" where
  "NewGenericServerResponse code verb grp res name serverMessage =
     (let message = generic_message code serverMessage;
          known = \<not> (grp = [] \<and> res = [])
      in StatusError (reason_of (generic_reason code verb))
           (if known \<and> 0 < length name
            then message @ '' ('' @ ToLower verb @ '' '' @ group_resource_text grp res @ '' '' @ name @ '')''
            else if known then message @ '' ('' @ ToLower verb @ '' '' @ group_resource_text grp res @ '')''
            else message))"

section \<open>Results\<close>

text \<open>
  What a decoder makes of a body: an error, which leaves the object with what was decoded so far;
  the object; or another object.  Without an object to decode into there is only the other.
\<close>

datatype any_object = StatusObject meta_status | OtherObject

datatype 'o decoded = DecodeFails go_error 'o | DecodedInto 'o | DecodedAny any_object

record 'o decoder =
  dc_into :: "string \<Rightarrow> 'o decoded"
  dc_any :: "string \<Rightarrow> go_error + any_object"

text \<open>
  The serializers: the decoder of the client's content type, \<open>RenegotiatedDecoder\<close> of another one,
  and \<open>mime.ParseMediaType\<close>, which gives the media type of a header.
\<close>

record 'o serializers =
  sz_Decoder :: "'o decoder"
  sz_RenegotiatedDecoder :: "string \<Rightarrow> go_error + 'o decoder"
  sz_ParseMediaType :: "string \<Rightarrow> go_error + string"

text \<open>A result; with the error whether it is one of an unexpected server response.\<close>

record 'o Result =
  re_body :: string
  re_contentType :: string
  re_err :: "(go_error \<times> bool) option"
  re_statusCode :: int
  re_decoder :: "'o decoder option"

definition error_result :: "go_error \<Rightarrow> 'o Result" where
  "error_result err = \<lparr>re_body = [], re_contentType = [], re_err = Some (err, False), re_statusCode = 0, re_decoder = None\<rparr>"

definition content_ContentType :: string where "content_ContentType = ''application/json''"

definition isTextResponse :: "'o serializers \<Rightarrow> http_response \<Rightarrow> bool" where
  "isTextResponse sz resp =
     (let contentType = hs_ContentType resp
      in if length contentType = 0 then True
         else case sz_ParseMediaType sz contentType of Inl _ \<Rightarrow> False | Inr media \<Rightarrow> HasPrefix media ''text/'')"

text \<open>\<open>strings.TrimSpace\<close> on ASCII text\<close>

definition is_space :: "char \<Rightarrow> bool" where
  "is_space c \<longleftrightarrow> c \<in> {CHR 0x09, CHR 0x0A, CHR 0x0B, CHR 0x0C, CHR 0x0D, CHR '' ''}"

definition TrimSpace :: "string \<Rightarrow> string" where
  "TrimSpace s = rev (dropWhile is_space (rev (dropWhile is_space s)))"

definition maxUnstructuredResponseTextBytes :: nat where "maxUnstructuredResponseTextBytes = 2048"

definition newUnstructuredResponseError :: "source_request \<Rightarrow> string \<Rightarrow> bool \<Rightarrow> int \<Rightarrow> go_error" where
  "newUnstructuredResponseError r body isText statusCode =
     (let body = take maxUnstructuredResponseTextBytes body;
          message = (if isText then TrimSpace body else ''unknown'');
          grp = (if 0 < length (rr_resource r) then gv_Group SchemeGroupVersion else [])
      in NewGenericServerResponse statusCode (rr_verb r) grp (rr_resource r) (rr_resourceName r) message)"

definition NewInternalError :: "go_error \<Rightarrow> go_error" where
  "NewInternalError err = StatusError (reason_of ''InternalError'') (''Internal error occurred: '' @ err_text err)"

definition stream_error_text :: "string \<Rightarrow> string" where
  "stream_error_text e = ''Stream error '' @ e @ '' when reading response body, may be caused by closed connection. Please retry.''"

definition read_error_text :: "string \<Rightarrow> string" where
  "read_error_text e = ''Unexpected error '' @ e @ '' when reading response body. Please retry.''"

text \<open>A response that cannot be decoded, as an error alone.\<close>

definition unstructured_result :: "'o serializers \<Rightarrow> source_request \<Rightarrow> http_response \<Rightarrow> string \<Rightarrow> 'o Result" where
  "unstructured_result sz r resp body =
     \<lparr>re_body = [], re_contentType = [],
      re_err = Some (newUnstructuredResponseError r body (isTextResponse sz resp) (hs_StatusCode resp), True),
      re_statusCode = 0, re_decoder = None\<rparr>"

text \<open>The last switch of \<open>transformResponse\<close>, with the decoder found.\<close>

definition with_decoder :: "'o serializers \<Rightarrow> source_request \<Rightarrow> http_response \<Rightarrow> string \<Rightarrow> 'o decoder option \<Rightarrow> 'o Result" where
  "with_decoder sz r resp body d =
     (let code = hs_StatusCode resp
      in \<lparr>re_body = body, re_contentType = hs_ContentType resp,
          re_err = (if code = 101 then None
                    else if code < 200 \<or> 206 < code
                    then Some (newUnstructuredResponseError r body (isTextResponse sz resp) code, True)
                    else None),
          re_statusCode = code, re_decoder = d\<rparr>)"

definition transformResponse :: "'o serializers \<Rightarrow> source_request \<Rightarrow> http_response \<Rightarrow> 'o Result" where
  "transformResponse sz r resp =
     (case hs_Body resp of
        StreamError e \<Rightarrow> error_result (PlainError (stream_error_text e))
      | ReadFails e \<Rightarrow> error_result (PlainError (read_error_text e))
      | ReadAll body \<Rightarrow>
          (let contentType = hs_ContentType resp; code = hs_StatusCode resp
           in if 0 < length contentType \<and> contentType \<noteq> content_ContentType then
                (case sz_ParseMediaType sz contentType of
                   Inl err \<Rightarrow> error_result (NewInternalError err)
                 | Inr mediaType \<Rightarrow>
                     (case sz_RenegotiatedDecoder sz contentType of
                        Inr d \<Rightarrow> with_decoder sz r resp body (Some d)
                      | Inl err \<Rightarrow>
                          if code \<noteq> 101 \<and> (code < 200 \<or> 206 < code)
                          then unstructured_result sz r resp body
                          else \<lparr>re_body = body, re_contentType = contentType, re_err = None, re_statusCode = code, re_decoder = None\<rparr>))
              else with_decoder sz r resp body (Some (sz_Decoder sz))))"

definition rest_Do :: "network \<Rightarrow> 'o serializers \<Rightarrow> source_request \<Rightarrow> (net, 'o Result) go" where
  "rest_Do network sz r =
     onErr (rest_do network r) (\<lambda>err. retG (error_result err)) (\<lambda>resp. retG (transformResponse sz r resp))"

text \<open>\<open>Result.Error\<close>: a status in the body is preferred to the error made from the code.\<close>

definition result_Error :: "'o Result \<Rightarrow> go_error option" where
  "result_Error res =
     (case re_err res of
        None \<Rightarrow> None
      | Some (err, unexpected) \<Rightarrow>
          (case re_decoder res of
             Some d \<Rightarrow>
               if \<not> unexpected \<or> length (re_body res) = 0 then Some err
               else (case dc_any d (re_body res) of
                       Inr (StatusObject t) \<Rightarrow> if ms_Status t = ''Failure'' then Some (FromObject t) else Some err
                     | _ \<Rightarrow> Some err)
           | None \<Rightarrow> Some err))"

text \<open>\<open>Result.Into\<close>: what the object holds afterwards, and the error.\<close>

definition result_Into :: "'o Result \<Rightarrow> 'o \<Rightarrow> 'o \<times> go_error option" where
  "result_Into res obj =
     (case re_err res of
        Some _ \<Rightarrow> (obj, result_Error res)
      | None \<Rightarrow>
          (case re_decoder res of
             None \<Rightarrow> (obj, Some (PlainError (''serializer for '' @ re_contentType res @ '' doesn'' @ [CHR 0x27] @ ''t exist'')))
           | Some d \<Rightarrow>
               if length (re_body res) = 0 then (obj, Some (PlainError ''0-length response''))
               else (case dc_into d (re_body res) of
                       DecodeFails err partial \<Rightarrow> (partial, Some err)
                     | DecodedInto out \<Rightarrow> (out, None)
                     | DecodedAny (StatusObject t) \<Rightarrow> (obj, if ms_Status t \<noteq> ''Success'' then Some (FromObject t) else None)
                     | DecodedAny OtherObject \<Rightarrow> (obj, None))))"

section \<open>The operations of the generated client\<close>

definition into :: "network \<Rightarrow> 'o serializers \<Rightarrow> source_request \<Rightarrow> 'o \<Rightarrow> (net, 'o \<times> go_error option) go" where
  "into network sz r result = thenG (rest_Do network sz r) (\<lambda>res. retG (result_Into res result))"

definition typed_Get :: "network \<Rightarrow> GitLabSource serializers \<Rightarrow> gitLabSources \<Rightarrow> string \<Rightarrow> GetOptions \<Rightarrow> (net, GitLabSource \<times> go_error option) go" where
  "typed_Get network sz c name opts = into network sz (client_Get c name opts) zero_source"

definition typed_List :: "network \<Rightarrow> GitLabSourceList serializers \<Rightarrow> gitLabSources \<Rightarrow> ListOptions \<Rightarrow> (net, GitLabSourceList \<times> go_error option) go" where
  "typed_List network sz c opts = into network sz (client_List c opts) zero_list"

definition typed_Create :: "network \<Rightarrow> GitLabSource serializers \<Rightarrow> gitLabSources \<Rightarrow> GitLabSource \<Rightarrow> (net, GitLabSource \<times> go_error option) go" where
  "typed_Create network sz c src = into network sz (client_Create c src) zero_source"

definition typed_Update :: "network \<Rightarrow> GitLabSource serializers \<Rightarrow> gitLabSources \<Rightarrow> GitLabSource \<Rightarrow> (net, GitLabSource \<times> go_error option) go" where
  "typed_Update network sz c src = into network sz (client_Update c src) zero_source"

definition typed_UpdateStatus :: "network \<Rightarrow> GitLabSource serializers \<Rightarrow> gitLabSources \<Rightarrow> GitLabSource \<Rightarrow> (net, GitLabSource \<times> go_error option) go" where
  "typed_UpdateStatus network sz c src = into network sz (client_UpdateStatus c src) zero_source"

definition typed_Delete :: "network \<Rightarrow> unit serializers \<Rightarrow> gitLabSources \<Rightarrow> string \<Rightarrow> DeleteOptions option \<Rightarrow> (net, go_error option) go" where
  "typed_Delete network sz c name opts = thenG (rest_Do network sz (client_Delete c name opts)) (\<lambda>res. retG (result_Error res))"

definition typed_DeleteCollection :: "network \<Rightarrow> unit serializers \<Rightarrow> gitLabSources \<Rightarrow> DeleteOptions option \<Rightarrow> ListOptions \<Rightarrow> (net, go_error option) go" where
  "typed_DeleteCollection network sz c opts lopts =
     thenG (rest_Do network sz (client_DeleteCollection c opts lopts)) (\<lambda>res. retG (result_Error res))"

definition typed_Patch :: "network \<Rightarrow> GitLabSource serializers \<Rightarrow> gitLabSources \<Rightarrow> string \<Rightarrow> string \<Rightarrow> string \<Rightarrow> string list \<Rightarrow> (net, GitLabSource \<times> go_error option) go" where
  "typed_Patch network sz c name pt data subresources = into network sz (client_Patch c name pt data subresources) zero_source"

text \<open>
  \<open>Watch\<close> sends once and does not wait: an empty watch, which ends at once, after an error that
  looks like an end of file, or a watch on the stream of the body.  The serializers of the client have a
  framer.  The message of an unexpected
  status leaves out the URL.
\<close>

datatype watch_stream = EmptyWatch | StreamWatch body_read

definition rest_Watch :: "network \<Rightarrow> unit serializers \<Rightarrow> source_request \<Rightarrow> (net, watch_stream) go" where
  "rest_Watch network sz r =
     (case rr_err r of
        Some err \<Rightarrow> failG err
      | None \<Rightarrow>
          seqG (modG (\<lambda>s. s\<lparr>nt_sent := nt_sent s @ [(rr_verb r, rest_path r, rr_params r, rr_body r)]\<rparr>))
          (thenG (getG (\<lambda>s. network (nt_sent s))) (\<lambda>answer.
           case answer of
             Inl err \<Rightarrow> if ne_EOF err then retG EmptyWatch else failG (ne_error err)
           | Inr resp \<Rightarrow>
               if hs_StatusCode resp \<noteq> 200
               then (case re_err (transformResponse sz r resp) of
                       Some (err, _) \<Rightarrow> failG err
                     | None \<Rightarrow> failG (PlainError (''got status: '' @ Itoa (hs_StatusCode resp))))
               else retG (StreamWatch (hs_Body resp)))))"

definition typed_Watch :: "network \<Rightarrow> unit serializers \<Rightarrow> gitLabSources \<Rightarrow> ListOptions \<Rightarrow> (net, watch_stream) go" where
  "typed_Watch network sz c opts = rest_Watch network sz (client_Watch c opts)"

end
