(* ===== verification/ExchangeProperties.thy ===== *)
theory ExchangeProperties
  imports RestExchange FakeProperties Reconciler
begin

text \<open>
  The properties of the exchange with the API server: how often a request is sent, when an error
  of the typed client is a NotFound, and how the real client and the fake one compare.
\<close>

section \<open>Attempts\<close>

text \<open>What makes the client send a request again: an answer that asks it to wait, or a reset connection of a read.\<close>

definition retryable :: "network \<Rightarrow> sent \<Rightarrow> sent list \<Rightarrow> bool" where
  "retryable network out sent =
     (case network sent of
        Inr resp \<Rightarrow> (hs_StatusCode resp = 429 \<or> 500 \<le> hs_StatusCode resp) \<and> (\<exists>i. hs_RetryAfter resp \<noteq> [] \<and> Atoi (hs_RetryAfter resp) = Inr i)
      | Inl err \<Rightarrow> ne_Reset err \<and> fst out = ''GET'')"

text \<open>What the last attempt gives.\<close>

definition last_answer :: "network \<Rightarrow> sent \<Rightarrow> sent list \<Rightarrow> http_response outcome" where
  "last_answer network out sent =
     (case network sent of
        Inr resp \<Rightarrow> Ok resp
      | Inl err \<Rightarrow> if ne_Reset err \<and> fst out = ''GET'' then Ok reset_response else Err (ne_error err))"

lemma checkWait_iff:
  "snd (checkWait resp) \<longleftrightarrow> (hs_StatusCode resp = 429 \<or> 500 \<le> hs_StatusCode resp)
     \<and> (\<exists>i. hs_RetryAfter resp \<noteq> [] \<and> Atoi (hs_RetryAfter resp) = Inr i)"
  by (auto simp: checkWait_def retryAfterSeconds_def Let_def split: sum.splits)

lemma reset_waits: "snd (checkWait reset_response)"
proof -
  have "Atoi ''1'' = Inr 1" by code_simp
  then show ?thesis by (simp add: checkWait_iff reset_response_def)
qed

lemma retryable_eq:
  "retryable network out sent = (case network sent of Inr resp \<Rightarrow> snd (checkWait resp) | Inl err \<Rightarrow> ne_Reset err \<and> fst out = ''GET'')"
  by (simp add: retryable_def checkWait_iff split: sum.split)

lemma request_loop_again:
  assumes "retryable network out (nt_sent s @ [out])" and "Suc retries < maxRetries"
  shows "\<exists>w. request_loop network out retries s
    = request_loop network out (Suc retries) (s\<lparr>nt_sent := nt_sent s @ [out], nt_waits := nt_waits s @ [w]\<rparr>)"
  using assms reset_waits
  by (cases "network (nt_sent s @ [out])")
    (auto simp: request_loop.simps [of network out retries s] retryable_eq Let_def)

lemma request_loop_stop:
  assumes "\<not> (retryable network out (nt_sent s @ [out]) \<and> Suc retries < maxRetries)"
  shows "request_loop network out retries s = (last_answer network out (nt_sent s @ [out]), s\<lparr>nt_sent := nt_sent s @ [out]\<rparr>)"
  using assms
  by (cases "network (nt_sent s @ [out])")
    (auto simp: request_loop.simps [of network out retries s] retryable_eq last_answer_def Let_def)

lemma request_loop_ok:
  "retries < maxRetries \<Longrightarrow> \<exists>k t. request_loop network out retries s = (last_answer network out (nt_sent t), t)
     \<and> 0 < k \<and> retries + k \<le> maxRetries \<and> nt_sent t = nt_sent s @ replicate k out
     \<and> length (nt_waits t) = length (nt_waits s) + (k - 1)
     \<and> (\<forall>i. 0 < i \<and> i < k \<longrightarrow> retryable network out (nt_sent s @ replicate i out))
     \<and> (retries + k < maxRetries \<longrightarrow> \<not> retryable network out (nt_sent t))"
proof (induction "maxRetries - retries" arbitrary: retries s)
  case (Suc m)
  show ?case
  proof (cases "retryable network out (nt_sent s @ [out]) \<and> Suc retries < maxRetries")
    case True
    then obtain w where w: "request_loop network out retries s
        = request_loop network out (Suc retries) (s\<lparr>nt_sent := nt_sent s @ [out], nt_waits := nt_waits s @ [w]\<rparr>)"
      using request_loop_again by blast
    let ?s = "s\<lparr>nt_sent := nt_sent s @ [out], nt_waits := nt_waits s @ [w]\<rparr>"
    have "m = maxRetries - Suc retries" using Suc(2) by simp
    from Suc(1) [OF this, of ?s] True obtain k t where k:
      "request_loop network out (Suc retries) ?s = (last_answer network out (nt_sent t), t)"
      "0 < k" "Suc retries + k \<le> maxRetries" "nt_sent t = nt_sent s @ out # replicate k out"
      "length (nt_waits t) = Suc (length (nt_waits s)) + (k - 1)"
      "\<forall>i. 0 < i \<and> i < k \<longrightarrow> retryable network out (nt_sent s @ out # replicate i out)"
      "Suc retries + k < maxRetries \<longrightarrow> \<not> retryable network out (nt_sent t)" by auto
    have "retryable network out (nt_sent s @ replicate i out)" if "0 < i" "i < Suc k" for i
      using that True k(6) by (cases i; cases "i - 1") auto
    with k w show ?thesis by (intro exI [of _ "Suc k"] exI [of _ t]) auto
  next
    case False
    from request_loop_stop [OF this] Suc(3) show ?thesis
      by (intro exI [of _ 1] exI [of _ "s\<lparr>nt_sent := nt_sent s @ [out]\<rparr>"]) (use False in \<open>auto\<close>)
  qed
qed simp

lemma request_cases:
  "(\<exists>err. rest_send r = Inl err \<and> rest_do network r s = (Err err, s))
   \<or> (\<exists>out k t. rest_send r = Inr out \<and> rest_do network r s = (last_answer network out (nt_sent t), t)
        \<and> 0 < k \<and> k \<le> 10 \<and> nt_sent t = nt_sent s @ replicate k out \<and> length (nt_waits t) = length (nt_waits s) + (k - 1)
        \<and> (\<forall>i. 0 < i \<and> i < k \<longrightarrow> retryable network out (nt_sent s @ replicate i out))
        \<and> (k < 10 \<longrightarrow> \<not> retryable network out (nt_sent t)))"
proof (cases "rest_send r")
  case (Inl err)
  then show ?thesis by (simp add: rest_do_def failG_def)
next
  case (Inr out)
  have "(0 :: nat) < maxRetries" by (simp add: maxRetries_def)
  from request_loop_ok [OF this, of network out s] Inr show ?thesis by (simp add: rest_do_def maxRetries_def)
qed

text \<open>
  C30: how often a request is sent.  One that the client refuses is not sent.  Any other is sent at
  least once and at most ten times, each time the same.  It is sent again only after an answer with
  code 429 or from 500 on that carries a number of seconds to wait, or, for a read, after a reset connection;
  so no write is repeated after an error of the network, and none after the server has accepted it.
  The client stops before ten attempts only at an answer that does not ask it to go on, and
  the last answer is the one it gives.
\<close>

theorem request_attempts:
  "(\<exists>err. rest_send r = Inl err \<and> rest_do network r s = (Err err, s))
   \<or> (\<exists>out k t. rest_send r = Inr out \<and> rest_do network r s = (last_answer network out (nt_sent t), t)
        \<and> 0 < k \<and> k \<le> 10 \<and> nt_sent t = nt_sent s @ replicate k out \<and> length (nt_waits t) = length (nt_waits s) + (k - 1)
        \<and> (\<forall>i. 0 < i \<and> i < k \<longrightarrow> retryable network out (nt_sent s @ replicate i out))
        \<and> (k < 10 \<longrightarrow> \<not> retryable network out (nt_sent t)))"
  by (rule request_cases)

section \<open>Errors\<close>

definition failed :: "int \<Rightarrow> bool" where
  "failed code \<longleftrightarrow> code \<noteq> 101 \<and> (code < 200 \<or> 206 < code)"

text \<open>The status the body of a failed answer holds.\<close>

definition status_in :: "'o serializers \<Rightarrow> string \<Rightarrow> meta_status option" where
  "status_in sz body =
     (if body = [] then None
      else case dc_any (sz_Decoder sz) body of
             Inr (StatusObject st) \<Rightarrow> if ms_Status st = ''Failure'' then Some st else None
           | _ \<Rightarrow> None)"

definition plain_answer :: "http_response \<Rightarrow> string \<Rightarrow> bool" where
  "plain_answer resp body \<longleftrightarrow> hs_Body resp = ReadAll body \<and> hs_ContentType resp \<in> {[], content_ContentType}"

lemma into_failed:
  assumes "plain_answer resp body" and "failed (hs_StatusCode resp)"
  shows "result_Into (transformResponse sz r resp) obj
    = (obj, Some (case status_in sz body of Some st \<Rightarrow> FromObject st
                  | None \<Rightarrow> newUnstructuredResponseError r body (isTextResponse sz resp) (hs_StatusCode resp)))"
  using assms
  by (auto simp: transformResponse_def plain_answer_def with_decoder_def failed_def result_Into_def result_Error_def status_in_def Let_def
      split: sum.split any_object.split)

lemma into_answered:
  assumes "plain_answer resp body" and "\<not> failed (hs_StatusCode resp)"
  shows "result_Into (transformResponse sz r resp) obj
    = (if body = [] then (obj, Some (PlainError ''0-length response''))
       else case dc_into (sz_Decoder sz) body of
              DecodeFails err partial \<Rightarrow> (partial, Some err)
            | DecodedInto out \<Rightarrow> (out, None)
            | DecodedAny (StatusObject st) \<Rightarrow> (obj, if ms_Status st \<noteq> ''Success'' then Some (FromObject st) else None)
            | DecodedAny OtherObject \<Rightarrow> (obj, None))"
  using assms
  by (auto simp: transformResponse_def plain_answer_def with_decoder_def failed_def result_Into_def Let_def
      split: decoded.split any_object.split)

lemma into_total:
  "into network sz r obj s = (case rest_do network r s of
      (Ok resp, t) \<Rightarrow> (Ok (result_Into (transformResponse sz r resp) obj), t)
    | (Err e, t) \<Rightarrow> (Ok (obj, Some e), t)
    | (Panic, t) \<Rightarrow> (Panic, t))"
  by (simp add: into_def rest_Do_def thenG_def onErr_def retG_def error_result_def result_Into_def result_Error_def
      split: outcome.split prod.split)

lemma rest_do_returns: "fst (rest_do network r s) \<noteq> Panic"
proof -
  have "last_answer network out sent \<noteq> Panic" for out sent by (simp add: last_answer_def split: sum.split)
  with request_cases [of r network s] show ?thesis by (elim disjE exE conjE) simp_all
qed

lemma into_returns: "\<exists>obj' err t. into network sz r obj s = (Ok (obj', err), t)"
  using rest_do_returns [of network r s] by (auto simp: into_total split: prod.split outcome.split)

text \<open>Whether an error of the client is a NotFound, from the answer alone.\<close>

definition says_not_found :: "'o serializers \<Rightarrow> http_response \<Rightarrow> string \<Rightarrow> bool" where
  "says_not_found sz resp body =
     (case status_in sz body of Some st \<Rightarrow> ms_Reason st = ''NotFound'' | None \<Rightarrow> hs_StatusCode resp = 404)"

lemma generic_reason_NotFound: "generic_reason code verb = ''NotFound'' \<longleftrightarrow> code = 404"
  by (simp add: generic_reason_def)

lemma reason_of_NotFound: "reason_of x = StatusReasonNotFound \<longleftrightarrow> x = ''NotFound''"
  by (simp add: reason_of_def)

lemma IsNotFound_status: "IsNotFound (StatusError why msg) \<longleftrightarrow> why = StatusReasonNotFound"
  by (simp add: IsNotFound_def split: status_reason.split)

lemma failed_not_found:
  "IsNotFound (case status_in sz body of Some st \<Rightarrow> FromObject st
      | None \<Rightarrow> newUnstructuredResponseError r b isText (hs_StatusCode resp)) \<longleftrightarrow> says_not_found sz resp body"
  by (simp add: says_not_found_def FromObject_def newUnstructuredResponseError_def NewGenericServerResponse_def Let_def
      IsNotFound_status reason_of_NotFound generic_reason_NotFound split: option.split)

lemma into_failure:
  assumes "rest_do network r s = (Ok resp, t)" and "plain_answer resp body" and "failed (hs_StatusCode resp)"
  shows "\<exists>err. into network sz r obj s = (Ok (obj, Some err), t) \<and> (IsNotFound err \<longleftrightarrow> says_not_found sz resp body)"
  using assms by (simp add: into_total into_failed failed_not_found)

lemma Delete_failure:
  assumes "rest_do network (client_Delete c name opts) s = (Ok resp, t)" and "plain_answer resp body" and "failed (hs_StatusCode resp)"
  shows "\<exists>err. typed_Delete network sz c name opts s = (Ok (Some err), t) \<and> (IsNotFound err \<longleftrightarrow> says_not_found sz resp body)"
proof -
  have "result_Error (transformResponse sz q resp) = snd (result_Into (transformResponse sz q resp) ())" for q
  proof -
    have "re_err (transformResponse sz q resp) \<noteq> None"
      using assms(2,3) by (auto simp: transformResponse_def plain_answer_def with_decoder_def failed_def Let_def)
    then obtain e where "re_err (transformResponse sz q resp) = Some e" by blast
    then show ?thesis by (simp add: result_Into_def)
  qed
  then show ?thesis
    using assms(1) into_failed [OF assms(2,3), of sz _ "()"]
    by (simp add: typed_Delete_def rest_Do_def thenG_def onErr_def retG_def failed_not_found)
qed


section \<open>The real client and the fake one\<close>

lemma read_request:
  assumes "list_all plain_segment base" and "cfg_basePath cfg = path_of base"
    and "IsValidPathSegmentName ns = []" and "ns \<noteq> []" and "IsValidPathSegmentName name = []" and "name \<noteq> []"
  shows "rest_send (client_Get (newGitLabSources (NewForConfig ua cfg) ns) name opts)
    = Inr (''GET'', path_of (api_segments base @ [''namespaces'', ns, ''gitlabsources'', name]), [OptGet opts], None)"
proof -
  let ?cl = "NewForConfig ua cfg"
  let ?r = "client_Get (newGitLabSources ?cl ns) name opts"
  have r: "?r = (Verb ?cl ''GET'')\<lparr>rr_namespaceSet := True, rr_namespace := ns, rr_resource := ''gitlabsources'',
      rr_resourceName := name, rr_params := [OptGet opts]\<rparr>"
    using assms segments(5) by (simp add: client_Get_def newGitLabSources_def Namespace_def Resource_def Name_def VersionedParams_def)
  have "rest_path ?r = path_of (api_segments base @ [''namespaces'', ns, ''gitlabsources'', name])"
    using rest_path_parts [OF api_segments_plain [OF assms(1)], of ?r] Verb_prefix [OF assms(1,2)]
      valid_segment [OF assms(3,4)] valid_segment [OF assms(5,6)]
    by (simp add: r api_segments_def)
  then show ?thesis using assms(4) by (simp add: r rest_send_def)
qed

text \<open>The answer of a server to a read: the object encoded, or not found.\<close>

definition read_answer :: "(GitLabSource \<Rightarrow> string) \<Rightarrow> GitLabSource option \<Rightarrow> http_response" where
  "read_answer encode found =
     \<lparr>hs_StatusCode = (case found of Some _ \<Rightarrow> 200 | None \<Rightarrow> 404), hs_ContentType = content_ContentType, hs_RetryAfter = [],
      hs_Body = ReadAll (case found of Some obj \<Rightarrow> encode obj | None \<Rightarrow> [])\<rparr>"

lemma read_once:
  assumes "rest_send r = Inr out" and "network (nt_sent s @ [out]) = Inr (read_answer encode found)"
  shows "rest_do network r s = (Ok (read_answer encode found), s\<lparr>nt_sent := nt_sent s @ [out]\<rparr>)"
  using assms request_loop_stop [of network out s 0]
  by (simp add: rest_do_def retryable_def last_answer_def read_answer_def split: option.splits)

definition demo_decoder :: "GitLabSource \<Rightarrow> GitLabSource decoder" where
  "demo_decoder obj = \<lparr>dc_into = (\<lambda>_. DecodedInto obj), dc_any = (\<lambda>_. Inr OtherObject)\<rparr>"

definition demo_serializers :: "'o decoder \<Rightarrow> 'o serializers" where
  "demo_serializers d = \<lparr>sz_Decoder = d, sz_RenegotiatedDecoder = (\<lambda>_. Inr d), sz_ParseMediaType = Inr\<rparr>"

definition unit_serializers :: "unit serializers" where
  "unit_serializers = demo_serializers \<lparr>dc_into = (\<lambda>_. DecodedInto ()), dc_any = (\<lambda>_. Inr OtherObject)\<rparr>"

definition demo_client :: gitLabSources where
  "demo_client = newGitLabSources (NewForConfig [] demo_config) ''ns''"

definition demo_options :: GetOptions where
  "demo_options = \<lparr>go_ResourceVersion = [], go_IncludeUninitialized = False\<rparr>"

definition idle_net :: net where "idle_net = \<lparr>nt_sent = [], nt_waits = []\<rparr>"

lemma demo_request:
  "rest_send (client_Get demo_client ''src'' demo_options)
    = Inr (''GET'', path_of (api_segments [] @ [''namespaces'', ''ns'', ''gitlabsources'', ''src'']), [OptGet demo_options], None)"
  unfolding demo_client_def
  by (rule read_request) (simp_all add: demo_config_def path_of_def IsValidPathSegmentName_def)

definition busy :: http_response where
  "busy = \<lparr>hs_StatusCode = 503, hs_ContentType = [], hs_RetryAfter = ''1'', hs_Body = ReadAll []\<rparr>"

text \<open>A server that is always overloaded is asked ten times.\<close>

theorem request_attempts_witness:
  "\<exists>t. rest_do (\<lambda>_. Inr busy) (client_Get demo_client ''src'' demo_options) idle_net = (Ok busy, t) \<and> length (nt_sent t) = 10"
proof -
  let ?r = "client_Get demo_client ''src'' demo_options"
  have "Atoi ''1'' = Inr 1" by code_simp
  then have r: "retryable (\<lambda>_. Inr busy) out sent" for out sent by (simp add: retryable_def busy_def)
  have "last_answer (\<lambda>_. Inr busy) out sent = Ok busy" for out sent by (simp add: last_answer_def)
  then show ?thesis
    using request_attempts [of ?r "\<lambda>_. Inr busy" idle_net] demo_request r by (auto simp: idle_net_def)
qed


text \<open>
  Reads of the fake client and of the real one.  Where the server answers a read with the object the
  fake client holds, encoded so that the client decodes it again, and with 404 if it holds none,
  both return that object without an error, and both return a NotFound if there is none.  They
  differ in what else they return then: the fake client nil, the real one an empty
  source, so a test that sees nil does not show what the program sees.
\<close>

theorem fake_agrees_with_real:
  assumes "list_all plain_segment base" and "cfg_basePath cfg = path_of base"
    and "IsValidPathSegmentName ns = []" and "ns \<noteq> []" and "IsValidPathSegmentName name = []" and "name \<noteq> []"
    and "fake_inv fk"
    and "network (nt_sent s @ [(''GET'', path_of (api_segments base @ [''namespaces'', ns, ''gitlabsources'', name]), [OptGet opts], None)])
      = Inr (read_answer encode (fake_map fk (ns, name)))"
    and "\<And>obj. fake_map fk (ns, name) = Some obj \<Longrightarrow> encode obj \<noteq> [] \<and> dc_into (sz_Decoder sz) (encode obj) = DecodedInto obj"
  shows "\<exists>real fake t fk'.
      typed_Get network sz (newGitLabSources (NewForConfig ua cfg) ns) name opts s = (Ok real, t)
    \<and> fake_Get merge (fake_GitLabSources ns) name fk = (Ok fake, fk')
    \<and> length (nt_sent t) = Suc (length (nt_sent s))
    \<and> (case fake_map fk (ns, name) of
         Some obj \<Rightarrow> real = (obj, None) \<and> fake = (Some obj, None)
       | None \<Rightarrow> \<exists>e e'. real = (zero_source, Some e) \<and> fake = (None, Some e') \<and> IsNotFound e \<and> IsNotFound e')"
proof -
  let ?found = "fake_map fk (ns, name)" and ?r = "client_Get (newGitLabSources (NewForConfig ua cfg) ns) name opts"
  note sent = read_once [OF read_request [OF assms(1-6), of ua opts], of network s encode ?found, OF assms(8)]
  obtain fk' where fake: "fake_Get merge (fake_GitLabSources ns) name fk
      = (Ok (?found, if ?found = None then Some (status_NewNotFound gitlabsourcesResource name) else None), fk')"
    using fake_Get_map [OF assms(7,4,6)] by blast
  show ?thesis
  proof (cases ?found)
    case None
    have "plain_answer (read_answer encode None) []" "failed (hs_StatusCode (read_answer encode None))"
      "says_not_found sz (read_answer encode None) []"
      by (simp_all add: plain_answer_def read_answer_def failed_def says_not_found_def status_in_def)
    with into_failure [OF sent [unfolded None], of "[]" sz zero_source] fake None show ?thesis
      by (auto simp: typed_Get_def status_NewNotFound_def IsNotFound_status)
  next
    case (Some obj)
    have "plain_answer (read_answer encode (Some obj)) (encode obj)" "\<not> failed (hs_StatusCode (read_answer encode (Some obj)))"
      by (simp_all add: plain_answer_def read_answer_def failed_def)
    note answered = into_answered [OF this, of sz ?r zero_source]
    show ?thesis using answered sent fake Some assms(9) [of obj] by (simp add: typed_Get_def into_total)
  qed
qed

definition held_source :: GitLabSource where
  "held_source = zero_source\<lparr>gs_meta := empty_meta\<lparr>om_Namespace := ''ns'', om_Name := ''src''\<rparr>\<rparr>"

definition held_client :: fakeClientset where
  "held_client = put_objects gitlabsourcesResource [held_source] empty_clientset"

theorem fake_agrees_with_real_witness:
  "\<exists>t fk'. typed_Get (\<lambda>_. Inr (read_answer (\<lambda>_. ''{}'') (Some held_source))) (demo_serializers (demo_decoder held_source))
        demo_client ''src'' demo_options idle_net = (Ok (held_source, None), t)
      \<and> fake_Get (\<lambda>obj _. Inr obj) (fake_GitLabSources ''ns'') ''src'' held_client = (Ok (Some held_source, None), fk')"
proof -
  have held: "fake_map held_client (''ns'', ''src'') = Some held_source" "fake_inv held_client"
    by (simp_all add: held_client_def held_source_def fake_map_def fake_inv_def objects_of_def put_objects_def kv_def okey_def empty_clientset_def)
  show ?thesis
    using fake_agrees_with_real [of "[]" demo_config "''ns''" "''src''" held_client "\<lambda>_. Inr (read_answer (\<lambda>_. ''{}'') (Some held_source))" idle_net demo_options
        "\<lambda>_. ''{}''" "demo_serializers (demo_decoder held_source)" "[]" "\<lambda>obj _. Inr obj"] held
    by (auto simp: demo_client_def demo_config_def path_of_def IsValidPathSegmentName_def demo_serializers_def demo_decoder_def)
qed

end
