(* ===== verification/GitLabRequests.thy ===== *)
theory GitLabRequests
  imports Demo
begin

text \<open>
  What go-gitlab sends for the three requests of the webhook client (\<open>projects.go\<close>, \<open>NewRequest\<close>
  of \<open>gitlab.go\<close>), down to the path on the wire, and what follows from the list being asked
  for without a page.  The body of a new hook is its options, before they are encoded; the
  header \<open>PRIVATE-TOKEN\<close> is the token.
\<close>

section \<open>Escaped paths\<close>

text \<open>\<open>url.PathEscape\<close>, \<open>url.PathUnescape\<close>, \<open>validEncodedPath\<close> and \<open>EscapedPath\<close> of \<open>net/url\<close>\<close>

definition PathEscape :: "string \<Rightarrow> string" where
  "PathEscape s = escape encodePathSegment s"

definition PathUnescape :: "string \<Rightarrow> string option" where
  "PathUnescape s = unescape encodePathSegment s"

definition validEncodedPath :: "string \<Rightarrow> bool" where
  "validEncodedPath s = list_all (\<lambda>c.
     c \<in> set [CHR ''!'', CHR ''$'', CHR ''&'', CHR 0x27, CHR ''('', CHR '')'', CHR ''*'', CHR ''+'', CHR '','', CHR '';'',
              CHR ''='', CHR '':'', CHR ''@'', CHR ''['', CHR '']'', CHR ''%''] \<or> \<not> shouldEscape c encodePath) s"

definition EscapedPath :: "url \<Rightarrow> string" where
  "EscapedPath u =
     (if url_RawPath u \<noteq> [] \<and> validEncodedPath (url_RawPath u) \<and> unescape encodePath (url_RawPath u) = Some (url_Path u)
      then url_RawPath u
      else if url_Path u = ''*'' then ''*''
      else escape encodePath (url_Path u))"

section \<open>Requests\<close>

record gitlab_request =
  hr_Method :: string
  hr_URL :: url
  hr_Token :: string
  hr_Body :: "AddProjectHookOptions option"

definition pathEscape :: "string \<Rightarrow> string" where
  "pathEscape s = ReplaceAll (PathEscape s) ''.'' ''%2E''"

text \<open>
  \<open>NewRequest\<close> for a client with a private token.  \<open>opt\<close> is what is to be sent: nothing, the nil
  options of a list, which encode to the empty query, or the options of a hook.
\<close>

datatype request_opt = NoOpt | NilListOptions | HookOptions AddProjectHookOptions

definition gitlab_NewRequest :: "gitlab_client \<Rightarrow> string \<Rightarrow> string \<Rightarrow> request_opt \<Rightarrow> go_error + gitlab_request" where
  "gitlab_NewRequest c method path opt =
     (case PathUnescape path of
        None \<Rightarrow> Inl (URLError path)
      | Some unescaped \<Rightarrow>
          (let u = (gc_base c)\<lparr>url_RawPath := url_Path (gc_base c) @ path, url_Path := url_Path (gc_base c) @ unescaped\<rparr>;
               u1 = (if opt = NilListOptions then u\<lparr>url_RawQuery := []\<rparr> else u);
               u2 = (if method = ''POST'' \<or> method = ''PUT'' then u1\<lparr>url_RawQuery := []\<rparr> else u1)
           in Inr \<lparr>hr_Method = method, hr_URL = u2, hr_Token = gc_token c,
                   hr_Body = (if method = ''POST'' \<or> method = ''PUT''
                              then (case opt of HookOptions os \<Rightarrow> Some os | _ \<Rightarrow> None) else None)\<rparr>))"

definition ListProjectHooks :: "gitlab_client \<Rightarrow> string \<Rightarrow> go_error + gitlab_request" where
  "ListProjectHooks c pid = gitlab_NewRequest c ''GET'' (''projects/'' @ pathEscape pid @ ''/hooks'') NilListOptions"

definition AddProjectHook :: "gitlab_client \<Rightarrow> string \<Rightarrow> AddProjectHookOptions \<Rightarrow> go_error + gitlab_request" where
  "AddProjectHook c pid os = gitlab_NewRequest c ''POST'' (''projects/'' @ pathEscape pid @ ''/hooks'') (HookOptions os)"

definition DeleteProjectHook :: "gitlab_client \<Rightarrow> string \<Rightarrow> int \<Rightarrow> go_error + gitlab_request" where
  "DeleteProjectHook c pid hook = gitlab_NewRequest c ''DELETE'' (''projects/'' @ pathEscape pid @ ''/hooks/'' @ Itoa hook) NoOpt"

section \<open>Escaping a project\<close>

definition escape_char :: "char \<Rightarrow> string" where
  "escape_char c = (if shouldEscape c encodePathSegment \<or> c = CHR ''.''
     then [CHR ''%'', hex_digit (of_char c div 16), hex_digit (of_char c mod 16)] else [c])"

lemma hex_digit_table: "list_all (\<lambda>d. hex_digit d \<in> set ''0123456789ABCDEF'' \<and> ishex (hex_digit d) \<and> unhex (hex_digit d) = d) [0..<16]"
  by code_simp

lemma hex_digit: "d < 16 \<Longrightarrow> hex_digit d \<in> set ''0123456789ABCDEF'' \<and> ishex (hex_digit d) \<and> unhex (hex_digit d) = d"
  using hex_digit_table by (auto simp: list_all_iff)

lemma char_hex: "(of_char c :: nat) div 16 < 16" "(of_char c :: nat) mod 16 < 16"
  "char_of (16 * ((of_char c :: nat) div 16) + of_char c mod 16) = c"
proof -
  have "(of_char c :: nat) < 256" using of_char_eq_iff by (cases c) (simp add: of_char_def)
  then show "(of_char c :: nat) div 16 < 16" by (intro less_mult_imp_div_less) simp
qed simp_all

lemma escape_char_dot: "escape_char CHR ''.'' = ''%2E''"
  by code_simp

lemma escape_char_not:
  "c \<noteq> CHR ''.'' \<Longrightarrow> CHR ''.'' \<notin> set (escape_char c)"
  using hex_digit [OF char_hex(1) [of c]] hex_digit [OF char_hex(2) [of c]] by (auto simp: escape_char_def)

lemma pathEscape_chars: "pathEscape s = concat (map escape_char s)"
proof (induction s)
  case Nil
  then show ?case by (simp add: pathEscape_def PathEscape_def escape_def ReplaceAll_Nil)
next
  case (Cons c s)
  show ?case
  proof (cases "c = CHR ''.''")
    case True
    have "\<not> shouldEscape CHR ''.'' encodePathSegment" by code_simp
    then have "PathEscape (c # s) = ''.'' @ PathEscape s" by (simp add: True PathEscape_def escape_def)
    with Cons show ?thesis by (simp add: True pathEscape_def ReplaceAll_hit escape_char_dot del: append_Cons)
  next
    case False
    then have "PathEscape (c # s) = escape_char c @ PathEscape s" by (simp add: PathEscape_def escape_def escape_char_def)
    with Cons escape_char_not [OF False] show ?thesis by (simp add: pathEscape_def ReplaceAll_absent_append)
  qed
qed

lemma unescape_escape_char: "unescape encodePathSegment (escape_char c @ t) = map_option ((#) c) (unescape encodePathSegment t)"
  "unescape encodePath (escape_char c @ t) = map_option ((#) c) (unescape encodePath t)"
proof -
  have "char_of (unhex (hex_digit (of_char c div 16)) * 16 + unhex (hex_digit (of_char c mod 16))) = c"
    "ishex (hex_digit (of_char c div 16))" "ishex (hex_digit (of_char c mod 16))"
    using hex_digit [OF char_hex(1) [of c]] hex_digit [OF char_hex(2) [of c]] char_hex(3) [of c] by (simp_all add: mult.commute)
  moreover have "shouldEscape CHR ''%'' encodePathSegment" by code_simp
  ultimately show "unescape encodePathSegment (escape_char c @ t) = map_option ((#) c) (unescape encodePathSegment t)"
    "unescape encodePath (escape_char c @ t) = map_option ((#) c) (unescape encodePath t)"
    by (auto simp: escape_char_def)
qed

lemma unescape_pathEscape: "unescape encodePathSegment (pathEscape p @ t) = map_option ((@) p) (unescape encodePathSegment t)"
  "unescape encodePath (pathEscape p @ t) = map_option ((@) p) (unescape encodePath t)"
proof -
  have "unescape encodePathSegment (concat (map escape_char p) @ t) = map_option ((@) p) (unescape encodePathSegment t)"
    by (induction p; cases "unescape encodePathSegment t") (simp_all add: unescape_escape_char)
  moreover have "unescape encodePath (concat (map escape_char p) @ t) = map_option ((@) p) (unescape encodePath t)"
    by (induction p; cases "unescape encodePath t") (simp_all add: unescape_escape_char)
  ultimately show "unescape encodePathSegment (pathEscape p @ t) = map_option ((@) p) (unescape encodePathSegment t)"
    "unescape encodePath (pathEscape p @ t) = map_option ((@) p) (unescape encodePath t)" by (simp_all add: pathEscape_chars)
qed

lemma unescape_pathEscape_all: "PathUnescape (pathEscape p) = Some p"
  using unescape_pathEscape(1) [of p "[]"] by (simp add: PathUnescape_def)

lemma pathEscape_inj: "pathEscape p = pathEscape q \<longleftrightarrow> p = q"
  using unescape_pathEscape_all by (metis option.inject)

text \<open>The letters of an escaped project.\<close>

lemma segment_char:
  assumes "\<not> shouldEscape c encodePathSegment"
  shows "c \<noteq> CHR ''/'' \<and> c \<noteq> CHR ''?'' \<and> c \<noteq> CHR ''#'' \<and> \<not> shouldEscape c encodePath"
proof -
  have "shouldEscape CHR ''/'' encodePathSegment" "shouldEscape CHR ''?'' encodePathSegment" "shouldEscape CHR ''#'' encodePathSegment"
    by code_simp+
  moreover have "\<not> shouldEscape c encodePath" using assms by (auto simp: shouldEscape_def split: if_splits)
  ultimately show ?thesis using assms by auto
qed

lemma pathEscape_segment:
  "c \<in> set (pathEscape p) \<Longrightarrow> c \<notin> {CHR ''/'', CHR ''.'', CHR ''?'', CHR ''#''} \<and> (c = CHR ''%'' \<or> \<not> shouldEscape c encodePath)"
proof -
  assume "c \<in> set (pathEscape p)"
  then obtain d where d: "c \<in> set (escape_char d)" by (auto simp: pathEscape_chars)
  have "list_all (\<lambda>x. x \<notin> {CHR ''/'', CHR ''.'', CHR ''?'', CHR ''#''} \<and> \<not> shouldEscape x encodePath) ''0123456789ABCDEF''" by code_simp
  then have hex: "\<forall>x \<in> set ''0123456789ABCDEF''. x \<notin> {CHR ''/'', CHR ''.'', CHR ''?'', CHR ''#''} \<and> \<not> shouldEscape x encodePath"
    by (simp only: list_all_iff)
  show ?thesis
  proof (cases "shouldEscape d encodePathSegment \<or> d = CHR ''.''")
    case True
    then have "c = CHR ''%'' \<or> c = hex_digit (of_char d div 16) \<or> c = hex_digit (of_char d mod 16)"
      using d by (auto simp: escape_char_def)
    then have "c = CHR ''%'' \<or> c \<in> set ''0123456789ABCDEF''"
      using hex_digit [OF char_hex(1) [of d]] hex_digit [OF char_hex(2) [of d]] by blast
    then show ?thesis
    proof
      assume "c \<in> set ''0123456789ABCDEF''"
      from bspec [OF hex this] show ?thesis by blast
    qed simp
  next
    case False
    then show ?thesis using d segment_char by (auto simp: escape_char_def)
  qed
qed

text \<open>Text without escapes passes.\<close>

lemma unescape_literal:
  "CHR ''%'' \<notin> set p \<Longrightarrow> unescape encodePathSegment (p @ t) = map_option ((@) p) (unescape encodePathSegment t)"
  "CHR ''%'' \<notin> set p \<Longrightarrow> unescape encodePath (p @ t) = map_option ((@) p) (unescape encodePath t)"
proof -
  show "CHR ''%'' \<notin> set p \<Longrightarrow> unescape encodePathSegment (p @ t) = map_option ((@) p) (unescape encodePathSegment t)"
    by (induction p; cases "unescape encodePathSegment t") auto
  show "CHR ''%'' \<notin> set p \<Longrightarrow> unescape encodePath (p @ t) = map_option ((@) p) (unescape encodePath t)"
    by (induction p; cases "unescape encodePath t") auto
qed

text \<open>A path of literal parts around an escaped project, on a plain base path.\<close>

lemma NewRequest_project:
  assumes base: "plain_path (url_Path (gc_base c))" and tail: "plain_path tail"
  obtains req where "gitlab_NewRequest c method (''projects/'' @ pathEscape p @ tail) opt = Inr req"
    and "hr_Method req = method" and "hr_Token req = gc_token c"
    and "EscapedPath (hr_URL req) = url_Path (gc_base c) @ ''projects/'' @ pathEscape p @ tail"
    and "url_Path (hr_URL req) = url_Path (gc_base c) @ ''projects/'' @ p @ tail"
    and "url_Host (hr_URL req) = url_Host (gc_base c)" and "url_Scheme (hr_URL req) = url_Scheme (gc_base c)"
    and "url_RawQuery (hr_URL req) = (if opt = NilListOptions \<or> method = ''POST'' \<or> method = ''PUT'' then [] else url_RawQuery (gc_base c))"
    and "hr_Body req = (if method = ''POST'' \<or> method = ''PUT'' then (case opt of HookOptions os \<Rightarrow> Some os | _ \<Rightarrow> None) else None)"
proof -
  let ?b = "url_Path (gc_base c)" and ?path = "''projects/'' @ pathEscape p @ tail"
  have plain: "plain_path x \<Longrightarrow> CHR ''%'' \<notin> set x" for x using plain_char_not(1) by (fastforce simp: plain_path_def list_all_iff)
  have lit: "CHR ''%'' \<notin> set ''projects/''" by simp
  have un: "PathUnescape ?path = Some (''projects/'' @ p @ tail)" "unescape encodePath (?b @ ?path) = Some (?b @ ''projects/'' @ p @ tail)"
    using unescape_literal [OF plain [OF base]] unescape_literal [OF lit] unescape_literal [OF plain [OF tail], of "[]"]
    by (simp_all only: PathUnescape_def unescape_pathEscape append_Nil2 unescape.simps option.map)
  have ok: "validEncodedPath (?b @ ?path)"
  proof -
    have "plain_path x \<Longrightarrow> validEncodedPath x" for x
      using plain_char_shouldEscape slash_shouldEscape by (fastforce simp: validEncodedPath_def plain_path_def list_all_iff)
    moreover have "validEncodedPath (pathEscape p)" using pathEscape_segment by (fastforce simp: validEncodedPath_def list_all_iff)
    moreover have "validEncodedPath ''projects/''" by code_simp
    ultimately show ?thesis using base tail by (simp add: validEncodedPath_def)
  qed
  let ?u = "(gc_base c)\<lparr>url_RawPath := ?b @ ?path, url_Path := ?b @ ''projects/'' @ p @ tail\<rparr>"
  let ?q = "if opt = NilListOptions \<or> method = ''POST'' \<or> method = ''PUT'' then [] else url_RawQuery (gc_base c)"
  let ?body = "if method = ''POST'' \<or> method = ''PUT'' then (case opt of HookOptions os \<Rightarrow> Some os | _ \<Rightarrow> None) else None"
  define u where "u = ?u"
  have req: "gitlab_NewRequest c method ?path opt = Inr \<lparr>hr_Method = method, hr_URL = u\<lparr>url_RawQuery := ?q\<rparr>, hr_Token = gc_token c, hr_Body = ?body\<rparr>"
    unfolding gitlab_NewRequest_def un(1) option.case Let_def u_def [symmetric]
    by (cases "method = ''POST'' \<or> method = ''PUT''"; cases "opt = NilListOptions") (simp_all add: u_def)
  have esc: "EscapedPath (u\<lparr>url_RawQuery := q\<rparr>) = ?b @ ?path" for q
    using ok un(2) by (simp add: EscapedPath_def u_def)
  show thesis by (rule that [OF req]) (simp_all only: gitlab_request.simps esc, simp_all add: u_def)
qed

section \<open>The project and the hook a request names\<close>

text \<open>Method and path as they are sent.\<close>

definition wire :: "go_error + gitlab_request \<Rightarrow> (string \<times> string) option" where
  "wire r = (case r of Inl _ \<Rightarrow> None | Inr q \<Rightarrow> Some (hr_Method q, EscapedPath (hr_URL q)))"

lemma segment_cancel:
  "CHR ''/'' \<notin> set xs \<Longrightarrow> CHR ''/'' \<notin> set ys \<Longrightarrow> xs @ CHR ''/'' # s = ys @ CHR ''/'' # t \<longleftrightarrow> xs = ys \<and> s = t"
proof (induction xs arbitrary: ys)
  case Nil
  then show ?case by (cases ys) auto
next
  case (Cons x xs)
  then show ?case by (cases ys) auto
qed

lemma pathEscape_slash: "CHR ''/'' \<notin> set (pathEscape p)"
  using pathEscape_segment by blast

lemma Itoa_sint_inj: "Itoa (sint (i :: 64 word)) = Itoa (sint j) \<longleftrightarrow> i = j"
proof
  have bounds: "int64_min \<le> sint k \<and> sint k \<le> int64_max" for k :: "64 word"
    using sint_range_size [of k] by (auto simp: int64_min_def int64_max_def word_size)
  assume "Itoa (sint i) = Itoa (sint j)"
  then have "sint i = sint j" using Atoi_Itoa bounds by (metis sum.inject(2))
  then show "i = j" by (rule signed_word_eqI)
qed simp

lemma Itoa_plain: "plain_path (''/hooks/'' @ Itoa i)"
proof -
  have "list_all plain_char (utoa n)" for n using utoa_digits [of n] digit_plain_char by (auto simp: list_all_iff)
  then have "list_all plain_char (Itoa i)" by (simp add: Itoa_def plain_char_def)
  moreover have "plain_path ''/hooks/''" by code_simp
  ultimately show ?thesis by (simp add: plain_path_def list_all_iff)
qed



section \<open>Hooks beyond the first page\<close>

text \<open>C23: the webhook client lists the hooks of a project once, without naming a page, and GitLab
  answers such a request with the first twenty.  If the stored hook is not among them, the
  removal of a source finds no hook to remove and calls that success: \<open>finalize\<close> returns
  nil, asks for no removal, records no event, clears the stored ID and drops the finalizer,
  so that the source goes and the hook stays.\<close>

theorem hook_beyond_first_page:
  assumes "SecretKeyRef (AccessToken (Spec (st_src s))) = Some sel"
    and "env_SecretGet env (st_trace s @ [SecretGet (om_Namespace (gs_meta (st_src s))) (sks_Name sel)]) = Inr secret"
    and "secret_Data secret (sks_Key sel) = Some tok"
    and "getProjectName (ProjectURL (Spec (st_src s))) = Ok p" and "getGitlabBaseURL (ProjectURL (Spec (st_src s))) = Ok base"
    and "WebhookIDKey (Status (st_src s)) \<noteq> []" and "Atoi (WebhookIDKey (Status (st_src s))) = Inr i"
    and page: "\<And>h. env_ListHooks env h = Inr (take 20 (hooks h))"
    and beyond: "\<And>h hook. hook \<in> set (take 20 (hooks h)) \<Longrightarrow> sint (hook_ID hook) \<noteq> i"
  shows "(\<forall>req. ListProjectHooks (make_client tok base) p = Inr req \<longrightarrow> url_RawQuery (hr_URL req) = [])
    \<and> (let (res, t) = finalize (newReconciler env scheme img) s
       in res = Ok () \<and> WebhookIDKey (Status (st_src t)) = [] \<and> gs_meta (st_src t) = gs_meta (removeFinalizer (st_src s))
          \<and> st_events t = st_events s
          \<and> st_trace t = st_trace s @ [SecretGet (om_Namespace (gs_meta (st_src s))) (sks_Name sel), ListHooks (make_client tok base) p])"
proof -
  let ?src = "removeFinalizer (st_src s)"
  have src: "Status ?src = Status (st_src s)" "Spec ?src = Spec (st_src s)" by (simp_all add: removeFinalizer_def Let_def)
  have loop: "wpG (deleteLoop env c o' i hs) Q E X u = Q () u" if "\<forall>hook \<in> set hs. sint (hook_ID hook) \<noteq> i" for c o' hs Q E X u
    using that by (induction hs) (simp_all add: wp_simps)
  have "url_RawQuery (hr_URL req) = []" if "ListProjectHooks (make_client tok base) p = Inr req" for req
    using that by (auto simp: ListProjectHooks_def gitlab_NewRequest_def Let_def split: option.splits)
  moreover have "wpG (finalize (newReconciler env scheme img)) (\<lambda>_ t. WebhookIDKey (Status (st_src t)) = []
      \<and> gs_meta (st_src t) = gs_meta ?src \<and> st_events t = st_events s
      \<and> st_trace t = st_trace s @ [SecretGet (om_Namespace (gs_meta (st_src s))) (sks_Name sel), ListHooks (make_client tok base) p])
      (\<lambda>_ _. False) (\<lambda>_. False) s"
    using assms(1-7) src beyond
    by (simp add: finalize_def deleteWebhook_def secret_read_def secret_result_def newReconciler_def gitLabWebhookClient_def
        empty_hook_options_def wp_simps wp_DeleteWebhook Let_def page loop)
  ultimately show ?thesis by (simp add: wpG_result Let_def split_def split: outcome.splits)
qed

text \<open>The deleted source of the demonstration, whose hook 7 comes after twenty others.\<close>

definition many_hooks :: "ProjectHook list" where
  "many_hooks = map (\<lambda>i. \<lparr>hook_ID = of_nat i\<rparr>) [8..<28] @ [\<lparr>hook_ID = 7\<rparr>]"

theorem hook_beyond_first_page_witness:
  "\<lparr>hook_ID = 7\<rparr> \<in> set many_hooks
   \<and> fst (finalize (newReconciler (demo_env\<lparr>env_ListHooks := (\<lambda>_. Inr (take 20 many_hooks))\<rparr>) demo_scheme ''image'') (demo_state deleted_source)) = Ok ()"
proof -
  let ?s = "demo_state deleted_source" and ?env = "demo_env\<lparr>env_ListHooks := (\<lambda>_. Inr (take 20 many_hooks))\<rparr>"
  have src: "SecretKeyRef (AccessToken (Spec (st_src ?s))) = Some (demo_selector ''access'')" "WebhookIDKey (Status (st_src ?s)) = ''7''"
    "ProjectURL (Spec (st_src ?s)) = ''https://gitlab.com/a/b''"
    by (simp_all add: demo_state_def deleted_source_def demo_source_def demo_spec_def demo_status_def)
  have "getProjectName ''https://gitlab.com/a/b'' = Ok ''a/b''" "getGitlabBaseURL ''https://gitlab.com/a/b'' = Ok ''https://gitlab.com/''"
    by code_simp+
  note url = this [folded src(3)]
  have id: "Atoi (WebhookIDKey (Status (st_src ?s))) = Inr 7" unfolding src by code_simp
  have "list_all (\<lambda>hook. sint (hook_ID hook) \<noteq> 7) (take 20 many_hooks)" by code_simp
  then have beyond: "hook \<in> set (take 20 many_hooks) \<Longrightarrow> sint (hook_ID hook) \<noteq> 7" for hook by (simp add: list_all_iff)
  have secret: "env_SecretGet ?env h = Inr \<lparr>secret_meta = empty_meta, secret_Data = [''access'' \<mapsto> ''t1'', ''secret'' \<mapsto> ''t2'']\<rparr>" for h
    by (simp add: demo_env_def)
  have page: "env_ListHooks ?env h = Inr (take 20 ((\<lambda>_. many_hooks) h))" for h :: history by simp
  have tok: "secret_Data \<lparr>secret_meta = empty_meta, secret_Data = [''access'' \<mapsto> ''t1'', ''secret'' \<mapsto> ''t2'']\<rparr> (sks_Key (demo_selector ''access'')) = Some ''t1''"
    by (simp add: demo_selector_def)
  from hook_beyond_first_page [where hooks = "\<lambda>_. many_hooks" and env = ?env, OF src(1) secret tok url _ id page beyond, of demo_scheme "''image''"]
  show ?thesis by (simp add: src many_hooks_def Let_def split_def)
qed

end
