(* ===== verification/GitLabExchange.thy ===== *)
theory GitLabExchange
  imports GitLabRequests
begin

text \<open>
  What go-gitlab makes of the answers of the GitLab server (\<open>Client.Do\<close>, \<open>CheckResponse\<close>,
  \<open>parseError\<close> and the ends of the three hook operations), for a client with a private token,
  which does not log in again.  The server answers a request by a function of all the run has asked; the
  JSON decoder is a parameter, which gets the body, or the error of reading it.  The environment
  the webhook client is given elsewhere is here made of these.  The page numbers of a
  response, which the webhook client drops, are left out.
\<close>

section \<open>Answers\<close>

text \<open>A response, with the request it answers, which after a redirection is not the one sent.\<close>

record gitlab_http =
  gh_StatusCode :: int
  gh_Request :: gitlab_request
  gh_Body :: "go_error + string"

text \<open>What \<open>json.Unmarshal\<close> stores in an interface; the fields of an object have distinct names.\<close>

datatype json =
    JSONNull
  | JSONBool bool
  | JSONNumber string
  | JSONString string
  | JSONArray "json list"
  | JSONObject "(string \<times> json) list"

fun strings_Join :: "string list \<Rightarrow> string \<Rightarrow> string" where
  "strings_Join [] sep = []"
| "strings_Join [s] sep = s"
| "strings_Join (s # t # ss) sep = s @ sep @ strings_Join (t # ss) sep"

lemma json_field_size: "(k, v) \<in> set fs \<Longrightarrow> size v < Suc (size_list (size_prod (\<lambda>_. 0) size) fs)"
  by (induction fs) auto

fun parseError :: "json \<Rightarrow> string" where
  "parseError (JSONString raw) = raw"
| "parseError (JSONArray raw) = ''['' @ strings_Join (map parseError raw) '', '' @ '']''"
| "parseError (JSONObject raw) =
     strings_Join (sort (map (\<lambda>(k, v). ''{'' @ k @ '': '' @ parseError v @ ''}'') raw)) '', ''"
| "parseError JSONNull = ''failed to parse unexpected error type: <nil>''"
| "parseError (JSONBool _) = ''failed to parse unexpected error type: bool''"
| "parseError (JSONNumber _) = ''failed to parse unexpected error type: float64''"

text \<open>\<open>url.QueryUnescape\<close>: a plus sign is a space.\<close>

definition QueryUnescape :: "string \<Rightarrow> string option" where
  "QueryUnescape s = unescape encodePathSegment (map (\<lambda>c. if c = CHR ''+'' then CHR '' '' else c) s)"

text \<open>The text of an \<open>ErrorResponse\<close>\<close>

definition ErrorResponse_Error :: "gitlab_http \<Rightarrow> string \<Rightarrow> string" where
  "ErrorResponse_Error resp msg =
     (let req = gh_Request resp;
          path = (case QueryUnescape (url_Path (hr_URL req)) of None \<Rightarrow> [] | Some p \<Rightarrow> p);
          u = url_Scheme (hr_URL req) @ ''://'' @ url_Host (hr_URL req) @ path
      in hr_Method req @ '' '' @ u @ '': '' @ Itoa (gh_StatusCode resp) @ '' '' @ msg)"

definition CheckResponse :: "(string \<Rightarrow> go_error + json) \<Rightarrow> gitlab_http \<Rightarrow> go_error option" where
  "CheckResponse unmarshal r =
     (if gh_StatusCode r \<in> {200, 201, 202, 204, 304} then None
      else Some (PlainError (ErrorResponse_Error r
        (case gh_Body r of
           Inl _ \<Rightarrow> []
         | Inr data \<Rightarrow> (case unmarshal data of
                         Inl _ \<Rightarrow> ''failed to parse unknown error format''
                       | Inr raw \<Rightarrow> parseError raw)))))"

definition gitlab_Do :: "(gitlab_request \<Rightarrow> go_error + gitlab_http) \<Rightarrow> (string \<Rightarrow> go_error + json)
    \<Rightarrow> (go_error + string \<Rightarrow> go_error + 'v) \<Rightarrow> gitlab_request \<Rightarrow> go_error + 'v" where
  "gitlab_Do answer unmarshal decode req =
     (case answer req of
        Inl err \<Rightarrow> Inl err
      | Inr resp \<Rightarrow> (case CheckResponse unmarshal resp of
                       Some err \<Rightarrow> Inl err
                     | None \<Rightarrow> decode (gh_Body resp)))"

section \<open>The services of the webhook client\<close>

record gitlab_server =
  sv_answer :: "history \<Rightarrow> gitlab_request \<Rightarrow> go_error + gitlab_http"
  sv_unmarshal :: "string \<Rightarrow> go_error + json"
  sv_hooks :: "go_error + string \<Rightarrow> go_error + ProjectHook list"
  sv_hook :: "go_error + string \<Rightarrow> go_error + ProjectHook"

text \<open>An operation from its request on; \<open>DeleteProjectHook\<close> decodes nothing.\<close>

definition exchange :: "gitlab_server \<Rightarrow> (go_error + string \<Rightarrow> go_error + 'v) \<Rightarrow> history \<Rightarrow> go_error + gitlab_request \<Rightarrow> go_error + 'v" where
  "exchange sv decode h r =
     (case r of Inl err \<Rightarrow> Inl err | Inr req \<Rightarrow> gitlab_Do (sv_answer sv h) (sv_unmarshal sv) decode req)"

definition no_value :: "go_error + string \<Rightarrow> go_error + unit" where
  "no_value body = Inr ()"

text \<open>The environment whose hook services are go-gitlab on this server; each is asked for what it does.\<close>

definition with_gitlab :: "gitlab_server \<Rightarrow> env \<Rightarrow> env" where
  "with_gitlab sv env = env\<lparr>
     env_ListHooks := (\<lambda>h. case last h of ListHooks c pid \<Rightarrow> exchange sv (sv_hooks sv) h (ListProjectHooks c pid)
                                         | _ \<Rightarrow> Inl (PlainError [])),
     env_AddHook := (\<lambda>h. case last h of AddHook c pid os \<Rightarrow> exchange sv (sv_hook sv) h (AddProjectHook c pid os)
                                       | _ \<Rightarrow> Inl (PlainError [])),
     env_DeleteHook := (\<lambda>h. case last h of DeleteHook c pid i \<Rightarrow> exchange sv no_value h (DeleteProjectHook c pid i)
                                          | _ \<Rightarrow> Inl (PlainError []))\<rparr>"

lemma with_gitlab_fields [simp]:
  "env_ListHooks (with_gitlab sv env) (h @ [ListHooks c p]) = exchange sv (sv_hooks sv) (h @ [ListHooks c p]) (ListProjectHooks c p)"
  "env_AddHook (with_gitlab sv env) (h @ [AddHook c p os]) = exchange sv (sv_hook sv) (h @ [AddHook c p os]) (AddProjectHook c p os)"
  "env_DeleteHook (with_gitlab sv env) (h @ [DeleteHook c p i]) = exchange sv no_value (h @ [DeleteHook c p i]) (DeleteProjectHook c p i)"
  "env_SecretGet (with_gitlab sv env) = env_SecretGet env" "env_ServiceList (with_gitlab sv env) = env_ServiceList env"
  by (simp_all add: with_gitlab_def)

section \<open>What the operations return\<close>

text \<open>The fields of an error are printed in one order, however the map holds them.\<close>

lemma parseError_fields:
  "mset fs = mset fs' \<Longrightarrow> parseError (JSONObject fs) = parseError (JSONObject fs')"
proof -
  assume "mset fs = mset fs'"
  then have "mset (map f fs) = mset (map f fs')" for f :: "string \<times> json \<Rightarrow> string" by simp
  then have "sort (map f fs) = sort (map f fs')" for f :: "string \<times> json \<Rightarrow> string" by (metis mset_sort properties_for_sort sorted_sort)
  then show ?thesis by simp
qed

definition accepted :: "gitlab_http \<Rightarrow> bool" where
  "accepted resp \<longleftrightarrow> gh_StatusCode resp \<in> {200, 201, 202, 204, 304}"

text \<open>What a refused request says.\<close>

definition refusal :: "(string \<Rightarrow> go_error + json) \<Rightarrow> gitlab_http \<Rightarrow> go_error" where
  "refusal unmarshal resp = PlainError (ErrorResponse_Error resp
     (case gh_Body resp of Inl _ \<Rightarrow> []
      | Inr data \<Rightarrow> (case unmarshal data of Inl _ \<Rightarrow> ''failed to parse unknown error format'' | Inr raw \<Rightarrow> parseError raw)))"

lemma CheckResponse_eq: "CheckResponse unmarshal resp = (if accepted resp then None else Some (refusal unmarshal resp))"
  by (simp only: CheckResponse_def accepted_def refusal_def)

lemma exchange_eq:
  "exchange sv decode h (Inr req) =
     (case sv_answer sv h req of
        Inl err \<Rightarrow> Inl err
      | Inr resp \<Rightarrow> if accepted resp then decode (gh_Body resp) else Inl (refusal (sv_unmarshal sv) resp))"
  by (simp add: exchange_def gitlab_Do_def CheckResponse_eq split: sum.split)

lemma hook_path: "PathUnescape (''projects/'' @ pathEscape p @ ''/hooks'') \<noteq> None"
  "PathUnescape (''projects/'' @ pathEscape p @ ''/hooks/'' @ Itoa i) \<noteq> None"
proof -
  have "CHR ''%'' \<notin> set (''/hooks/'' @ Itoa i)"
    using Itoa_plain [of i] plain_char_not(1) by (fastforce simp: plain_path_def list_all_iff)
  then have "unescape encodePathSegment (''projects/'' @ pathEscape p @ t) \<noteq> None" if "t = ''/hooks'' \<or> t = ''/hooks/'' @ Itoa i" for t
    using that unescape_literal(1) [of "''projects/''" "pathEscape p @ t"] unescape_literal(1) [of t "[]"]
    by (auto simp: unescape_pathEscape)
  then show "PathUnescape (''projects/'' @ pathEscape p @ ''/hooks'') \<noteq> None"
    "PathUnescape (''projects/'' @ pathEscape p @ ''/hooks/'' @ Itoa i) \<noteq> None" by (simp_all only: PathUnescape_def simp_thms)
qed

lemma hook_requests: "\<exists>req. ListProjectHooks c p = Inr req" "\<exists>req. AddProjectHook c p os = Inr req" "\<exists>req. DeleteProjectHook c p i = Inr req"
  using hook_path
  by (auto simp: ListProjectHooks_def AddProjectHook_def DeleteProjectHook_def gitlab_NewRequest_def Let_def split: option.split)


section \<open>A hook whose answer is lost\<close>

text \<open>The answer to adding a hook cannot be had or cannot be decoded, although the server has added it.\<close>

definition answer_lost :: "gitlab_server \<Rightarrow> bool" where
  "answer_lost sv \<longleftrightarrow> (\<forall>h c p os req. AddProjectHook c p os = Inr req \<longrightarrow>
     (case sv_answer sv (h @ [AddHook c p os]) req of
        Inl _ \<Rightarrow> True
      | Inr resp \<Rightarrow> accepted resp \<and> (\<exists>err. sv_hook sv (gh_Body resp) = Inl err)))"

lemma answer_lost_error: "answer_lost sv \<Longrightarrow> \<exists>err. env_AddHook (with_gitlab sv env) (h @ [AddHook c p os]) = Inl err"
proof -
  assume lost: "answer_lost sv"
  obtain req where req: "AddProjectHook c p os = Inr req" using hook_requests(2) by blast
  with lost have "case sv_answer sv (h @ [AddHook c p os]) req of Inl _ \<Rightarrow> True
      | Inr resp \<Rightarrow> accepted resp \<and> (\<exists>err. sv_hook sv (gh_Body resp) = Inl err)" unfolding answer_lost_def by blast
  with req show ?thesis by (auto simp: exchange_eq split: sum.splits)
qed

text \<open>The hook a source without a stored ID asks for.\<close>

definition wanted_hook :: "GitLabSource \<Rightarrow> string \<times> string \<Rightarrow> string \<Rightarrow> string \<Rightarrow> string \<Rightarrow> request" where
  "wanted_hook src toks domain p base =
     AddHook (make_client (fst toks) base) p
       (hook_options (webhook_options \<lparr>wa_source = src, wa_domain = domain, wa_accessToken = fst toks,
          wa_secretToken = snd toks, wa_projectURL = [], wa_hookID = []\<rparr> p))"

lemma webhookStage_lost:
  assumes "answer_lost sv" and "WebhookIDKey (Status (st_src s)) = []" and "\<And>h. env_ServiceList env h = Inr items"
    and "receiveAdapterDomain (pickService (om_Name (gs_meta (st_src s))) items) = Ok domain"
    and "getProjectName (ProjectURL (Spec (st_src s))) = Ok p" and "getGitlabBaseURL (ProjectURL (Spec (st_src s))) = Ok base"
  shows "\<exists>err. webhookStage (newReconciler (with_gitlab sv env) scheme img) toks s
    = (Err err, s\<lparr>st_src := addFinalizer (st_src s),
         st_trace := st_trace s @ [ServiceList (om_Namespace (gs_meta (st_src s))), wanted_hook (addFinalizer (st_src s)) toks domain p base]\<rparr>)"
proof -
  obtain err where err: "env_AddHook (with_gitlab sv env)
      ((st_trace s @ [ServiceList (om_Namespace (gs_meta (st_src s)))]) @ [wanted_hook (addFinalizer (st_src s)) toks domain p base]) = Inl err"
    using answer_lost_error [OF assms(1)] unfolding wanted_hook_def by blast
  have "wpG (webhookStage (newReconciler (with_gitlab sv env) scheme img) toks) (\<lambda>_ _. False)
      (\<lambda>_ t. t = s\<lparr>st_src := addFinalizer (st_src s), st_trace := st_trace s @ [ServiceList (om_Namespace (gs_meta (st_src s))),
           wanted_hook (addFinalizer (st_src s)) toks domain p base]\<rparr>) (\<lambda>_. False) s"
    using assms(2-6) err
    by (simp add: webhookStage_def createWebhook_def gitLabWebhookClient_def newReconciler_def wp_simps wp_Create Let_def
        addFinalizer_def wanted_hook_def split_def)
  then show ?thesis by (simp add: wpG_result split: outcome.splits) (metis prod.collapse)
qed

lemma addFinalizer_keeps [simp]:
  "Spec (addFinalizer src) = Spec src" "om_Name (gs_meta (addFinalizer src)) = om_Name (gs_meta src)"
  "om_Namespace (gs_meta (addFinalizer src)) = om_Namespace (gs_meta src)"
  by (simp_all add: addFinalizer_def Let_def)

lemma wanted_hook_finalizer: "wanted_hook (addFinalizer src) toks domain p base = wanted_hook src toks domain p base"
  by (simp add: wanted_hook_def webhook_options_def Let_def)

text \<open>
  C27: a hook whose answer is lost is added again.  If the server adds a hook and the answer does not
  reach the reconciler, or reaches it with a body that cannot be decoded, the run fails and
  stores no ID, and the next run asks for the same hook again without a look at the hooks
  the project has.  The first hook stays at GitLab: no run knows its ID, so none removes it.
\<close>

theorem lost_answer_adds_again:
  assumes "answer_lost sv" and "WebhookIDKey (Status (st_src s)) = []" and "\<And>h. env_ServiceList env h = Inr items"
    and "receiveAdapterDomain (pickService (om_Name (gs_meta (st_src s))) items) = Ok domain"
    and "getProjectName (ProjectURL (Spec (st_src s))) = Ok p" and "getGitlabBaseURL (ProjectURL (Spec (st_src s))) = Ok base"
  shows "(let stage = webhookStage (newReconciler (with_gitlab sv env) scheme img) toks;
              s1 = snd (stage s); s2 = snd (stage s1); add = wanted_hook (st_src s) toks domain p base;
              services = ServiceList (om_Namespace (gs_meta (st_src s)))
          in (\<exists>err. fst (stage s) = Err err) \<and> (\<exists>err. fst (stage s1) = Err err)
             \<and> Status (st_src s2) = Status (st_src s) \<and> WebhookIDKey (Status (st_src s1)) = []
             \<and> st_trace s2 = st_trace s @ [services, add, services, add])"
proof -
  note first = webhookStage_lost [where sv = sv and s = s and env = env and scheme = scheme and img = img and toks = toks, OF assms]
  then obtain err s1 where s1: "webhookStage (newReconciler (with_gitlab sv env) scheme img) toks s = (Err err, s1)"
    "s1 = s\<lparr>st_src := addFinalizer (st_src s), st_trace := st_trace s @ [ServiceList (om_Namespace (gs_meta (st_src s))),
        wanted_hook (addFinalizer (st_src s)) toks domain p base]\<rparr>" by blast
  have "\<exists>err. webhookStage (newReconciler (with_gitlab sv env) scheme img) toks s1
    = (Err err, s1\<lparr>st_src := addFinalizer (st_src s1), st_trace := st_trace s1 @ [ServiceList (om_Namespace (gs_meta (st_src s1))),
        wanted_hook (addFinalizer (st_src s1)) toks domain p base]\<rparr>)"
    using assms(2-6) by (intro webhookStage_lost [OF assms(1)]) (simp_all add: s1(2))
  then show ?thesis using s1 assms(2) by (auto simp: Let_def wanted_hook_finalizer)
qed

definition silent_server :: gitlab_server where
  "silent_server = \<lparr>sv_answer = (\<lambda>_ _. Inl (PlainError ''timeout'')), sv_unmarshal = (\<lambda>_. Inl (PlainError ''json'')),
     sv_hooks = (\<lambda>_. Inr []), sv_hook = (\<lambda>_. Inr \<lparr>hook_ID = 7\<rparr>)\<rparr>"

theorem lost_answer_adds_again_witness:
  "(let stage = webhookStage (newReconciler (with_gitlab silent_server demo_env) demo_scheme ''image'') (''t1'', ''t2'')
    in count is_AddHook (st_trace (snd (stage (snd (stage (demo_state fresh_source)))))) = 2)"
proof -
  let ?s = "demo_state fresh_source"
  have src: "WebhookIDKey (Status (st_src ?s)) = []" "ProjectURL (Spec (st_src ?s)) = ''https://gitlab.com/a/b''" "om_Name (gs_meta (st_src ?s)) = ''src''"
    "st_trace ?s = []"
    by (simp_all add: demo_defs)
  have "getProjectName ''https://gitlab.com/a/b'' = Ok ''a/b''" "getGitlabBaseURL ''https://gitlab.com/a/b'' = Ok ''https://gitlab.com/''"
    by code_simp+
  note url = this [folded src(2)]
  have lost: "answer_lost silent_server" by (simp add: answer_lost_def silent_server_def)
  have services: "env_ServiceList demo_env h = Inr [demo_service]" for h by (simp add: demo_env_def)
  obtain domain where domain: "receiveAdapterDomain (pickService (om_Name (gs_meta (st_src ?s))) [demo_service]) = Ok domain"
    by (simp add: src(3) pickService_def receiveAdapterDomain_def demo_service_def MakePublicService_def HasPrefix_def Let_def)
  show ?thesis
    using lost_answer_adds_again [where sv = silent_server and s = ?s and env = demo_env and scheme = demo_scheme and img = "''image''" and toks = "(''t1'', ''t2'')",
        OF lost src(1) services domain url] src(4)
    by (simp add: Let_def wanted_hook_def)
qed

end
