(* ===== verification/TypeRegistry.thy ===== *)
theory TypeRegistry
  imports SourceTypes
begin

text \<open>
  The schemes of apimachinery (\<open>runtime/scheme.go\<close>, \<open>runtime/scheme_builder.go\<close>), the builder
  of controller-runtime (\<open>runtime/scheme/scheme.go\<close>) and the registrations of the program: those
  of its types (\<open>v1alpha1/register.go\<close>, \<open>gitlab_types.go\<close>, \<open>apis/apis.go\<close>) and of its
  clients (\<open>clientset/versioned/scheme/register.go\<close>, \<open>fake/register.go\<close>).  Conversion and
  defaulting functions, which a scheme also collects, are left out, and so is its name, with
  which its errors end.
\<close>

section \<open>Schemes\<close>

text \<open>A Go type: its package and its name.\<close>

type_synonym go_type = "string \<times> string"

record type_scheme =
  sch_gvkToType :: "GroupVersionKind \<rightharpoonup> go_type"
  sch_typeToGVK :: "go_type \<rightharpoonup> GroupVersionKind list"
  sch_unversionedTypes :: "go_type \<rightharpoonup> GroupVersionKind"
  sch_unversionedKinds :: "string \<rightharpoonup> go_type"
  sch_observedVersions :: "GroupVersion list"

definition NewScheme :: type_scheme where
  "NewScheme = \<lparr>sch_gvkToType = Map.empty, sch_typeToGVK = Map.empty, sch_unversionedTypes = Map.empty,
     sch_unversionedKinds = Map.empty, sch_observedVersions = []\<rparr>"

definition APIVersionInternal :: string where "APIVersionInternal = ''__internal''"

definition gvk_GroupVersion :: "GroupVersionKind \<Rightarrow> GroupVersion" where
  "gvk_GroupVersion gvk = \<lparr>gv_Group = gvk_Group gvk, gv_Version = gvk_Version gvk\<rparr>"

definition addObservedVersion :: "GroupVersion \<Rightarrow> type_scheme \<Rightarrow> type_scheme" where
  "addObservedVersion version s =
     (if length (gv_Version version) = 0 \<or> gv_Version version = APIVersionInternal then s
      else if version \<in> set (sch_observedVersions s) then s
      else s\<lparr>sch_observedVersions := sch_observedVersions s @ [version]\<rparr>)"

definition kinds_of :: "go_type \<Rightarrow> type_scheme \<Rightarrow> GroupVersionKind list" where
  "kinds_of t s = (case sch_typeToGVK s t of None \<Rightarrow> [] | Some ks \<Rightarrow> ks)"

text \<open>Every type here is a pointer to a struct.\<close>

definition AddKnownTypeWithName :: "GroupVersionKind \<Rightarrow> go_type \<Rightarrow> (type_scheme, unit) go" where
  "AddKnownTypeWithName gvk t =
     seqG (modG (addObservedVersion (gvk_GroupVersion gvk)))
     (if length (gvk_Version gvk) = 0 then panicG
      else thenG (getG (\<lambda>s. sch_gvkToType s gvk)) (\<lambda>old.
        if old \<noteq> None \<and> old \<noteq> Some t then panicG
        else seqG (modG (\<lambda>s. s\<lparr>sch_gvkToType := (sch_gvkToType s)(gvk \<mapsto> t)\<rparr>))
               (modG (\<lambda>s. if gvk \<in> set (kinds_of t s) then s
                          else s\<lparr>sch_typeToGVK := (sch_typeToGVK s)(t \<mapsto> kinds_of t s @ [gvk])\<rparr>))))"

fun add_types :: "GroupVersion \<Rightarrow> go_type list \<Rightarrow> (type_scheme, unit) go" where
  "add_types gv [] = retG ()"
| "add_types gv (t # ts) = seqG (AddKnownTypeWithName (WithKind gv (snd t)) t) (add_types gv ts)"

definition AddKnownTypes :: "GroupVersion \<Rightarrow> go_type list \<Rightarrow> (type_scheme, unit) go" where
  "AddKnownTypes gv ts = seqG (modG (addObservedVersion gv)) (add_types gv ts)"

fun mark_unversioned :: "GroupVersion \<Rightarrow> go_type list \<Rightarrow> (type_scheme, unit) go" where
  "mark_unversioned version [] = retG ()"
| "mark_unversioned version (t # ts) =
     (let gvk = WithKind version (snd t)
      in seqG (modG (\<lambda>s. s\<lparr>sch_unversionedTypes := (sch_unversionedTypes s)(t \<mapsto> gvk)\<rparr>))
         (thenG (getG (\<lambda>s. sch_unversionedKinds s (gvk_Kind gvk))) (\<lambda>old.
          if old \<noteq> None \<and> old \<noteq> Some t then panicG
          else seqG (modG (\<lambda>s. s\<lparr>sch_unversionedKinds := (sch_unversionedKinds s)(gvk_Kind gvk \<mapsto> t)\<rparr>))
                 (mark_unversioned version ts))))"

definition AddUnversionedTypes :: "GroupVersion \<Rightarrow> go_type list \<Rightarrow> (type_scheme, unit) go" where
  "AddUnversionedTypes version ts =
     seqG (modG (addObservedVersion version)) (seqG (AddKnownTypes version ts) (mark_unversioned version ts))"

definition ObjectKinds :: "go_type \<Rightarrow> type_scheme \<Rightarrow> go_error + GroupVersionKind list \<times> bool" where
  "ObjectKinds t s =
     (case sch_typeToGVK s t of
        None \<Rightarrow> Inl (PlainError (''no kind is registered for the type '' @ fst t @ ''.'' @ snd t))
      | Some gvks \<Rightarrow> Inr (gvks, sch_unversionedTypes s t \<noteq> None))"

definition Recognizes :: "GroupVersionKind \<Rightarrow> type_scheme \<Rightarrow> bool" where
  "Recognizes gvk s \<longleftrightarrow> sch_gvkToType s gvk \<noteq> None"

text \<open>\<open>apiutil.GVKForObject\<close> on a scheme, with its refusals.\<close>

definition scheme_GVKForObject :: "go_type \<Rightarrow> type_scheme \<Rightarrow> go_error + GroupVersionKind" where
  "scheme_GVKForObject t s =
     (case ObjectKinds t s of
        Inl err \<Rightarrow> Inl err
      | Inr (gvks, isUnversioned) \<Rightarrow>
          if isUnversioned then Inl (PlainError (''cannot create a new informer for the unversioned type *'' @ fst t @ ''.'' @ snd t))
          else if length gvks < 1 then Inl (PlainError (''no group-version-kinds associated with type *'' @ fst t @ ''.'' @ snd t))
          else if 1 < length gvks
          then Inl (PlainError (''multiple group-version-kinds associated with type *'' @ fst t @ ''.'' @ snd t @ '', refusing to guess at one''))
          else Inr (gvks ! 0))"

section \<open>Builders\<close>

type_synonym SchemeBuilder = "(type_scheme, unit) go list"

fun SchemeBuilder_AddToScheme :: "SchemeBuilder \<Rightarrow> (type_scheme, unit) go" where
  "SchemeBuilder_AddToScheme [] = retG ()"
| "SchemeBuilder_AddToScheme (f # sb) = seqG f (SchemeBuilder_AddToScheme sb)"

definition SchemeBuilder_Register :: "(type_scheme, unit) go list \<Rightarrow> SchemeBuilder \<Rightarrow> SchemeBuilder" where
  "SchemeBuilder_Register funcs sb = sb @ funcs"

definition metaPkg :: string where "metaPkg = ''v1''"
definition Unversioned :: GroupVersion where "Unversioned = \<lparr>gv_Group = [], gv_Version = ''v1''\<rparr>"
definition WatchEventKind :: string where "WatchEventKind = ''WatchEvent''"

definition meta_options :: "go_type list" where
  "meta_options = map (Pair metaPkg)
     [''ListOptions'', ''ExportOptions'', ''GetOptions'', ''DeleteOptions'', ''CreateOptions'', ''UpdateOptions'']"

definition meta_unversioned :: "go_type list" where
  "meta_unversioned = map (Pair metaPkg) [''Status'', ''APIVersions'', ''APIGroupList'', ''APIGroup'', ''APIResourceList'']"

text \<open>\<open>metav1.AddToGroupVersion\<close>\<close>

definition AddToGroupVersion :: "GroupVersion \<Rightarrow> (type_scheme, unit) go" where
  "AddToGroupVersion gv =
     seqG (AddKnownTypeWithName (WithKind gv WatchEventKind) (metaPkg, ''WatchEvent''))
     (seqG (AddKnownTypeWithName (WithKind \<lparr>gv_Group = gv_Group gv, gv_Version = APIVersionInternal\<rparr> WatchEventKind) (metaPkg, ''InternalEvent''))
     (seqG (AddKnownTypes gv meta_options)
     (AddUnversionedTypes Unversioned meta_unversioned)))"

record Builder =
  bl_GroupVersion :: GroupVersion
  bl_SchemeBuilder :: SchemeBuilder

definition Builder_Register :: "go_type list \<Rightarrow> Builder \<Rightarrow> Builder" where
  "Builder_Register objects bld =
     bld\<lparr>bl_SchemeBuilder := SchemeBuilder_Register
           [seqG (AddKnownTypes (bl_GroupVersion bld) objects) (AddToGroupVersion (bl_GroupVersion bld))] (bl_SchemeBuilder bld)\<rparr>"

definition Builder_AddToScheme :: "Builder \<Rightarrow> (type_scheme, unit) go" where
  "Builder_AddToScheme bld = SchemeBuilder_AddToScheme (bl_SchemeBuilder bld)"

section \<open>The registrations of the program\<close>

definition sourcesPkg :: string where "sourcesPkg = ''v1alpha1''"

definition source_types :: "go_type list" where
  "source_types = map (Pair sourcesPkg) [''GitLabSource'', ''GitLabSourceList'']"

text \<open>\<open>v1alpha1.SchemeBuilder\<close> after the \<open>init\<close> of \<open>gitlab_types.go\<close>\<close>

definition sources_SchemeBuilder :: Builder where
  "sources_SchemeBuilder = Builder_Register source_types \<lparr>bl_GroupVersion = SchemeGroupVersion, bl_SchemeBuilder = []\<rparr>"

definition sources_AddToScheme :: "(type_scheme, unit) go" where
  "sources_AddToScheme = Builder_AddToScheme sources_SchemeBuilder"

text \<open>\<open>apis.AddToSchemes\<close> after the \<open>init\<close> of \<open>addtoscheme_sources_v1alpha1.go\<close>, and \<open>apis.AddToScheme\<close>\<close>

definition apis_AddToSchemes :: SchemeBuilder where
  "apis_AddToSchemes = SchemeBuilder_Register [Builder_AddToScheme sources_SchemeBuilder] []"

definition apis_AddToScheme :: "(type_scheme, unit) go" where
  "apis_AddToScheme = SchemeBuilder_AddToScheme apis_AddToSchemes"

text \<open>\<open>scheme.AddToScheme\<close> and the \<open>init\<close> of the clientset's scheme, with \<open>Must\<close> turning an error into a panic\<close>

definition localSchemeBuilder :: SchemeBuilder where
  "localSchemeBuilder = [sources_AddToScheme]"

definition clientset_AddToScheme :: "(type_scheme, unit) go" where
  "clientset_AddToScheme = SchemeBuilder_AddToScheme localSchemeBuilder"

definition Must :: "('s, unit) go \<Rightarrow> ('s, unit) go" where
  "Must m = onErr m (\<lambda>_. panicG) retG"

definition clientset_scheme_init :: "(type_scheme, unit) go" where
  "clientset_scheme_init = seqG (AddToGroupVersion \<lparr>gv_Group = [], gv_Version = ''v1''\<rparr>) (Must clientset_AddToScheme)"

text \<open>The same for the fake clientset.\<close>

definition fake_localSchemeBuilder :: SchemeBuilder where
  "fake_localSchemeBuilder = [sources_AddToScheme]"

definition fake_AddToScheme :: "(type_scheme, unit) go" where
  "fake_AddToScheme = SchemeBuilder_AddToScheme fake_localSchemeBuilder"

definition fake_scheme_init :: "(type_scheme, unit) go" where
  "fake_scheme_init = seqG (AddToGroupVersion \<lparr>gv_Group = [], gv_Version = ''v1''\<rparr>) (Must fake_AddToScheme)"

section \<open>What the registrations claim\<close>

definition known_as :: "GroupVersion \<Rightarrow> go_type list \<Rightarrow> (GroupVersionKind \<times> go_type) list" where
  "known_as gv ts = map (\<lambda>t. (WithKind gv (snd t), t)) ts"

definition group_claims :: "GroupVersion \<Rightarrow> (GroupVersionKind \<times> go_type) list" where
  "group_claims gv =
     (WithKind gv WatchEventKind, (metaPkg, ''WatchEvent''))
     # (WithKind \<lparr>gv_Group = gv_Group gv, gv_Version = APIVersionInternal\<rparr> WatchEventKind, (metaPkg, ''InternalEvent''))
     # known_as gv meta_options @ known_as Unversioned meta_unversioned"

definition source_claims :: "(GroupVersionKind \<times> go_type) list" where
  "source_claims = known_as SchemeGroupVersion source_types @ group_claims SchemeGroupVersion"

definition claims :: "(GroupVersionKind \<times> go_type) list" where
  "claims = source_claims @ group_claims Unversioned"

lemmas claims_defs = claims_def source_claims_def group_claims_def known_as_def meta_options_def meta_unversioned_def source_types_def
  metaPkg_def sourcesPkg_def Unversioned_def WatchEventKind_def APIVersionInternal_def SchemeGroupVersion_def WithKind_def

lemma claims_agree: "(g, t) \<in> set claims \<Longrightarrow> (g, t') \<in> set claims \<Longrightarrow> t = t'"
proof -
  have "list_all (\<lambda>p. list_all (\<lambda>q. fst p = fst q \<longrightarrow> snd p = snd q) claims) claims" by code_simp
  then show "(g, t) \<in> set claims \<Longrightarrow> (g, t') \<in> set claims \<Longrightarrow> t = t'" by (fastforce simp: list_all_iff)
qed

lemma claims_versioned: "(g, t) \<in> set claims \<Longrightarrow> gvk_Version g \<noteq> []"
proof -
  have "list_all (\<lambda>p. gvk_Version (fst p) \<noteq> []) claims" by code_simp
  then show "(g, t) \<in> set claims \<Longrightarrow> gvk_Version g \<noteq> []" by (fastforce simp: list_all_iff)
qed

lemma claims_of_sources:
  "(g, (sourcesPkg, nm)) \<in> set claims \<Longrightarrow> (nm = ''GitLabSource'' \<or> nm = ''GitLabSourceList'') \<and> g = WithKind SchemeGroupVersion nm"
proof -
  have "list_all (\<lambda>(g, p, nm). p = sourcesPkg \<longrightarrow> (nm = ''GitLabSource'' \<or> nm = ''GitLabSourceList'') \<and> g = WithKind SchemeGroupVersion nm) claims"
    by code_simp
  then show "(g, (sourcesPkg, nm)) \<in> set claims \<Longrightarrow> (nm = ''GitLabSource'' \<or> nm = ''GitLabSourceList'') \<and> g = WithKind SchemeGroupVersion nm"
    by (fastforce simp: list_all_iff)
qed

lemma set_of_claim: "(\<And>g. g \<in> A \<Longrightarrow> P \<and> g = x) \<Longrightarrow> (P \<Longrightarrow> x \<in> A) \<Longrightarrow> A = (if P then {x} else {})"
  by auto

lemma list_of_claim: "ks \<noteq> [] \<and> distinct ks \<Longrightarrow> set ks = (if P then {x} else {}) \<Longrightarrow> P \<and> ks = [x]"
  by (cases ks; cases "tl ks") (auto split: if_splits)

text \<open>A scheme that holds claims only, with its two maps in agreement.\<close>

definition sch_ok :: "type_scheme \<Rightarrow> bool" where
  "sch_ok s \<longleftrightarrow> (\<forall>g t. sch_gvkToType s g = Some t \<longrightarrow> (g, t) \<in> set claims)
     \<and> (\<forall>t ks. sch_typeToGVK s t = Some ks \<longrightarrow> ks \<noteq> [] \<and> distinct ks)
     \<and> (\<forall>g t. g \<in> set (kinds_of t s) \<longleftrightarrow> sch_gvkToType s g = Some t)
     \<and> dom (sch_unversionedTypes s) \<subseteq> set meta_unversioned
     \<and> (\<forall>k t. sch_unversionedKinds s k = Some t \<longrightarrow> t = (metaPkg, k))"

lemma sch_okD:
  assumes "sch_ok s"
  shows "sch_gvkToType s g = Some x \<Longrightarrow> (g, x) \<in> set claims"
    and "sch_typeToGVK s x = Some ks \<Longrightarrow> ks \<noteq> [] \<and> distinct ks"
    and "g \<in> set (kinds_of x s) \<longleftrightarrow> sch_gvkToType s g = Some x"
    and "dom (sch_unversionedTypes s) \<subseteq> set meta_unversioned"
    and "sch_unversionedKinds s k = Some x \<Longrightarrow> x = (metaPkg, k)"
  using assms unfolding sch_ok_def by blast+

lemma sch_okI:
  assumes "\<And>g x. sch_gvkToType s g = Some x \<Longrightarrow> (g, x) \<in> set claims"
    and "\<And>x ks. sch_typeToGVK s x = Some ks \<Longrightarrow> ks \<noteq> [] \<and> distinct ks"
    and "\<And>g x. g \<in> set (kinds_of x s) \<longleftrightarrow> sch_gvkToType s g = Some x"
    and "dom (sch_unversionedTypes s) \<subseteq> set meta_unversioned"
    and "\<And>k x. sch_unversionedKinds s k = Some x \<Longrightarrow> x = (metaPkg, k)"
  shows "sch_ok s"
  using assms unfolding sch_ok_def by blast

lemma NewScheme_ok: "sch_ok NewScheme"
  by (simp add: sch_ok_def NewScheme_def kinds_of_def)

lemma observed_fields [simp]:
  "sch_gvkToType (addObservedVersion v s) = sch_gvkToType s" "sch_typeToGVK (addObservedVersion v s) = sch_typeToGVK s"
  "sch_unversionedTypes (addObservedVersion v s) = sch_unversionedTypes s"
  "sch_unversionedKinds (addObservedVersion v s) = sch_unversionedKinds s" "kinds_of t (addObservedVersion v s) = kinds_of t s"
  by (simp_all add: addObservedVersion_def kinds_of_def)

lemma observed_ok [simp]: "sch_ok (addObservedVersion v s) = sch_ok s"
  by (simp add: sch_ok_def)

text \<open>
  \<open>adds C f\<close>: on every such scheme \<open>f\<close> succeeds, takes nothing away and leaves the claims
  \<open>C\<close> in it.
\<close>

definition adds :: "(GroupVersionKind \<times> go_type) list \<Rightarrow> (type_scheme, unit) go \<Rightarrow> bool" where
  "adds C f \<longleftrightarrow> (\<forall>s. sch_ok s \<longrightarrow> (\<exists>t. f s = (Ok (), t) \<and> sch_ok t \<and> sch_gvkToType s \<subseteq>\<^sub>m sch_gvkToType t
     \<and> (\<forall>(g, ty)\<in>set C. sch_gvkToType t g = Some ty)))"

lemma adds_retG: "adds [] (retG ())"
  by (simp add: adds_def retG_def)

lemma adds_observed: "adds [] (modG (addObservedVersion v))"
  by (simp add: adds_def modG_def)

lemma adds_seqG:
  assumes "adds C f" and "adds D g"
  shows "adds (C @ D) (seqG f g)"
  unfolding adds_def
proof (intro allI impI)
  fix s assume "sch_ok s"
  with assms(1) obtain t where t: "f s = (Ok (), t)" "sch_ok t" "sch_gvkToType s \<subseteq>\<^sub>m sch_gvkToType t"
    "\<forall>(k, ty)\<in>set C. sch_gvkToType t k = Some ty" by (auto simp: adds_def)
  with assms(2) obtain u where u: "g t = (Ok (), u)" "sch_ok u" "sch_gvkToType t \<subseteq>\<^sub>m sch_gvkToType u"
    "\<forall>(k, ty)\<in>set D. sch_gvkToType u k = Some ty" by (auto simp: adds_def)
  have "sch_gvkToType u k = Some ty" if "(k, ty) \<in> set C" for k ty
    using t(4) u(3) that by (force simp: map_le_def dom_def)
  with t u show "\<exists>u. seqG f g s = (Ok (), u) \<and> sch_ok u \<and> sch_gvkToType s \<subseteq>\<^sub>m sch_gvkToType u
      \<and> (\<forall>(k, ty)\<in>set (C @ D). sch_gvkToType u k = Some ty)"
    by (auto simp: seqG_def thenG_def onErr_def intro: map_le_trans)
qed

lemma adds_cong: "adds C f \<Longrightarrow> set D \<subseteq> set C \<Longrightarrow> adds D f"
  unfolding adds_def by (meson subsetD)

lemma adds_known:
  assumes "(g, ty) \<in> set claims"
  shows "adds [(g, ty)] (AddKnownTypeWithName g ty)"
  unfolding adds_def
proof (intro allI impI)
  fix s assume ok: "sch_ok s"
  have fresh: "sch_gvkToType s g = None \<or> sch_gvkToType s g = Some ty"
  proof (cases "sch_gvkToType s g")
    case (Some x)
    then have "(g, x) \<in> set claims" using sch_okD(1) [OF ok] by simp
    with claims_agree [OF assms] Some show ?thesis by simp
  qed simp
  let ?s = "(addObservedVersion (gvk_GroupVersion g) s)\<lparr>sch_gvkToType := (sch_gvkToType s)(g \<mapsto> ty)\<rparr>"
  let ?t = "if g \<in> set (kinds_of ty s) then ?s else ?s\<lparr>sch_typeToGVK := (sch_typeToGVK s)(ty \<mapsto> kinds_of ty s @ [g])\<rparr>"
  have run: "AddKnownTypeWithName g ty s = (Ok (), ?t)"
    using fresh claims_versioned [OF assms]
    by (auto simp: AddKnownTypeWithName_def seqG_def thenG_def onErr_def modG_def getG_def kinds_of_def)
  have le: "sch_gvkToType s \<subseteq>\<^sub>m sch_gvkToType ?t" using fresh by (auto simp: map_le_def)
  have ks: "kinds_of x ?t = (if x = ty \<and> g \<notin> set (kinds_of ty s) then kinds_of ty s @ [g] else kinds_of x s)" for x
    by (auto simp: kinds_of_def)
  have types: "sch_gvkToType ?t = (sch_gvkToType s)(g \<mapsto> ty)" by simp
  have old: "k \<in> set (kinds_of x s) \<longleftrightarrow> sch_gvkToType s k = Some x" for k x by (rule sch_okD(3) [OF ok])
  have "sch_ok ?t"
  proof (rule sch_okI)
    fix k x assume "sch_gvkToType ?t k = Some x"
    then show "(k, x) \<in> set claims"
      using sch_okD(1) [OF ok, of k x] assms unfolding types by (cases "k = g") simp_all
  next
    fix x ks assume that: "sch_typeToGVK ?t x = Some ks"
    note old = sch_okD(2) [OF ok]
    have "distinct (kinds_of ty s)" using old [of ty] by (auto simp: kinds_of_def split: option.split)
    with that show "ks \<noteq> [] \<and> distinct ks" using old [of x] by (cases "x = ty") (auto split: if_splits)
  next
    show "k \<in> set (kinds_of x ?t) \<longleftrightarrow> sch_gvkToType ?t k = Some x" for k x
      unfolding ks types using fresh old by auto
  next
    show "dom (sch_unversionedTypes ?t) \<subseteq> set meta_unversioned" using sch_okD(4) [OF ok] by simp
  next
    fix k x assume "sch_unversionedKinds ?t k = Some x"
    then show "x = (metaPkg, k)" using sch_okD(5) [OF ok, of k x] by (cases "g \<in> set (kinds_of ty s)") simp_all
  qed
  with run le show "\<exists>t. AddKnownTypeWithName g ty s = (Ok (), t) \<and> sch_ok t \<and> sch_gvkToType s \<subseteq>\<^sub>m sch_gvkToType t
      \<and> (\<forall>(k, x)\<in>set [(g, ty)]. sch_gvkToType t k = Some x)"
    by (intro exI [of _ ?t]) auto
qed

lemma adds_types: "set (known_as gv ts) \<subseteq> set claims \<Longrightarrow> adds (known_as gv ts) (AddKnownTypes gv ts)"
proof -
  have "set (known_as gv ts) \<subseteq> set claims \<Longrightarrow> adds (known_as gv ts) (add_types gv ts)"
  proof (induction ts)
    case (Cons t ts)
    then have "adds [(WithKind gv (snd t), t)] (AddKnownTypeWithName (WithKind gv (snd t)) t)"
      by (intro adds_known) (simp add: known_as_def)
    from adds_seqG [OF this Cons.IH] Cons.prems show ?case by (simp add: known_as_def)
  qed (simp add: adds_retG known_as_def)
  then show "set (known_as gv ts) \<subseteq> set claims \<Longrightarrow> adds (known_as gv ts) (AddKnownTypes gv ts)"
    using adds_seqG [OF adds_observed] by (fastforce simp: AddKnownTypes_def)
qed

lemma meta_unversioned_pkg: "t \<in> set meta_unversioned \<Longrightarrow> t = (metaPkg, snd t)"
  by (auto simp: meta_unversioned_def)

lemma adds_mark: "set ts \<subseteq> set meta_unversioned \<Longrightarrow> adds [] (mark_unversioned version ts)"
proof (induction ts)
  case (Cons t ts)
  then have t: "t \<in> set meta_unversioned" "t = (metaPkg, snd t)" using meta_unversioned_pkg by auto
  have ih: "adds [] (mark_unversioned version ts)" using Cons by simp
  show ?case
    unfolding adds_def
  proof (intro allI impI)
    fix s assume ok: "sch_ok s"
    let ?s = "s\<lparr>sch_unversionedTypes := (sch_unversionedTypes s)(t \<mapsto> WithKind version (snd t)),
                sch_unversionedKinds := (sch_unversionedKinds s)(snd t \<mapsto> t)\<rparr>"
    have "sch_unversionedKinds s (snd t) = None \<or> sch_unversionedKinds s (snd t) = Some t"
      using sch_okD(5) [OF ok, of "snd t"] t(2) by (cases "sch_unversionedKinds s (snd t)") simp_all
    then have run: "mark_unversioned version (t # ts) s = mark_unversioned version ts ?s"
      by (auto simp: Let_def WithKind_def seqG_def thenG_def onErr_def modG_def getG_def)
    have "sch_ok ?s" using ok t by (auto simp: sch_ok_def kinds_of_def)
    with ih have "\<exists>u. mark_unversioned version ts ?s = (Ok (), u) \<and> sch_ok u \<and> sch_gvkToType ?s \<subseteq>\<^sub>m sch_gvkToType u"
      by (auto simp: adds_def)
    then show "\<exists>u. mark_unversioned version (t # ts) s = (Ok (), u) \<and> sch_ok u \<and> sch_gvkToType s \<subseteq>\<^sub>m sch_gvkToType u
        \<and> (\<forall>(k, x)\<in>set []. sch_gvkToType u k = Some x)" unfolding run by simp
  qed
qed (simp add: adds_retG)

lemma adds_group: "set (group_claims gv) \<subseteq> set claims \<Longrightarrow> adds (group_claims gv) (AddToGroupVersion gv)"
  unfolding AddToGroupVersion_def AddUnversionedTypes_def
  by (rule adds_cong [OF adds_seqG [OF adds_known adds_seqG [OF adds_known adds_seqG [OF adds_types
        adds_seqG [OF adds_observed adds_seqG [OF adds_types adds_mark]]]]]])
    (auto simp: group_claims_def)

lemma group_claims_in: "set (group_claims SchemeGroupVersion) \<subseteq> set claims" "set (group_claims Unversioned) \<subseteq> set claims"
  by (auto simp: claims_def source_claims_def)

lemma adds_sources: "adds source_claims sources_AddToScheme"
proof -
  have "adds (known_as SchemeGroupVersion source_types) (AddKnownTypes SchemeGroupVersion source_types)"
    by (rule adds_types) (auto simp: claims_def source_claims_def)
  from adds_seqG [OF adds_seqG [OF this adds_group [OF group_claims_in(1)]] adds_retG]
  show ?thesis
    by (simp add: sources_AddToScheme_def Builder_AddToScheme_def sources_SchemeBuilder_def Builder_Register_def
        SchemeBuilder_Register_def source_claims_def)
qed

lemma adds_Must: "adds C f \<Longrightarrow> adds C (Must f)"
  by (fastforce simp: adds_def Must_def onErr_def retG_def)

lemma adds_builder: "list_all (adds source_claims) fs \<Longrightarrow> adds (if fs = [] then [] else source_claims) (SchemeBuilder_AddToScheme fs)"
proof (induction fs)
  case (Cons f fs)
  then have "adds (source_claims @ (if fs = [] then [] else source_claims)) (seqG f (SchemeBuilder_AddToScheme fs))"
    by (intro adds_seqG) simp_all
  then show ?case by (auto intro: adds_cong)
qed (simp add: adds_retG)

text \<open>Each registration of the program adds the claims of the sources.\<close>

lemma program_adds:
  "f \<in> {sources_AddToScheme, apis_AddToScheme, clientset_AddToScheme, fake_AddToScheme, clientset_scheme_init, fake_scheme_init}
     \<Longrightarrow> adds source_claims f"
proof -
  have one: "adds source_claims (SchemeBuilder_AddToScheme [sources_AddToScheme])"
    using adds_builder [of "[sources_AddToScheme]"] by (simp add: adds_sources)
  have builders: "adds source_claims apis_AddToScheme" "adds source_claims clientset_AddToScheme" "adds source_claims fake_AddToScheme"
    using one by (simp_all add: apis_AddToScheme_def apis_AddToSchemes_def SchemeBuilder_Register_def clientset_AddToScheme_def
        localSchemeBuilder_def fake_AddToScheme_def fake_localSchemeBuilder_def flip: sources_AddToScheme_def)
  have v1: "\<lparr>gv_Group = [], gv_Version = ''v1''\<rparr> = Unversioned" by (simp add: Unversioned_def)
  have init: "adds source_claims (seqG (AddToGroupVersion Unversioned) (Must f))" if "adds source_claims f" for f
    by (rule adds_cong [OF adds_seqG [OF adds_group [OF group_claims_in(2)] adds_Must [OF that]]]) simp
  have "adds source_claims clientset_scheme_init" "adds source_claims fake_scheme_init"
    unfolding clientset_scheme_init_def fake_scheme_init_def v1 by (rule init [OF builders(2)], rule init [OF builders(3)])
  then show "f \<in> {sources_AddToScheme, apis_AddToScheme, clientset_AddToScheme, fake_AddToScheme, clientset_scheme_init, fake_scheme_init}
     \<Longrightarrow> adds source_claims f" using builders adds_sources by blast
qed

text \<open>The scheme of the controller, that of the clientset, that of its fake and that of
  \<open>apis\<close> agree: whatever registrations of the program run on a new scheme, in whatever order
  and however often, none of them fails or panics; a GitLabSource and its list then have
  exactly one kind each, the one the reconciler's scheme \<open>AddToScheme\<close> gives, and a type of
  another package that claims it makes the scheme panic.\<close>

theorem registrations_agree:
  assumes "fs \<noteq> []"
    and "set fs \<subseteq> {sources_AddToScheme, apis_AddToScheme, clientset_AddToScheme, fake_AddToScheme, clientset_scheme_init, fake_scheme_init}"
  shows "\<exists>s. SchemeBuilder_AddToScheme fs NewScheme = (Ok (), s)
    \<and> (\<forall>nm. sch_typeToGVK s (sourcesPkg, nm) = AddToScheme Map.empty nm)
    \<and> (\<forall>nm. nm = ''GitLabSource'' \<or> nm = ''GitLabSourceList'' \<longrightarrow>
         scheme_GVKForObject (sourcesPkg, nm) s = GVKForObject nm (AddToScheme Map.empty)
         \<and> (\<forall>t. t \<noteq> (sourcesPkg, nm) \<longrightarrow> fst (AddKnownTypeWithName (WithKind SchemeGroupVersion nm) t s) = Panic))"
proof -
  have "list_all (adds source_claims) fs" using assms(2) program_adds by (auto simp: list_all_iff)
  from adds_builder [OF this] assms(1) NewScheme_ok obtain s where
    s: "SchemeBuilder_AddToScheme fs NewScheme = (Ok (), s)" "sch_ok s" "\<forall>(g, t)\<in>set source_claims. sch_gvkToType s g = Some t"
    by (auto simp: adds_def)
  have reg: "sch_gvkToType s (WithKind SchemeGroupVersion nm) = Some (sourcesPkg, nm)" if "nm = ''GitLabSource'' \<or> nm = ''GitLabSourceList''" for nm
  proof -
    have "(WithKind SchemeGroupVersion nm, (sourcesPkg, nm)) \<in> set source_claims"
      using that by (auto simp: source_claims_def known_as_def source_types_def)
    with s(3) show ?thesis by blast
  qed
  have kinds: "set (kinds_of (sourcesPkg, nm) s) = (if nm = ''GitLabSource'' \<or> nm = ''GitLabSourceList'' then {WithKind SchemeGroupVersion nm} else {})" for nm
  proof -
    have "g \<in> set (kinds_of (sourcesPkg, nm) s) \<Longrightarrow> (nm = ''GitLabSource'' \<or> nm = ''GitLabSourceList'') \<and> g = WithKind SchemeGroupVersion nm" for g
      using sch_okD(1,3) [OF s(2)] claims_of_sources by blast
    moreover have "nm = ''GitLabSource'' \<or> nm = ''GitLabSourceList'' \<Longrightarrow> WithKind SchemeGroupVersion nm \<in> set (kinds_of (sourcesPkg, nm) s)"
      using sch_okD(3) [OF s(2)] reg by blast
    ultimately show ?thesis by (rule set_of_claim)
  qed
  have types: "sch_typeToGVK s (sourcesPkg, nm) = AddToScheme Map.empty nm" for nm
  proof (cases "sch_typeToGVK s (sourcesPkg, nm)")
    case None
    then show ?thesis using kinds [of nm] by (auto simp: kinds_of_def AddToScheme_def add_known_def split: if_splits)
  next
    case (Some ks)
    then have "ks \<noteq> [] \<and> distinct ks" "kinds_of (sourcesPkg, nm) s = ks" using sch_okD(2) [OF s(2)] by (auto simp: kinds_of_def)
    then have "(nm = ''GitLabSource'' \<or> nm = ''GitLabSourceList'') \<and> ks = [WithKind SchemeGroupVersion nm]"
      using kinds [of nm] by (metis list_of_claim)
    with Some show ?thesis by (auto simp: AddToScheme_def add_known_def)
  qed
  have "sch_unversionedTypes s (sourcesPkg, nm) = None" for nm
    using sch_okD(4) [OF s(2)] by (auto simp: meta_unversioned_def metaPkg_def sourcesPkg_def)
  then have "scheme_GVKForObject (sourcesPkg, nm) s = GVKForObject nm (AddToScheme Map.empty)"
    if "nm = ''GitLabSource'' \<or> nm = ''GitLabSourceList''" for nm
    using that types [of nm] by (auto simp: scheme_GVKForObject_def ObjectKinds_def GVKForObject_def AddToScheme_def add_known_def)
  moreover have "fst (AddKnownTypeWithName (WithKind SchemeGroupVersion nm) t s) = Panic"
    if "nm = ''GitLabSource'' \<or> nm = ''GitLabSourceList''" "t \<noteq> (sourcesPkg, nm)" for nm t
  proof -
    show ?thesis using that(2) reg [OF that(1)]
      by (simp add: AddKnownTypeWithName_def seqG_def thenG_def onErr_def modG_def getG_def panicG_def WithKind_def SchemeGroupVersion_def)
  qed
  ultimately show ?thesis using s(1) types by blast
qed

theorem registrations_agree_witness:
  "\<exists>s. SchemeBuilder_AddToScheme [clientset_scheme_init, sources_AddToScheme, sources_AddToScheme] NewScheme = (Ok (), s)
     \<and> scheme_GVKForObject (sourcesPkg, ''GitLabSource'') s = Inr (WithKind SchemeGroupVersion ''GitLabSource'')"
proof -
  have "GVKForObject ''GitLabSource'' (AddToScheme Map.empty) = Inr (WithKind SchemeGroupVersion ''GitLabSource'')"
    by (simp add: GVKForObject_def AddToScheme_def add_known_def)
  then show ?thesis using registrations_agree [of "[clientset_scheme_init, sources_AddToScheme, sources_AddToScheme]"] by auto
qed

end
