(* ===== verification/Spec2Isabelle.thy ===== *)
theory Spec2Isabelle
  imports Convergence ClientProperties AdapterProperties TypedClient ControllerProperties
    DeepCopyProperties CacheProperties InformerProperties SystemProperties StartupProperties FakeInjection
    WebhookProperties ExchangeProperties GitLabExchange TypeRegistry
begin

text \<open>
  A development for GitLabSource, the knative event source that subscribes to the events of
  a GitLab project and forwards them as CloudEvents.

  The program. A \<open>GitLabSource\<close> object (\<open>pkg/apis/sources/v1alpha1\<close>)
  names a project, the events wanted, two secrets and a sink. The controller
  (\<open>cmd/controller\<close>, \<open>pkg/reconciler\<close>) runs \<open>Reconcile\<close> on
  the key of a source: it reads the secrets, resolves the sink, deploys a receive adapter with a
  public service, and, once the adapter exists, registers a hook for it in GitLab and keeps its ID
  in the status; for a source under deletion it removes the hook. Then it writes status and
  finalizers back. The informer of sources lists and watches them in the API server, fills the
  cache \<open>Reconcile\<close> reads and hands every change to event handlers, which put keys
  into the work queue of the controller, from which its workers take them. The adapter
  (\<open>cmd/receive_adapter\<close>, \<open>pkg/adapter\<close>) checks each hook request and
  sends it to the sink. The generated code (\<open>pkg/client\<close>) is what the controller
  reads and writes sources with. An admission webhook (\<open>cmd/webhook\<close>) checks sources
  before they are stored.

  The theories, in the order they build on each other:

  \<^item> \<open>Prelude\<close>: Go errors, outcomes (value, error, panic), sequencing of functions over a
    state, its weakest preconditions and preservation rules.
  \<^item> \<open>GoStrings\<close>, \<open>GoURL\<close>: what the program uses of \<open>strings\<close>, \<open>strconv\<close>, \<open>net/url\<close>.
  \<^item> \<open>StringSet\<close>: \<open>sets.String\<close> of apimachinery behind the locale \<open>string_set\<close>.
  \<^item> \<open>Conditions\<close>: the condition manager of \<open>knative.dev/pkg\<close>, its specification on maps from
    condition types, the refinement, the locale \<open>conditions_accessor\<close>.
  \<^item> \<open>KubeObjects\<close>: object metadata, keys, group version kinds, controller references, the
    objects the controller handles.
  \<^item> \<open>SourceTypes\<close>: \<open>gitlab_types.go\<close>, its validation, defaults and registration; the
    interpretation \<open>gls\<close> of the accessor; the invariant \<open>good_status\<close> of a status.
  \<^item> \<open>Resources\<close>: \<open>resources/service.go\<close>.
  \<^item> \<open>World\<close>: the state \<open>rstate\<close> a run works on, that is the requests issued so far
    (\<open>st_trace\<close>), the events recorded, the working copy of the source (\<open>st_src\<close>, the
    variable \<open>source\<close>), the lister's objects (\<open>st_cache\<close>) and the clock; and \<open>env\<close>, the
    answers of the API server and of GitLab as functions of the requests so far, with no
    assumption on them.
  \<^item> \<open>WebhookClient\<close>: \<open>webhook_client.go\<close> on the base URL code of go-gitlab; the locale
    \<open>webhook_client\<close> is the contract of the interface of the same name, with the
    interpretation \<open>gitlab\<close>.
  \<^item> \<open>Reconciler\<close>: \<open>gitlabsource.go\<close> and the constructor of \<open>controller.go\<close>, one definition
    per method, \<open>reconcile\<close> cut at its stages.
  \<^item> \<open>ReconcilerLemmas\<close>: what each stage may ask for and what it leaves alone
    (\<open>stage_step\<close>, \<open>reconcile_request\<close>, \<open>finalize_request\<close>), proved in the locale
    \<open>reconciler_client\<close> from the contract of the hook client only, and interpreted
    (\<open>main\<close>) on the reconciler \<open>NewController\<close> builds.
  \<^item> \<open>ReconcileLoop\<close>: the write-back, the invariant of the cache over runs, what a nil result
    means, the steady state.
  \<^item> \<open>Demo\<close>: a concrete source, cluster and GitLab for the examples that instantiate the
    theorems.
  \<^item> \<open>ReconcilerProperties\<close>, \<open>ClientProperties\<close>: the properties of the reconciler, and of its hook
    client and the status.
  \<^item> \<open>Convergence\<close>: in a cluster that does what it is asked (\<open>cluster_works\<close>: in particular the
    service has an address once it has been created, without which a run panics), two runs on a new
    source reach a steady one, which later runs only read; and a deleted source takes its hook with it.
  \<^item> \<open>Adapter\<close>, \<open>AdapterProperties\<close>: the adapter, its \<open>main\<close>, and the parser of hook requests
    (\<open>webhooks.v5\<close>).
  \<^item> \<open>RestClient\<close>, \<open>TypedClient\<close>: the request builder of client-go and the generated client of
    sources on it.
  \<^item> \<open>WorkQueue\<close>, \<open>Controller\<close>: the queue, the delaying queue and the rate limiter of client-go,
    and the workers of knative's \<open>controller.Impl\<close> on them: a step relation \<open>ctl_step\<close> whose
    steps are the operations under the queue's lock, the turns of the delaying loop and
    whole runs of the reconciler, with reachability, the invariant \<open>ctl_inv\<close> and the measure
    \<open>load\<close>.
  \<^item> \<open>GoHeap\<close>, \<open>DeepCopy\<close>, \<open>DeepCopyProperties\<close>: a store of cells; the contract of a copy
    function as the locale \<open>deep_copier\<close>, closed under pairs, slices, pointers and structs;
    \<open>zz_generated.deepcopy.go\<close> on it, with the interpretations \<open>source_copy\<close> and
    \<open>list_copy\<close>.  Elsewhere an object is its value, which these theorems justify.
  \<^item> \<open>Indexer\<close>, \<open>SourceCache\<close>: the indexed store of client-go, its keys, \<open>HandleDeltas\<close> of the
    informer and the listers (\<open>pkg/client/listers\<close>), with the invariant \<open>cache_ok\<close>.
  \<^item> \<open>ControllerLoop\<close>, \<open>ControllerProperties\<close>, \<open>CacheProperties\<close>: the event handlers of
    \<open>NewController\<close> and \<open>Reconcile\<close> under the workers (the locale \<open>keyed_reconciler\<close>, interpreted
    as \<open>keys\<close>), and from a change of the cache to the key in the queue.
  \<^item> \<open>DeltaFIFO\<close>, \<open>InformerProperties\<close>: what feeds that store: the queue of changes of client-go,
    the reflector's lists and watch events that go into it and the loop that takes them out;
    \<open>inf_map\<close> is the map that store and queued changes stand for, which every step changes as
    the server's events say.
  \<^item> \<open>Reflector\<close>: the reflector that lists and watches the API server, as a state that waits for
    an input; the server as a log of changes with their versions, and \<open>reflect_step\<close>, under which
    the informer stands at a version of that log.
  \<^item> \<open>System\<close>, \<open>SystemProperties\<close>: informer, notifications, queue, workers and \<open>Reconcile\<close> as one
    step relation \<open>sys_step\<close>, with the invariant \<open>sys_inv\<close>: a key whose last run did not find
    the source as it is, or failed, is queued somewhere; and \<open>whole_step\<close>, the reflector in
    front of it, from the log of the server to the run.
  \<^item> \<open>Clientset\<close>, \<open>ClientInterface\<close>, \<open>Informers\<close>, \<open>Injection\<close>, \<open>StartupProperties\<close>: the
    constructors of the clientset with their rate limiters, the interfaces the real and the fake
    clientset share, the informer factory, the injectors and the start of the process from
    \<open>cmd/controller\<close> to the running workers.
  \<^item> \<open>FakeClient\<close>, \<open>FakeProperties\<close>, \<open>FakeInjection\<close>: the fake client the tests of the reconciler
    use, on the object tracker of client-go, and the injectors that put it into their context.
  \<^item> \<open>RestExchange\<close>, \<open>ExchangeProperties\<close>: what becomes of a request of the generated client, from
    its attempts (\<open>request_loop\<close>) to the object or the error an operation returns, and how that
    compares with the fake client.
  \<^item> \<open>Webhook\<close>, \<open>WebhookProperties\<close>: \<open>cmd/webhook\<close> and the admission of knative's webhook.
  \<^item> \<open>GitLabRequests\<close>: the HTTP requests go-gitlab builds for the hook client, and what follows
    from its asking for one page of hooks.
  \<^item> \<open>GitLabExchange\<close>: what go-gitlab makes of the server's answers; \<open>with_gitlab\<close> is the
    environment of the hook client on such a server, and a lost answer leaves a hook behind.
  \<^item> \<open>TypeRegistry\<close>: the schemes of apimachinery and the registrations of the program, of which
    \<open>AddToScheme\<close> of \<open>SourceTypes\<close> is the result.
  \<^item> This theory: the properties that span the controller, the adapter and the hooks.

  Faithfulness.  A Go function over shared state is a function from the state to an outcome
  and a state; a panic keeps the state reached.  Words have the width of the source
  (\<open>int32\<close> ports, 64 bit hook IDs, \<open>strconv.Atoi\<close> with its range); a clock reading is an element of
  a stream.  Every service answers by a function of the whole history of requests, so that
  a theorem about a run holds for any behaviour of the services, retries and other writers
  included, as long as a call returns.  Loops are structural recursions on the list they run
  over; \<open>ReplaceAll\<close>, the event parser and the attempts of a request have termination proofs; there is
  no fuel.  The
  loops that do not end, of a worker and of the delaying queue, are steps of \<open>ctl_step\<close>; that
  the work of a quiet controller ends is proved by a measure.  A Go map that is iterated is
  an association list, in the order of one iteration; the theorems hold for every order.

  Not modelled. Log output and metrics; the text of a URL or number error beyond the offending input; the
  difference between a nil and an empty slice (both are \<open>[]\<close>) except in the deep copies; the
  interleaving of the requests inside two runs of different keys, as a run is one step; the periods
  between the calls of the reflector, and the objects a resync queues being those of the store (the writes
  of a run to a cached object show in them too; \<open>System\<close> compares sources without what a run
  writes); which of several items ready at the same instant the delaying queue pops first; the event
  broadcaster, which is the list of recorded events; the token bucket, whose delay is an argument; JSON: a
  parameter (\<open>decoder\<close>) gives the URL field of each payload and the error, and another
  (\<open>codec\<close>) what the webhook decodes, encodes and compares; label selectors and strategic
  merge patches, which are parameters; the CloudEvents client, a parameter that answers each event sent;
  the transport, time-outs, back-off and throttling of the REST client (its attempts are modelled, and
  end by a measure), the stream of a watch; the registration of the webhook with the API server
  and its certificates; the injectors of the Kubernetes and dynamic clients; the conversion and defaulting
  functions of a scheme; of go-gitlab the pages of a response, the log-in of clients without a private
  token and the encoding of a request's body.
\<close>

section \<open>From key to source\<close>

text \<open>The key the controller enqueues for a source, its namespace and name with a slash
  between, leads \<open>Reconcile\<close> to that very source.\<close>

theorem Reconcile_own_key:
  assumes "CHR ''/'' \<notin> set (om_Namespace (gs_meta src))" and "CHR ''/'' \<notin> set (om_Name (gs_meta src))"
    and "st_cache s (own_key src) = Some src"
  shows "Reconcile r (own_key src) s = process r src s"
proof -
  have "SplitMetaNamespaceKey (own_key src) = Inr (om_Namespace (gs_meta src), om_Name (gs_meta src))"
    unfolding lister_key_def using assms(1,2) by (rule SplitMetaNamespaceKey_join)
  with assms(3) show ?thesis by (simp add: Reconcile_eq)
qed

theorem Reconcile_own_key_witness:
  "Reconcile (demo_reconciler demo_env) ''ns/src'' (demo_state demo_source) = process (demo_reconciler demo_env) demo_source (demo_state demo_source)"
proof -
  have key: "own_key demo_source = ''ns/src''" by (simp add: lister_key_def demo_source_def demo_meta_def)
  have "st_cache (demo_state demo_source) (own_key demo_source) = Some demo_source" unfolding key by (simp add: demo_state_def)
  from Reconcile_own_key [OF _ _ this, of "demo_reconciler demo_env"] show ?thesis
    unfolding key by (simp add: demo_source_def demo_meta_def)
qed

section \<open>The controller and the adapter it deploys\<close>

text \<open>C22: the deployment and the adapter's \<open>main\<close> agree: started with the arguments of its
  container, the adapter serves events to the sink URI of the status, on the port the
  public service targets unless \<open>PORT\<close> says otherwise, with the secret of the environment
  variable the container takes from the source's secret token.  With an empty sink URI,
  which \<open>reconcile\<close> deploys when the spec names neither sink nor URI, it exits at once.\<close>

theorem deployed_adapter_starts:
  "(let cs = pt_Containers (dep_Template (MakeReceiveAdapter src img)); uri = SinkURI (Status src)
    in length cs = 1
       \<and> main_adapter (c_Args (hd cs)) environ NewDefaultClient =
          (if uri = [] then Fatal ''No sink given''
           else case environ envSecret of
               None \<Rightarrow> Fatal ''No secret token given''
             | Some [] \<Rightarrow> Fatal ''No secret token given''
             | Some secret \<Rightarrow>
                 (case NewDefaultClient uri of
                    Inl e \<Rightarrow> Fatal (''Failed to create gitlab adapter: '' @ err_text e)
                  | Inr _ \<Rightarrow> Serve uri
                      ('':'' @ (case environ envPort of Some (c # port) \<Rightarrow> c # port
                              | _ \<Rightarrow> Itoa (sint (sp_TargetPort (hd (svc_Ports (MakePublicService src))))))) secret))
       \<and> (\<exists>v \<in> set (c_Env (hd cs)). env_Name v = envSecret \<and> env_ValueFrom v = Some (SecretKeyRef (SecretToken (Spec src)))))"
proof -
  have flag: "flag_Parse [''--sink='' @ uri] [] = Some uri" for uri by simp
  have port: "Itoa (sint (sp_TargetPort (hd (svc_Ports (MakePublicService src))))) = ''8080''"
  proof -
    have "sint (8080 :: 32 word) = 8080" by simp
    moreover have "utoa 8080 = ''8080''"
    proof -
      have "digit_char 8 = CHR ''8''" "digit_char 0 = CHR ''0''" by code_simp+
      then show ?thesis by (simp add: utoa.simps [of 8080] utoa.simps [of 808] utoa.simps [of 80] utoa.simps [of 8])
    qed
    ultimately show ?thesis by (simp add: MakePublicService_def Let_def Itoa_def)
  qed
  have args: "c_Args (hd (pt_Containers (dep_Template (MakeReceiveAdapter src img)))) = [''--sink='' @ SinkURI (Status src)]"
    and env: "envSecret = ''GITLAB_SECRET_TOKEN''"
    by (simp_all add: MakeReceiveAdapter_def Let_def envSecret_def)
  show ?thesis
    unfolding Let_def args main_adapter_def flag port
    by (auto simp: MakeReceiveAdapter_def Let_def env Adapter_New_def split: option.split list.split sum.split)
qed

text \<open>The public service of a source selects the pods of a receive adapter, in the same
  namespace, exactly if the adapter is that of a source of the same name.\<close>

theorem service_selects_own_adapter:
  "selects (svc_Selector (MakePublicService src)) (pt_meta (dep_Template (MakeReceiveAdapter src' img)))
     \<longleftrightarrow> om_Name (gs_meta src) = om_Name (gs_meta src')"
  by (auto simp: selects_def MakePublicService_def MakeReceiveAdapter_def Let_def source_labels_def map_le_def)

section \<open>The life of a hook\<close>

text \<open>The hook \<open>Create\<close> registers is the one \<open>Delete\<close> removes with the ID \<open>Create\<close> returned: if
  GitLab still lists the hook and answers the removals without error, \<open>Delete\<close> returns nil
  and has asked to remove the hook of exactly that ID.\<close>

theorem created_hook_deleted:
  assumes "webhookID o' = []"
    and "env_AddHook env (st_trace s @ [AddHook (make_client (accessToken o') base) (project o') (hook_options o')]) = Inr hook"
    and "env_ListHooks env (st_trace u @ [ListHooks (make_client (accessToken o') base) (project o')]) = Inr hooks"
    and "hook \<in> set hooks" and "\<And>h. env_DeleteHook env h = Inr ()"
  shows "case fst (Create env o' base s) of
      Ok i \<Rightarrow> (let (res, t) = DeleteWebhook env (o'\<lparr>webhookID := i\<rparr>) base u
              in res = Ok () \<and> DeleteHook (make_client (accessToken o') base) (project o') (sint (hook_ID hook)) \<in> set (st_trace t))
    | _ \<Rightarrow> False"
proof -
  let ?c = "make_client (accessToken o') base" and ?i = "Itoa (sint (hook_ID hook))"
  let ?o = "o'\<lparr>webhookID := ?i\<rparr>"
  let ?u = "u\<lparr>st_trace := st_trace u @ [ListHooks ?c (project o')]\<rparr>"
  have created: "fst (Create env o' base s) = Ok ?i"
    using assms(1,2) by (simp add: Create_def addHook_def onErr_def issue_def Let_def liftG_def retG_def)
  have id: "Atoi ?i = Inr (sint (hook_ID hook))" using int_bounds Atoi_Itoa by blast
  have loop: "wpG (deleteLoop env ?c ?o i hs) (\<lambda>_ t. True) (\<lambda>_ _. False) (\<lambda>_. False) v" for i hs v
    using assms(5) by (induction hs arbitrary: v) (simp_all add: wp_simps)
  obtain res t where run: "DeleteWebhook env ?o base u = (res, t)" by (cases "DeleteWebhook env ?o base u")
  have wp: "wpG (DeleteWebhook env ?o base) (\<lambda>_ t'. res = Ok () \<and> t = t') (\<lambda>e t'. res = Err e \<and> t = t') (\<lambda>t'. res = Panic \<and> t = t') u"
    using run by (cases res) (simp_all add: wpG_def)
  then have del: "wpG (deleteLoop env ?c ?o (sint (hook_ID hook)) hooks)
      (\<lambda>_ t'. res = Ok () \<and> t = t') (\<lambda>e t'. res = Err e \<and> t = t') (\<lambda>t'. res = Panic \<and> t = t') ?u"
    using assms(3) by (simp add: wp_DeleteWebhook Let_def id)
  have n: "count (\<lambda>h. sint (hook_ID h) = sint (hook_ID hook)) hooks \<noteq> 0"
    using assms(4) by (auto simp: count_def filter_empty_conv)
  have "res = Ok () \<and> DeleteHook ?c (project o') (sint (hook_ID hook)) \<in> set (st_trace t)"
    using del loop [of "sint (hook_ID hook)" hooks ?u] deleteLoop_contract [of env ?c ?o "sint (hook_ID hook)" hooks ?u] n
    by (cases "deleteLoop env ?c ?o (sint (hook_ID hook)) hooks ?u") (auto simp: wpG_def split: outcome.splits)
  with created run show ?thesis by simp
qed

theorem created_hook_deleted_witness:
  "fst (DeleteWebhook demo_env (empty_hook_options\<lparr>webhookID := Itoa (sint (7 :: 64 word))\<rparr>) ''https://gitlab.com/'' (demo_state demo_source)) = Ok ()"
proof -
  have "env_AddHook demo_env h = Inr \<lparr>hook_ID = 7\<rparr>" "env_ListHooks demo_env h = Inr [\<lparr>hook_ID = 7\<rparr>]" "env_DeleteHook demo_env h = Inr ()" for h
    by (simp_all add: demo_env_def)
  note answers = this
  have "webhookID empty_hook_options = []" by (simp add: empty_hook_options_def)
  from created_hook_deleted [OF this answers(1,2) _ answers(3), where s = "demo_state demo_source" and base = "''https://gitlab.com/''" and u = "demo_state demo_source"]
  show ?thesis
    by (simp add: Create_def addHook_def onErr_def issue_def Let_def liftG_def retG_def answers empty_hook_options_def split_def)
qed

text \<open>Both writes of one run carry the resource version the lister's object had, so the
  write of the finalizers is stale as soon as the write of the status before it has
  changed the object on the server.\<close>

theorem writes_share_version:
  assumes "st_cache s (own_key (st_src s)) = Some new"
  shows "\<exists>ws. st_trace (snd (writeBack r original err s)) = st_trace s @ ws \<and> length ws \<le> 2
     \<and> list_all (\<lambda>q. case q of UpdateStatus _ x \<Rightarrow> om_ResourceVersion (gs_meta x) = om_ResourceVersion (gs_meta new)
                        | Update _ y \<Rightarrow> om_ResourceVersion (gs_meta y) = om_ResourceVersion (gs_meta new) | _ \<Rightarrow> False) ws"
  using writeBack_snd [of s r original err] assms
  by (auto simp: write_frame_def write_back_requests_def Let_def)

theorem writes_share_version_witness:
  "\<exists>ws. st_trace (snd (writeBack (demo_reconciler demo_env) fresh_source None (demo_state fresh_source\<lparr>st_src := demo_source\<rparr>))) = ws
     \<and> length ws \<le> 2
     \<and> list_all (\<lambda>q. case q of UpdateStatus _ x \<Rightarrow> om_ResourceVersion (gs_meta x) = om_ResourceVersion demo_meta
                        | Update _ y \<Rightarrow> om_ResourceVersion (gs_meta y) = om_ResourceVersion demo_meta | _ \<Rightarrow> False) ws"
proof -
  have "st_cache (demo_state fresh_source\<lparr>st_src := demo_source\<rparr>) (own_key (st_src (demo_state fresh_source\<lparr>st_src := demo_source\<rparr>))) = Some fresh_source"
    by (simp add: demo_state_def lister_key_def demo_source_def fresh_source_def demo_meta_def)
  moreover have "om_ResourceVersion (gs_meta fresh_source) = om_ResourceVersion demo_meta"
    by (simp add: fresh_source_def)
  moreover have "st_trace (demo_state fresh_source\<lparr>st_src := demo_source\<rparr>) = []" by (simp add: demo_state_def)
  ultimately show ?thesis
    using writes_share_version [of "demo_state fresh_source\<lparr>st_src := demo_source\<rparr>" fresh_source "demo_reconciler demo_env" fresh_source None]
    by simp
qed

text \<open>The controller only starts with an image for the adapter, and its scheme knows the
  kind of a source however often it is built, so that the references it sets on created
  objects name the source's kind and version.\<close>

theorem controller_scheme:
  "(NewController LookupEnv scheme env = None \<longleftrightarrow> LookupEnv ''GL_RA_IMAGE'' = None)
   \<and> AddToScheme (AddToScheme scheme) = AddToScheme scheme
   \<and> (scheme ''GitLabSource'' = None \<longrightarrow>
        GVKForObject ''GitLabSource'' (AddToScheme scheme)
          = Inr \<lparr>gvk_Group = ''sources.eventing.knative.dev'', gvk_Version = ''v1alpha1'', gvk_Kind = ''GitLabSource''\<rparr>)"
  by (auto simp: NewController_def raImageEnvVar_def Let_def AddToScheme_def add_known_def GVKForObject_def WithKind_def
      SchemeGroupVersion_def fun_eq_iff split: option.split list.split)

theorem controller_scheme_witness:
  "GVKForObject ''GitLabSource'' (AddToScheme Map.empty)
     = Inr \<lparr>gvk_Group = ''sources.eventing.knative.dev'', gvk_Version = ''v1alpha1'', gvk_Kind = ''GitLabSource''\<rparr>"
  using controller_scheme [of Map.empty Map.empty demo_env] by simp

end
